theory Spec2Isabelle
  imports Complex_Main
begin

section \<open>JavaScript numbers\<close>

text \<open>
  Every numeric quantity of the indexer is a JavaScript number, an IEEE 754 binary64
  value. A number is a real (the value of a finite double) or one of the three special
  values that the source tests for (\<open>=== Infinity\<close>, \<open>isNaN\<close>). The sign of zero is
  not represented: the source compares zeros with \<open>===\<close> and \<open>>\<close>, which do not tell
  them apart, and none of its divisions meets a zero divisor (the divisors of
  \<open>priceInUSD\<close> are constants, the others stand behind a test).
\<close>

datatype jsnum = Num real | Infinity | NegInfinity | NaN

text \<open>
  Every arithmetic operation returns the double nearest to the exact result, ties going
  to the even significand. With \<open>k\<close> the binary exponent of \<open>x\<close>
  (\<open>2^k \<le> |x| < 2^(k+1)\<close>), the doubles around \<open>x\<close> are the multiples of \<open>2^e\<close>,
  \<open>e = k - 52\<close>, and of \<open>2^(-1074)\<close> below the normal range; a result that rounds
  to \<open>2^1024\<close> or beyond is an infinity.
\<close>

function bexp :: "real \<Rightarrow> int" where
  "bexp x =
     (if x = 0 then 0
      else if 2 \<le> \<bar>x\<bar> then bexp (x / 2) + 1
      else if \<bar>x\<bar> < 1 then bexp (x * 2) - 1
      else 0)"
  by pat_completeness auto

termination bexp
proof (relation "measure (\<lambda>x. nat \<bar>\<lfloor>log 2 \<bar>x\<bar>\<rfloor>\<bar>)")
  show "wf (measure (\<lambda>x. nat \<bar>\<lfloor>log 2 \<bar>x\<bar>\<rfloor>\<bar>))" by simp
next
  fix x :: real
  assume nz: "x \<noteq> 0" and big: "2 \<le> \<bar>x\<bar>"
  from big have "log 2 2 \<le> log 2 \<bar>x\<bar>" by (subst log_le_cancel_iff) simp_all
  then have "1 \<le> \<lfloor>log 2 \<bar>x\<bar>\<rfloor>" by (simp add: le_floor_iff)
  moreover from nz have "log 2 \<bar>x / 2\<bar> = log 2 \<bar>x\<bar> - 1"
    by (simp add: log_divide)
  then have "\<lfloor>log 2 \<bar>x / 2\<bar>\<rfloor> = \<lfloor>log 2 \<bar>x\<bar>\<rfloor> - 1"
    by linarith
  ultimately show "(x / 2, x) \<in> measure (\<lambda>x. nat \<bar>\<lfloor>log 2 \<bar>x\<bar>\<rfloor>\<bar>)"
    by simp
next
  fix x :: real
  assume nz: "x \<noteq> 0" and small: "\<bar>x\<bar> < 1"
  from nz small have "log 2 \<bar>x\<bar> < log 2 1" by (subst log_less_cancel_iff) simp_all
  then have "\<lfloor>log 2 \<bar>x\<bar>\<rfloor> \<le> - 1" by (simp add: floor_le_iff)
  moreover from nz have "log 2 \<bar>x * 2\<bar> = log 2 \<bar>x\<bar> + 1"
    by (simp add: abs_mult log_mult)
  then have "\<lfloor>log 2 \<bar>x * 2\<bar>\<rfloor> = \<lfloor>log 2 \<bar>x\<bar>\<rfloor> + 1"
    by linarith
  ultimately show "(x * 2, x) \<in> measure (\<lambda>x. nat \<bar>\<lfloor>log 2 \<bar>x\<bar>\<rfloor>\<bar>)"
    by simp
qed

declare bexp.simps [simp del]

definition round_even :: "real \<Rightarrow> int" where
  "round_even q =
     (let f = \<lfloor>q\<rfloor>; d = q - of_int f
      in if d < 1 / 2 then f else if 1 / 2 < d then f + 1 else if even f then f else f + 1)"

definition double_at :: "int \<Rightarrow> real \<Rightarrow> jsnum" where
  "double_at k x =
     (let e = max (k - 52) (- 1074);
          r = of_int (round_even (x / 2 powi e)) * 2 powi e
      in if 2 powi 1024 \<le> \<bar>r\<bar> then (if 0 < x then Infinity else NegInfinity) else Num r)"

definition double :: "real \<Rightarrow> jsnum" where
  "double x = (if x = 0 then Num 0 else double_at (bexp x) x)"

fun js_neg :: "jsnum \<Rightarrow> jsnum" where
  "js_neg (Num a) = Num (- a)"
| "js_neg Infinity = NegInfinity"
| "js_neg NegInfinity = Infinity"
| "js_neg NaN = NaN"

fun js_add :: "jsnum \<Rightarrow> jsnum \<Rightarrow> jsnum" where
  "js_add NaN y = NaN"
| "js_add x NaN = NaN"
| "js_add (Num a) (Num b) = double (a + b)"
| "js_add Infinity NegInfinity = NaN"
| "js_add NegInfinity Infinity = NaN"
| "js_add Infinity y = Infinity"
| "js_add x Infinity = Infinity"
| "js_add NegInfinity y = NegInfinity"
| "js_add x NegInfinity = NegInfinity"

definition js_sub :: "jsnum \<Rightarrow> jsnum \<Rightarrow> jsnum" where
  "js_sub x y = js_add x (js_neg y)"

text \<open>The sign of a number (\<open>NaN\<close> has none) and the infinity of a given sign.\<close>

fun js_sign :: "jsnum \<Rightarrow> real" where
  "js_sign (Num a) = sgn a"
| "js_sign Infinity = 1"
| "js_sign NegInfinity = - 1"
| "js_sign NaN = 0"

definition signed_infinity :: "real \<Rightarrow> jsnum" where
  "signed_infinity s = (if s > 0 then Infinity else if s < 0 then NegInfinity else NaN)"

fun js_mul :: "jsnum \<Rightarrow> jsnum \<Rightarrow> jsnum" where
  "js_mul NaN y = NaN"
| "js_mul x NaN = NaN"
| "js_mul (Num a) (Num b) = double (a * b)"
| "js_mul x y = signed_infinity (js_sign x * js_sign y)"

text \<open>
  Division never raises in JavaScript: a finite non-zero number over zero is an
  infinity, zero over zero is \<open>NaN\<close>, a finite number over an infinity is zero.
\<close>

fun js_div :: "jsnum \<Rightarrow> jsnum \<Rightarrow> jsnum" where
  "js_div NaN y = NaN"
| "js_div x NaN = NaN"
| "js_div (Num a) (Num b) = (if b = 0 then signed_infinity (sgn a) else double (a / b))"
| "js_div (Num a) y = Num 0"
| "js_div x (Num b) = (if b = 0 then x else signed_infinity (js_sign x * sgn b))"
| "js_div x y = NaN"

text \<open>The same division, refusing a divisor that is zero.\<close>

definition js_div_checked :: "jsnum \<Rightarrow> jsnum \<Rightarrow> jsnum option" where
  "js_div_checked x y = (if y = Num 0 then None else Some (js_div x y))"

fun js_abs :: "jsnum \<Rightarrow> jsnum" where
  "js_abs (Num a) = Num \<bar>a\<bar>"
| "js_abs Infinity = Infinity"
| "js_abs NegInfinity = Infinity"
| "js_abs NaN = NaN"

text \<open>\<open>x > y\<close>: false whenever an operand is \<open>NaN\<close>.\<close>

fun js_gt :: "jsnum \<Rightarrow> jsnum \<Rightarrow> bool" where
  "js_gt NaN y = False"
| "js_gt x NaN = False"
| "js_gt (Num a) (Num b) = (a > b)"
| "js_gt Infinity y = (y \<noteq> Infinity)"
| "js_gt x NegInfinity = (x \<noteq> NegInfinity)"
| "js_gt x y = False"

text \<open>\<open>x === y\<close> on numbers: \<open>NaN\<close> is not equal to itself.\<close>

definition js_seq :: "jsnum \<Rightarrow> jsnum \<Rightarrow> bool" where
  "js_seq x y = (x \<noteq> NaN \<and> x = y)"

section \<open>Formatted reserves and token metrics\<close>

text \<open>
  \<open>formatReservesAndIncentives\<close> belongs to an external library. The record below
  holds the fields of one formatted reserve that the indexer reads. The library delivers
  the numeric ones as decimal strings; the source reads them with \<open>parseFloat\<close> (or by
  the implicit conversion of \<open>*\<close>), and each field here is the number so obtained.
  Field names carry the prefix \<open>r_\<close> to keep them apart from the token metrics.
\<close>

record formatted_reserve =
  r_name :: string
  r_symbol :: string
  r_priceInMarketReferenceCurrency :: jsnum
  r_totalLiquidity :: jsnum
  r_totalDebt :: jsnum
  r_reserves :: jsnum
  r_reserveFactor :: jsnum
  r_formattedReserveLiquidationThreshold :: jsnum
  r_borrowingEnabled :: bool
  r_supplyCap :: jsnum
  r_borrowCap :: jsnum
  r_supplyAPY :: jsnum
  r_variableBorrowAPY :: jsnum
  r_stableBorrowAPY :: jsnum
  r_totalLiquidityUSD :: jsnum
  r_totalDebtUSD :: jsnum

record token_metric =
  token :: string
  symbol :: string
  priceInUSD :: jsnum
  liquidity :: jsnum
  liquidityUSD :: jsnum
  totalSupplied :: jsnum
  totalSuppliedUSD :: jsnum
  totalBorrowed :: jsnum
  totalBorrowedUSD :: jsnum
  utilizationRate :: jsnum
  reserves :: jsnum
  reserveFactor :: jsnum
  liquidationThreshold :: jsnum
  borrowEnabled :: bool
  supplyCap :: jsnum
  borrowCap :: jsnum
  supplyAPY :: jsnum
  variableBorrowAPY :: jsnum
  stableBorrowAPY :: jsnum

text \<open>
  The snapshot object \<open>metricsData\<close>. The field \<open>date\<close> is
  \<open>new Date(timestamp * 1000).toISOString()\<close> in the source; it is kept here as the
  number of milliseconds handed to \<open>Date\<close>, of which the ISO string is a rendering.
\<close>

record metrics_data =
  network :: string
  chainId :: int
  blockNumber :: int
  timestamp :: int
  date :: int
  totalMarketSize :: jsnum
  totalAvailable :: jsnum
  totalBorrows :: jsnum
  averageUtilization :: jsnum
  tokenCount :: nat
  tokenMetrics :: "token_metric list"

text \<open>
  What the two data providers return for one block, and the library's formatter, which
  receives the current timestamp next to it.
\<close>

record ('r, 'i) raw_market_data =
  reservesData :: 'r
  marketReferenceCurrencyDecimals :: int
  marketReferenceCurrencyPriceInUsd :: jsnum
  reserveIncentives :: 'i

type_synonym ('r, 'i) formatter = "int \<Rightarrow> ('r, 'i) raw_market_data \<Rightarrow> formatted_reserve list"

datatype error =
  BlockNotFound int
  | UndefinedTable string
  | QueryFailed nat
  | InFailedTransaction

section \<open>The transform\<close>

text \<open>
  The callback of \<open>formattedReserves.map\<close>. The source has it twice, in
  \<open>indexBaseAaveMetrics\<close> and in \<open>fetchBaseMetricsAtBlock\<close>; the two bodies differ
  in the divisor of \<open>priceInUSD\<close> alone (\<open>1e16\<close> and \<open>1e18\<close>), which is the first
  argument here.
\<close>

definition metricsOfReserve :: "jsnum \<Rightarrow> jsnum \<Rightarrow> formatted_reserve \<Rightarrow> token_metric" where
  "metricsOfReserve divisor refPriceInUsd reserve =
     (let priceInUSD = js_div (js_mul (r_priceInMarketReferenceCurrency reserve) refPriceInUsd) divisor;
          totalSupplied = r_totalLiquidity reserve;
          totalBorrowed = r_totalDebt reserve;
          liquidity = js_sub totalSupplied totalBorrowed;
          liquidityUSD = js_mul liquidity priceInUSD;
          totalSuppliedUSD = js_mul totalSupplied priceInUSD;
          totalBorrowedUSD = js_mul totalBorrowed priceInUSD;
          utilizationRate =
            (if js_gt totalSupplied (Num 0)
             then js_mul (js_div totalBorrowed totalSupplied) (Num 100)
             else Num 0)
      in \<lparr> token = r_name reserve,
           symbol = r_symbol reserve,
           priceInUSD = priceInUSD,
           liquidity = liquidity,
           liquidityUSD = liquidityUSD,
           totalSupplied = totalSupplied,
           totalSuppliedUSD = totalSuppliedUSD,
           totalBorrowed = totalBorrowed,
           totalBorrowedUSD = totalBorrowedUSD,
           utilizationRate = utilizationRate,
           reserves = r_reserves reserve,
           reserveFactor = js_mul (r_reserveFactor reserve) (Num 100),
           liquidationThreshold = r_formattedReserveLiquidationThreshold reserve,
           borrowEnabled = r_borrowingEnabled reserve,
           supplyCap = r_supplyCap reserve,
           borrowCap = r_borrowCap reserve,
           supplyAPY = js_mul (r_supplyAPY reserve) (Num 100),
           variableBorrowAPY = js_mul (r_variableBorrowAPY reserve) (Num 100),
           stableBorrowAPY = js_mul (r_stableBorrowAPY reserve) (Num 100) \<rparr>)"

definition calculateTotalMarketSize :: "formatted_reserve list \<Rightarrow> jsnum" where
  "calculateTotalMarketSize formattedReserves =
     foldl (\<lambda>total reserve. js_add total (r_totalLiquidityUSD reserve)) (Num 0) formattedReserves"

definition calculateTotalBorrows :: "formatted_reserve list \<Rightarrow> jsnum" where
  "calculateTotalBorrows formattedReserves =
     foldl (\<lambda>total reserve. js_add total (r_totalDebtUSD reserve)) (Num 0) formattedReserves"

definition calculateTotalAvailable :: "formatted_reserve list \<Rightarrow> jsnum" where
  "calculateTotalAvailable formattedReserves =
     js_sub (calculateTotalMarketSize formattedReserves) (calculateTotalBorrows formattedReserves)"

definition calculateAverageUtilization :: "formatted_reserve list \<Rightarrow> jsnum" where
  "calculateAverageUtilization formattedReserves =
     (let totalSupplied =
            foldl (\<lambda>total reserve. js_add total (r_totalLiquidityUSD reserve)) (Num 0) formattedReserves;
          totalBorrowed =
            foldl (\<lambda>total reserve. js_add total (r_totalDebtUSD reserve)) (Num 0) formattedReserves
      in if js_gt totalSupplied (Num 0)
         then js_mul (js_div totalBorrowed totalSupplied) (Num 100)
         else Num 0)"

definition BASE_CHAIN_ID :: int where
  "BASE_CHAIN_ID = 8453"

text \<open>
  The live path, \<open>indexBaseAaveMetrics\<close>, from the arguments and the results of its
  reads to the object \<open>metricsData\<close>. Its reads are arguments here: \<open>now\<close> is what
  \<open>dayjs().unix()\<close> returns, \<open>head\<close> what \<open>provider.getBlockNumber()\<close> returns, \<open>raw\<close>
  what the two data providers return. \<open>blockNumber || head\<close> takes the head when the
  argument is \<open>null\<close> or \<open>0\<close>.
\<close>

definition indexBaseAaveMetrics ::
  "('r, 'i) formatter \<Rightarrow> int \<Rightarrow> int option \<Rightarrow> int \<Rightarrow> ('r, 'i) raw_market_data \<Rightarrow> metrics_data" where
  "indexBaseAaveMetrics formatReservesAndIncentives now blockNumberArg head raw =
     (let currentBlock = (case blockNumberArg of
                            None \<Rightarrow> head
                          | Some b \<Rightarrow> if b = 0 then head else b);
          currentTimestamp = now;
          formattedReserves = formatReservesAndIncentives currentTimestamp raw;
          metricsPerToken =
            map (metricsOfReserve (Num (10 ^ 16)) (marketReferenceCurrencyPriceInUsd raw))
              formattedReserves
      in \<lparr> network = ''Base'',
           chainId = BASE_CHAIN_ID,
           blockNumber = currentBlock,
           timestamp = currentTimestamp,
           date = currentTimestamp * 1000,
           totalMarketSize = calculateTotalMarketSize formattedReserves,
           totalAvailable = calculateTotalAvailable formattedReserves,
           totalBorrows = calculateTotalBorrows formattedReserves,
           averageUtilization = calculateAverageUtilization formattedReserves,
           tokenCount = length metricsPerToken,
           tokenMetrics = metricsPerToken \<rparr>)"

text \<open>
  The historical path, \<open>fetchBaseMetricsAtBlock\<close>. \<open>block\<close> is the timestamp of what
  \<open>provider.getBlock(blockNumber)\<close> returns, \<open>None\<close> when it returns nothing, in which
  case the source throws.
\<close>

definition fetchBaseMetricsAtBlock ::
  "('r, 'i) formatter \<Rightarrow> int \<Rightarrow> int option \<Rightarrow> ('r, 'i) raw_market_data \<Rightarrow> error + metrics_data" where
  "fetchBaseMetricsAtBlock formatReservesAndIncentives blockNumberArg block raw =
     (case block of
        None \<Rightarrow> Inl (BlockNotFound blockNumberArg)
      | Some block_timestamp \<Rightarrow>
          (let formattedReserves = formatReservesAndIncentives block_timestamp raw;
               metricsPerToken =
                 map (metricsOfReserve (Num (10 ^ 18)) (marketReferenceCurrencyPriceInUsd raw))
                   formattedReserves
           in Inr \<lparr> network = ''Base'',
                    chainId = BASE_CHAIN_ID,
                    blockNumber = blockNumberArg,
                    timestamp = block_timestamp,
                    date = block_timestamp * 1000,
                    totalMarketSize = calculateTotalMarketSize formattedReserves,
                    totalAvailable = calculateTotalAvailable formattedReserves,
                    totalBorrows = calculateTotalBorrows formattedReserves,
                    averageUtilization = calculateAverageUtilization formattedReserves,
                    tokenCount = length metricsPerToken,
                    tokenMetrics = metricsPerToken \<rparr>))"

section \<open>The store\<close>

text \<open>
  The tables of \<open>initializeDatabase\<close>: \<open>aave_market_metrics\<close> and one table
  \<open>aave_token_<symbol>\<close> for each token, all with \<open>block_number\<close> as primary key. A
  table is the list of its rows. The column \<open>created_at\<close>, which the server fills on
  insertion and no statement of the source writes, is left out.
\<close>

record market_row =
  m_block_number :: int
  m_timestamp :: int
  m_network :: string
  m_total_market_size :: jsnum
  m_total_borrows :: jsnum
  m_average_utilization :: jsnum
  m_token_count :: nat

text \<open>The two cap columns are nullable: \<open>None\<close> is SQL \<open>NULL\<close>.\<close>

record token_row =
  t_block_number :: int
  t_timestamp :: int
  t_token_name :: string
  t_price_usd :: jsnum
  t_total_supplied :: jsnum
  t_total_supplied_usd :: jsnum
  t_total_borrowed :: jsnum
  t_total_borrowed_usd :: jsnum
  t_utilization_rate :: jsnum
  t_supply_apy :: jsnum
  t_borrow_apy :: jsnum
  t_reserve_factor :: jsnum
  t_liquidation_threshold :: jsnum
  t_borrow_enabled :: bool
  t_supply_cap :: "jsnum option"
  t_borrow_cap :: "jsnum option"

record database =
  market_table :: "market_row list option"
  token_tables :: "(string \<times> token_row list) list"

text \<open>
  A value bound to a \<open>NUMERIC(p,s)\<close> column is not stored as it is passed: the driver
  sends the number as a decimal string and the server rounds it to \<open>s\<close> decimal places.
  Neither is code of this repository, so the conversion is a parameter of the store, a
  function of the precision, the scale and the number; a value that the column refuses
  is a failure of the query (see \<open>faults\<close> below). The two functions give a row as the
  columns of \<open>initializeDatabase\<close> hold it.
\<close>

type_synonym numeric_cast = "nat \<Rightarrow> nat \<Rightarrow> jsnum \<Rightarrow> jsnum"

definition market_columns :: "numeric_cast \<Rightarrow> market_row \<Rightarrow> market_row" where
  "market_columns cast row =
     row\<lparr> m_total_market_size := cast 36 18 (m_total_market_size row),
          m_total_borrows := cast 36 18 (m_total_borrows row),
          m_average_utilization := cast 10 4 (m_average_utilization row) \<rparr>"

definition token_columns :: "numeric_cast \<Rightarrow> token_row \<Rightarrow> token_row" where
  "token_columns cast row =
     row\<lparr> t_price_usd := cast 36 18 (t_price_usd row),
          t_total_supplied := cast 36 18 (t_total_supplied row),
          t_total_supplied_usd := cast 36 18 (t_total_supplied_usd row),
          t_total_borrowed := cast 36 18 (t_total_borrowed row),
          t_total_borrowed_usd := cast 36 18 (t_total_borrowed_usd row),
          t_utilization_rate := cast 10 4 (t_utilization_rate row),
          t_supply_apy := cast 10 4 (t_supply_apy row),
          t_borrow_apy := cast 10 4 (t_borrow_apy row),
          t_reserve_factor := cast 10 4 (t_reserve_factor row),
          t_liquidation_threshold := cast 10 4 (t_liquidation_threshold row),
          t_supply_cap := map_option (cast 36 18) (t_supply_cap row),
          t_borrow_cap := map_option (cast 36 18) (t_borrow_cap row) \<rparr>"

text \<open>
  \<open>INSERT ... ON CONFLICT (block_number) DO UPDATE SET ...\<close>: a row with the same
  block number takes the columns of the \<open>SET\<close> list from the new row, and keeps the
  others (\<open>network\<close> in the market table, \<open>token_name\<close> in a token table); without
  such a row the new row is inserted.
\<close>

definition do_update_market :: "market_row \<Rightarrow> market_row \<Rightarrow> market_row" where
  "do_update_market new r =
     r\<lparr> m_timestamp := m_timestamp new,
        m_total_market_size := m_total_market_size new,
        m_total_borrows := m_total_borrows new,
        m_average_utilization := m_average_utilization new,
        m_token_count := m_token_count new \<rparr>"

definition do_update_token :: "token_row \<Rightarrow> token_row \<Rightarrow> token_row" where
  "do_update_token new r =
     r\<lparr> t_timestamp := t_timestamp new,
        t_price_usd := t_price_usd new,
        t_total_supplied := t_total_supplied new,
        t_total_supplied_usd := t_total_supplied_usd new,
        t_total_borrowed := t_total_borrowed new,
        t_total_borrowed_usd := t_total_borrowed_usd new,
        t_utilization_rate := t_utilization_rate new,
        t_supply_apy := t_supply_apy new,
        t_borrow_apy := t_borrow_apy new,
        t_reserve_factor := t_reserve_factor new,
        t_liquidation_threshold := t_liquidation_threshold new,
        t_borrow_enabled := t_borrow_enabled new,
        t_supply_cap := t_supply_cap new,
        t_borrow_cap := t_borrow_cap new \<rparr>"

fun upsert_market :: "market_row \<Rightarrow> market_row list \<Rightarrow> market_row list" where
  "upsert_market new [] = [new]"
| "upsert_market new (r # rs) =
     (if m_block_number r = m_block_number new then do_update_market new r # rs
      else r # upsert_market new rs)"

fun upsert_token :: "token_row \<Rightarrow> token_row list \<Rightarrow> token_row list" where
  "upsert_token new [] = [new]"
| "upsert_token new (r # rs) =
     (if t_block_number r = t_block_number new then do_update_token new r # rs
      else r # upsert_token new rs)"

text \<open>Rewriting the rows of one named table, where it stands in the catalogue.\<close>

fun modify_table ::
  "string \<Rightarrow> (token_row list \<Rightarrow> token_row list) \<Rightarrow> (string \<times> token_row list) list
     \<Rightarrow> (string \<times> token_row list) list" where
  "modify_table n f [] = []"
| "modify_table n f ((k, rows) # ts) =
     (if k = n then (k, f rows) # ts else (k, rows) # modify_table n f ts)"

datatype statement =
  BEGIN
  | COMMIT
  | ROLLBACK
  | CreateMarketTable
  | CreateTokenTable string
  | UpsertMarket market_row
  | UpsertToken string token_row

text \<open>
  The effect of a data statement on the tables it sees. \<open>CREATE TABLE IF NOT EXISTS\<close>
  leaves an existing table alone; an \<open>INSERT\<close> into a table that does not exist fails,
  and one into a table that exists converts the parameters to the types of the columns.
\<close>

fun apply_statement :: "numeric_cast \<Rightarrow> statement \<Rightarrow> database \<Rightarrow> error + database" where
  "apply_statement cast CreateMarketTable db =
     (case market_table db of
        None \<Rightarrow> Inr (db\<lparr> market_table := Some [] \<rparr>)
      | Some rows \<Rightarrow> Inr db)"
| "apply_statement cast (CreateTokenTable n) db =
     (case map_of (token_tables db) n of
        None \<Rightarrow> Inr (db\<lparr> token_tables := token_tables db @ [(n, [])] \<rparr>)
      | Some rows \<Rightarrow> Inr db)"
| "apply_statement cast (UpsertMarket new) db =
     (case market_table db of
        None \<Rightarrow> Inl (UndefinedTable ''aave_market_metrics'')
      | Some rows \<Rightarrow>
          Inr (db\<lparr> market_table := Some (upsert_market (market_columns cast new) rows) \<rparr>))"
| "apply_statement cast (UpsertToken n new) db =
     (case map_of (token_tables db) n of
        None \<Rightarrow> Inl (UndefinedTable n)
      | Some rows \<Rightarrow>
          Inr (db\<lparr> token_tables :=
                  modify_table n (upsert_token (token_columns cast new)) (token_tables db) \<rparr>))"
| "apply_statement cast other db = Inr db"

text \<open>
  A client of the pool: the committed tables, the state of its transaction and the
  number of queries issued so far. Inside a transaction the statements work on a copy,
  which \<open>COMMIT\<close> makes the committed tables and \<open>ROLLBACK\<close> drops; a statement that
  fails inside a transaction aborts it, after which the server refuses data statements
  and turns \<open>COMMIT\<close> into a rollback. Outside a transaction every statement commits by
  itself.

  A query can also fail for a reason outside of this model (the connection, a value that
  a column refuses, such as an infinity or a number with too many digits): \<open>faults n\<close>
  says that the \<open>n\<close>-th query of the client does, and such a query has no effect on the
  tables.
\<close>

datatype txn_state = Idle | InTransaction database | Aborted

record client =
  committed :: database
  txn :: txn_state
  issued :: nat

definition query ::
  "numeric_cast \<Rightarrow> (nat \<Rightarrow> bool) \<Rightarrow> statement \<Rightarrow> client \<Rightarrow> error option \<times> client" where
  "query cast faults stmt c =
     (let n = issued c; c1 = c\<lparr> issued := n + 1 \<rparr> in
      if faults n
      then (Some (QueryFailed n), (case txn c of Idle \<Rightarrow> c1 | _ \<Rightarrow> c1\<lparr> txn := Aborted \<rparr>))
      else (case stmt of
              BEGIN \<Rightarrow>
                (case txn c of
                   Idle \<Rightarrow> (None, c1\<lparr> txn := InTransaction (committed c) \<rparr>)
                 | _ \<Rightarrow> (None, c1))
            | COMMIT \<Rightarrow>
                (case txn c of
                   Idle \<Rightarrow> (None, c1)
                 | InTransaction work \<Rightarrow> (None, c1\<lparr> committed := work, txn := Idle \<rparr>)
                 | Aborted \<Rightarrow> (None, c1\<lparr> txn := Idle \<rparr>))
            | ROLLBACK \<Rightarrow> (None, c1\<lparr> txn := Idle \<rparr>)
            | _ \<Rightarrow>
                (case txn c of
                   Idle \<Rightarrow>
                     (case apply_statement cast stmt (committed c) of
                        Inl e \<Rightarrow> (Some e, c1)
                      | Inr db \<Rightarrow> (None, c1\<lparr> committed := db \<rparr>))
                 | InTransaction work \<Rightarrow>
                     (case apply_statement cast stmt work of
                        Inl e \<Rightarrow> (Some e, c1\<lparr> txn := Aborted \<rparr>)
                      | Inr work' \<Rightarrow> (None, c1\<lparr> txn := InTransaction work' \<rparr>))
                 | Aborted \<Rightarrow> (Some InFailedTransaction, c1))))"

text \<open>
  \<^verbatim>\<open>`aave_token_${symbol.toLowerCase().replace(/[^a-z0-9]/g, '_')}`\<close>
  on symbols written in ASCII.
\<close>

definition toLowerCase :: "char \<Rightarrow> char" where
  "toLowerCase c =
     (case map_of (zip ''ABCDEFGHIJKLMNOPQRSTUVWXYZ'' ''abcdefghijklmnopqrstuvwxyz'') c of
        None \<Rightarrow> c
      | Some l \<Rightarrow> l)"

definition replaceNonAlnum :: "char \<Rightarrow> char" where
  "replaceNonAlnum c =
     (if c \<in> set ''abcdefghijklmnopqrstuvwxyz0123456789'' then c else CHR ''_'')"

definition tableName :: "string \<Rightarrow> string" where
  "tableName symb = ''aave_token_'' @ map (replaceNonAlnum \<circ> toLowerCase) symb"

text \<open>The parameter arrays of the two \<open>INSERT\<close> statements of \<open>storeMetrics\<close>.\<close>

definition market_params :: "metrics_data \<Rightarrow> market_row" where
  "market_params metricsData =
     \<lparr> m_block_number = blockNumber metricsData,
       m_timestamp = timestamp metricsData,
       m_network = network metricsData,
       m_total_market_size = totalMarketSize metricsData,
       m_total_borrows = totalBorrows metricsData,
       m_average_utilization = averageUtilization metricsData,
       m_token_count = tokenCount metricsData \<rparr>"

definition token_params :: "metrics_data \<Rightarrow> token_metric \<Rightarrow> token_row" where
  "token_params metricsData tok =
     \<lparr> t_block_number = blockNumber metricsData,
       t_timestamp = timestamp metricsData,
       t_token_name = token tok,
       t_price_usd = priceInUSD tok,
       t_total_supplied = totalSupplied tok,
       t_total_supplied_usd = totalSuppliedUSD tok,
       t_total_borrowed = totalBorrowed tok,
       t_total_borrowed_usd = totalBorrowedUSD tok,
       t_utilization_rate = utilizationRate tok,
       t_supply_apy = supplyAPY tok,
       t_borrow_apy = variableBorrowAPY tok,
       t_reserve_factor = reserveFactor tok,
       t_liquidation_threshold = liquidationThreshold tok,
       t_borrow_enabled = borrowEnabled tok,
       t_supply_cap = (if js_seq (supplyCap tok) Infinity then None else Some (supplyCap tok)),
       t_borrow_cap = (if js_seq (borrowCap tok) Infinity then None else Some (borrowCap tok)) \<rparr>"

text \<open>The loop over \<open>metricsData.tokenMetrics\<close>: the first failing query ends it.\<close>

fun store_tokens ::
  "numeric_cast \<Rightarrow> (nat \<Rightarrow> bool) \<Rightarrow> metrics_data \<Rightarrow> token_metric list \<Rightarrow> client
     \<Rightarrow> error option \<times> client" where
  "store_tokens cast faults metricsData [] c = (None, c)"
| "store_tokens cast faults metricsData (tok # toks) c =
     (case query cast faults (UpsertToken (tableName (symbol tok)) (token_params metricsData tok)) c of
        (Some e, c') \<Rightarrow> (Some e, c')
      | (None, c') \<Rightarrow> store_tokens cast faults metricsData toks c')"

text \<open>The \<open>try\<close> block of \<open>storeMetrics\<close>, up to the query that throws.\<close>

definition storeMetrics_try ::
  "numeric_cast \<Rightarrow> (nat \<Rightarrow> bool) \<Rightarrow> metrics_data \<Rightarrow> client \<Rightarrow> error option \<times> client" where
  "storeMetrics_try cast faults metricsData c =
     (case query cast faults BEGIN c of
        (Some e, c1) \<Rightarrow> (Some e, c1)
      | (None, c1) \<Rightarrow>
          (case query cast faults (UpsertMarket (market_params metricsData)) c1 of
             (Some e, c2) \<Rightarrow> (Some e, c2)
           | (None, c2) \<Rightarrow>
               (case store_tokens cast faults metricsData (tokenMetrics metricsData) c2 of
                  (Some e, c3) \<Rightarrow> (Some e, c3)
                | (None, c3) \<Rightarrow> query cast faults COMMIT c3)))"

text \<open>
  \<open>storeMetrics\<close> on a client taken from the pool: the \<open>catch\<close> block sends
  \<open>ROLLBACK\<close> and throws the error again (the error of the \<open>ROLLBACK\<close> itself, should
  that query fail). The result is what the caller sees and the committed tables. The
  first two arguments stand for the server: its conversion to \<open>NUMERIC\<close> and the queries
  that fail.
\<close>

definition storeMetrics ::
  "numeric_cast \<Rightarrow> (nat \<Rightarrow> bool) \<Rightarrow> metrics_data \<Rightarrow> database \<Rightarrow> (error + unit) \<times> database" where
  "storeMetrics cast faults metricsData db =
     (let client = \<lparr> committed = db, txn = Idle, issued = 0 \<rparr> in
      case storeMetrics_try cast faults metricsData client of
        (None, c) \<Rightarrow> (Inr (), committed c)
      | (Some e, c) \<Rightarrow>
          (case query cast faults ROLLBACK c of
             (Some e', c') \<Rightarrow> (Inl e', committed c')
           | (None, c') \<Rightarrow> (Inl e, committed c')))"

text \<open>
  \<open>initializeDatabase\<close>. \<open>latest\<close> holds the symbols of the latest metrics file, and
  is \<open>None\<close> when the file does not exist. No transaction is opened, and an error is
  thrown again as it is.
\<close>

definition defaultTokenSymbols :: "string list" where
  "defaultTokenSymbols =
     [''WETH'', ''USDC'', ''USDbC'', ''wstETH'', ''cbETH'', ''cbBTC'', ''GHO'', ''weETH'',
      ''ezETH'', ''wrsETH'', ''LBTC'', ''EURC'']"

fun create_token_tables ::
  "numeric_cast \<Rightarrow> (nat \<Rightarrow> bool) \<Rightarrow> string list \<Rightarrow> client \<Rightarrow> error option \<times> client" where
  "create_token_tables cast faults [] c = (None, c)"
| "create_token_tables cast faults (symb # symbs) c =
     (case query cast faults (CreateTokenTable (tableName symb)) c of
        (Some e, c') \<Rightarrow> (Some e, c')
      | (None, c') \<Rightarrow> create_token_tables cast faults symbs c')"

definition initializeDatabase ::
  "numeric_cast \<Rightarrow> (nat \<Rightarrow> bool) \<Rightarrow> string list option \<Rightarrow> database \<Rightarrow> (error + unit) \<times> database" where
  "initializeDatabase cast faults latest db =
     (let client = \<lparr> committed = db, txn = Idle, issued = 0 \<rparr> in
      case query cast faults CreateMarketTable client of
        (Some e, c) \<Rightarrow> (Inl e, committed c)
      | (None, c) \<Rightarrow>
          (let tokenSymbols = (case latest of Some symbs \<Rightarrow> symbs | None \<Rightarrow> defaultTokenSymbols) in
           case create_token_tables cast faults tokenSymbols c of
             (Some e, c') \<Rightarrow> (Inl e, committed c')
           | (None, c') \<Rightarrow> (Inr (), committed c')))"

section \<open>The poller\<close>

text \<open>
  \<open>startContinuousIndexing\<close> hands \<open>setInterval\<close> an \<open>async\<close> callback. The timer
  does not wait for a callback to finish, so a callback runs in pieces, between its
  \<open>await\<close>s, and the pieces of several callbacks can alternate. The state is the
  variable \<open>lastProcessedBlock\<close> and, for each callback suspended in
  \<open>await indexBaseAaveMetrics(blockNumber, true)\<close>, its own \<open>blockNumber\<close>. An event
  is one piece of the callback numbered \<open>i\<close>:
  \<^item> \<open>HeadObserved i r\<close>: \<open>provider.getBlockNumber()\<close> has returned \<open>r\<close>; the callback
    compares it with \<open>lastProcessedBlock\<close> and returns, or goes on to index the block;
  \<^item> \<open>IndexingDone i r\<close>: \<open>indexBaseAaveMetrics(blockNumber, true)\<close>, which ends with
    \<open>storeMetrics\<close>, has returned or thrown; on return the callback assigns
    \<open>lastProcessedBlock = blockNumber\<close>, on an error it logs it.
  \<open>polling\<close> tells whether the interval is still set; no event of a callback clears it.
\<close>

record poller =
  lastProcessedBlock :: int
  suspended :: "(nat \<times> int) list"
  polling :: bool

datatype poll_event =
  HeadObserved nat "error + int"
  | IndexingDone nat "error + unit"

fun tick_step :: "poll_event \<Rightarrow> poller \<Rightarrow> poller" where
  "tick_step (HeadObserved i (Inl e)) p = p"
| "tick_step (HeadObserved i (Inr blockNumber')) p =
     (if blockNumber' \<le> lastProcessedBlock p then p
      else p\<lparr> suspended := (i, blockNumber') # suspended p \<rparr>)"
| "tick_step (IndexingDone i r) p =
     (case map_of (suspended p) i of
        None \<Rightarrow> p
      | Some blockNumber' \<Rightarrow>
          (let p' = p\<lparr> suspended := filter (\<lambda>(j, b). j \<noteq> i) (suspended p) \<rparr> in
           case r of
             Inl e \<Rightarrow> p'
           | Inr u \<Rightarrow> p'\<lparr> lastProcessedBlock := blockNumber' \<rparr>))"

definition startContinuousIndexing :: "int \<Rightarrow> poller" where
  "startContinuousIndexing currentBlock =
     \<lparr> lastProcessedBlock = currentBlock, suspended = [], polling = True \<rparr>"

definition run_events :: "poll_event list \<Rightarrow> poller \<Rightarrow> poller" where
  "run_events events p = foldl (\<lambda>q e. tick_step e q) p events"

section \<open>Percent change of the comparison report\<close>

text \<open>
  \<^verbatim>\<open>
  function calculatePercentChange(start, end) {
    if (start === 0) return end === 0 ? 0 : 100;
    return ((end - start) / Math.abs(start)) * 100;
  }
  \<close>
\<close>

definition calculatePercentChange :: "jsnum \<Rightarrow> jsnum \<Rightarrow> jsnum" where
  "calculatePercentChange start end' =
     (if js_seq start (Num 0) then (if js_seq end' (Num 0) then Num 0 else Num 100)
      else js_mul (js_div (js_sub end' start) (js_abs start)) (Num 100))"

section \<open>The transaction on the tables\<close>

text \<open>
  What the statements of \<open>storeMetrics\<close> do to the tables when none of them fails:
  the market row is upserted, and then, token by token, the row of the token in the
  table named after its symbol. \<open>tables_exist\<close> says that every table the statements
  name is there, and \<open>primary_key_ok\<close> that no table holds two rows with the same
  block number, which the \<open>PRIMARY KEY\<close> of \<open>initializeDatabase\<close> demands.
\<close>

definition upsert_step ::
  "numeric_cast \<Rightarrow> metrics_data \<Rightarrow> token_metric \<Rightarrow> (string \<times> token_row list) list
     \<Rightarrow> (string \<times> token_row list) list" where
  "upsert_step cast md tok =
     modify_table (tableName (symbol tok)) (upsert_token (token_columns cast (token_params md tok)))"

definition written :: "numeric_cast \<Rightarrow> metrics_data \<Rightarrow> database \<Rightarrow> database" where
  "written cast md db =
     db\<lparr> market_table :=
           map_option (upsert_market (market_columns cast (market_params md))) (market_table db),
         token_tables := fold (upsert_step cast md) (tokenMetrics md) (token_tables db) \<rparr>"

text \<open>
  The same loop seen table by table: \<open>table_rows\<close> gives the rows that the loop
  upserts into the table of a given name, in the order of the tokens, and \<open>tables_map\<close>
  rewrites the rows of every table of the catalogue, each name where it first stands.
\<close>

definition table_rows :: "numeric_cast \<Rightarrow> metrics_data \<Rightarrow> string \<Rightarrow> token_row list" where
  "table_rows cast md n =
     map (\<lambda>tok. token_columns cast (token_params md tok))
       (filter (\<lambda>tok. tableName (symbol tok) = n) (tokenMetrics md))"

fun tables_map ::
  "(string \<Rightarrow> token_row list \<Rightarrow> token_row list) \<Rightarrow> (string \<times> token_row list) list
     \<Rightarrow> (string \<times> token_row list) list" where
  "tables_map g [] = []"
| "tables_map g ((k, rows) # ts) =
     (k, g k rows) # tables_map (\<lambda>j. if j = k then (\<lambda>rows. rows) else g j) ts"

definition tables_exist :: "metrics_data \<Rightarrow> database \<Rightarrow> bool" where
  "tables_exist md db =
     (market_table db \<noteq> None
      \<and> list_all (\<lambda>tok. map_of (token_tables db) (tableName (symbol tok)) \<noteq> None) (tokenMetrics md))"

definition primary_key_ok :: "database \<Rightarrow> bool" where
  "primary_key_ok db =
     ((case market_table db of None \<Rightarrow> True | Some rows \<Rightarrow> distinct (map m_block_number rows))
      \<and> list_all (\<lambda>(n, rows). distinct (map t_block_number rows)) (token_tables db))"

section \<open>Example inputs\<close>

text \<open>
  One reserve as the library reports it for a market whose reference currency is the
  dollar with eight decimals: 1000 tokens supplied, 400 borrowed, at one dollar each.
  The fractions are binary fractions, so that every field is a double.
\<close>

definition ex_raw :: "(unit, unit) raw_market_data" where
  "ex_raw = \<lparr> reservesData = (), marketReferenceCurrencyDecimals = 8,
              marketReferenceCurrencyPriceInUsd = Num (10 ^ 8), reserveIncentives = () \<rparr>"

definition ex_reserve :: formatted_reserve where
  "ex_reserve =
     \<lparr> r_name = ''USD Coin'', r_symbol = ''USDC'',
       r_priceInMarketReferenceCurrency = Num (10 ^ 8),
       r_totalLiquidity = Num 1000, r_totalDebt = Num 400,
       r_reserves = NaN, r_reserveFactor = Num (1 / 8),
       r_formattedReserveLiquidationThreshold = Num (3 / 4),
       r_borrowingEnabled = True,
       r_supplyCap = Num 2000000, r_borrowCap = Num 1000000,
       r_supplyAPY = Num (1 / 32), r_variableBorrowAPY = Num (1 / 16),
       r_stableBorrowAPY = Num 0,
       r_totalLiquidityUSD = Num 1000, r_totalDebtUSD = Num 400 \<rparr>"

text \<open>
  The example next to three variants: with nothing supplied, with 1 of 3 tokens borrowed,
  and with \<open>2^1020\<close> tokens borrowed of 1 supplied.
\<close>

definition ex_reserves_rates :: "formatted_reserve list" where
  "ex_reserves_rates =
     [ex_reserve,
      ex_reserve\<lparr> r_totalLiquidity := Num 0 \<rparr>,
      ex_reserve\<lparr> r_totalLiquidity := Num 3, r_totalDebt := Num 1 \<rparr>,
      ex_reserve\<lparr> r_totalLiquidity := Num 1, r_totalDebt := Num (2 ^ 1020) \<rparr>]"

text \<open>A formatter that returns the given reserves whatever it is handed.\<close>

definition ex_formatter :: "formatted_reserve list \<Rightarrow> (unit, unit) formatter" where
  "ex_formatter rs = (\<lambda>currentTimestamp raw. rs)"

text \<open>
  Snapshots of block 100 built by the live path: of the example reserve and a second
  one, of the example reserve under another name, of two reserves whose symbols differ
  in case only, and of a reserve whose symbol no table is named after.
\<close>

definition ex_reserve_weth :: formatted_reserve where
  "ex_reserve_weth = ex_reserve\<lparr> r_name := ''Wrapped Ether'', r_symbol := ''WETH'' \<rparr>"

definition ex_md :: metrics_data where
  "ex_md =
     indexBaseAaveMetrics (ex_formatter [ex_reserve, ex_reserve_weth]) 1700000000 (Some 100) 100 ex_raw"

definition ex_md_renamed :: metrics_data where
  "ex_md_renamed =
     indexBaseAaveMetrics (ex_formatter [ex_reserve\<lparr> r_name := ''USDC'' \<rparr>])
       1700000000 (Some 100) 100 ex_raw"

definition ex_md_twins :: metrics_data where
  "ex_md_twins =
     indexBaseAaveMetrics
       (ex_formatter [ex_reserve,
          ex_reserve\<lparr> r_name := ''Other Coin'', r_symbol := ''usdc'', r_totalLiquidity := Num 5 \<rparr>])
       1700000000 (Some 100) 100 ex_raw"

definition ex_md_new :: metrics_data where
  "ex_md_new =
     indexBaseAaveMetrics
       (ex_formatter [ex_reserve, ex_reserve\<lparr> r_name := ''New Asset'', r_symbol := ''NEW'' \<rparr>])
       1700000000 (Some 100) 100 ex_raw"

definition ex_md_third :: metrics_data where
  "ex_md_third =
     indexBaseAaveMetrics
       (ex_formatter [ex_reserve\<lparr> r_totalLiquidity := Num 3, r_totalDebt := Num 1 \<rparr>])
       1700000000 (Some 100) 100 ex_raw"

text \<open>
  A conversion to \<open>NUMERIC(p,s)\<close> for the examples: the value of the number rounded to
  \<open>s\<close> decimal places, halves away from zero as the server rounds. The numbers of the
  examples have few decimal digits, or many more than \<open>s\<close>, so that the decimal string
  the driver sends for them and their value round to the same decimal.
\<close>

definition round_half_away :: "real \<Rightarrow> int" where
  "round_half_away q = (if 0 \<le> q then \<lfloor>q + 1 / 2\<rfloor> else - \<lfloor>- q + 1 / 2\<rfloor>)"

definition to_numeric :: numeric_cast where
  "to_numeric p s x =
     (case x of Num a \<Rightarrow> Num (of_int (round_half_away (a * 10 ^ s)) / 10 ^ s) | _ \<Rightarrow> x)"

text \<open>
  Stores: without any table, with empty tables for \<open>USDC\<close> and \<open>WETH\<close>, with the
  empty tables of the default token list, and with rows left by earlier calls: a market
  row of block 99, and rows of block 100 in the market table and in the table of
  \<open>USDC\<close>.
\<close>

definition empty_db :: database where
  "empty_db = \<lparr> market_table = None, token_tables = [] \<rparr>"

definition ex_db :: database where
  "ex_db = \<lparr> market_table = Some [],
             token_tables = [(''aave_token_usdc'', []), (''aave_token_weth'', [])] \<rparr>"

definition ex_db_stale :: database where
  "ex_db_stale =
     \<lparr> market_table = Some
         [\<lparr> m_block_number = 99, m_timestamp = 1699999998, m_network = ''Base'',
            m_total_market_size = Num 1900, m_total_borrows = Num 700,
            m_average_utilization = Num 35, m_token_count = 2 \<rparr>,
          \<lparr> m_block_number = 100, m_timestamp = 1, m_network = ''Stale'',
            m_total_market_size = Num 0, m_total_borrows = Num 0,
            m_average_utilization = Num 0, m_token_count = 0 \<rparr>],
       token_tables =
         [(''aave_token_usdc'',
           [\<lparr> t_block_number = 100, t_timestamp = 1, t_token_name = ''Stale Coin'',
              t_price_usd = Num 0, t_total_supplied = Num 0, t_total_supplied_usd = Num 0,
              t_total_borrowed = Num 0, t_total_borrowed_usd = Num 0, t_utilization_rate = Num 0,
              t_supply_apy = Num 0, t_borrow_apy = Num 0, t_reserve_factor = Num 0,
              t_liquidation_threshold = Num 0, t_borrow_enabled = False,
              t_supply_cap = None, t_borrow_cap = None \<rparr>]),
          (''aave_token_weth'', [])] \<rparr>"

definition default_db :: database where
  "default_db =
     \<lparr> market_table = Some [],
       token_tables =
         [(''aave_token_weth'', []), (''aave_token_usdc'', []), (''aave_token_usdbc'', []),
          (''aave_token_wsteth'', []), (''aave_token_cbeth'', []), (''aave_token_cbbtc'', []),
          (''aave_token_gho'', []), (''aave_token_weeth'', []), (''aave_token_ezeth'', []),
          (''aave_token_wrseth'', []), (''aave_token_lbtc'', []), (''aave_token_eurc'', [])] \<rparr>"

section \<open>Properties\<close>

subsection \<open>Rounding to the nearest double\<close>

lemma bexp_floor_log: "x \<noteq> 0 \<Longrightarrow> bexp x = \<lfloor>log 2 \<bar>x\<bar>\<rfloor>"
proof (induction x rule: bexp.induct)
  case (1 x)
  from 1(3) have half: "log 2 \<bar>x / 2\<bar> = log 2 \<bar>x\<bar> - 1"
    and twice: "log 2 \<bar>x * 2\<bar> = log 2 \<bar>x\<bar> + 1"
    by (simp_all add: log_divide abs_mult log_mult)
  show ?case
  proof (cases "2 \<le> \<bar>x\<bar>")
    case True
    with 1 have "bexp (x / 2) = \<lfloor>log 2 \<bar>x / 2\<bar>\<rfloor>" by simp
    also have "\<dots> = \<lfloor>log 2 \<bar>x\<bar>\<rfloor> - 1"
      by (simp only: half) linarith
    finally show ?thesis using True 1(3) by (subst bexp.simps) simp
  next
    case big: False
    show ?thesis
    proof (cases "\<bar>x\<bar> < 1")
      case True
      with 1 big have "bexp (x * 2) = \<lfloor>log 2 \<bar>x * 2\<bar>\<rfloor>" by simp
      also have "\<dots> = \<lfloor>log 2 \<bar>x\<bar>\<rfloor> + 1"
        by (simp only: twice) linarith
      finally show ?thesis using True big 1(3) by (subst bexp.simps) simp
    next
      case False
      with big have "1 \<le> \<bar>x\<bar>" "\<bar>x\<bar> < 2" by simp_all
      then have "0 \<le> log 2 \<bar>x\<bar>" "log 2 \<bar>x\<bar> < 1"
        by (simp_all add: log_less_iff)
      then have "\<lfloor>log 2 \<bar>x\<bar>\<rfloor> = 0" by linarith
      with False big 1(3) show ?thesis by (subst bexp.simps) simp
    qed
  qed
qed

lemma floor_log2_eq:
  assumes "x \<noteq> 0" and "2 powi k \<le> \<bar>x\<bar>" and "\<bar>x\<bar> < 2 powi (k + 1)"
  shows "\<lfloor>log 2 \<bar>x\<bar>\<rfloor> = k"
proof -
  have p: "(2::real) powr real_of_int j = 2 powi j" for j
    by (simp add: powr_real_of_int')
  from p [of k] p [of "k + 1"] assms show ?thesis
    by (subst floor_log_eq_powr_iff) simp_all
qed

lemma floor_log2_bounds:
  assumes "x \<noteq> 0"
  shows "2 powi \<lfloor>log 2 \<bar>x\<bar>\<rfloor> \<le> \<bar>x\<bar>" and "\<bar>x\<bar> < 2 powi (\<lfloor>log 2 \<bar>x\<bar>\<rfloor> + 1)"
proof -
  have p: "(2::real) powr real_of_int k = 2 powi k" for k
    by (simp add: powr_real_of_int')
  from assms have "0 < \<bar>x\<bar>" by simp
  from floor_log_eq_powr_iff [OF this, of 2 "\<lfloor>log 2 \<bar>x\<bar>\<rfloor>"]
  have "2 powr real_of_int \<lfloor>log 2 \<bar>x\<bar>\<rfloor> \<le> \<bar>x\<bar> \<and> \<bar>x\<bar> < 2 powr (real_of_int \<lfloor>log 2 \<bar>x\<bar>\<rfloor> + 1)"
    by simp
  then show "2 powi \<lfloor>log 2 \<bar>x\<bar>\<rfloor> \<le> \<bar>x\<bar>" and "\<bar>x\<bar> < 2 powi (\<lfloor>log 2 \<bar>x\<bar>\<rfloor> + 1)"
    using p [of "\<lfloor>log 2 \<bar>x\<bar>\<rfloor>"] p [of "\<lfloor>log 2 \<bar>x\<bar>\<rfloor> + 1"] by simp_all
qed

lemma double_eq_at:
  "x \<noteq> 0 \<Longrightarrow> 2 powi k \<le> \<bar>x\<bar> \<Longrightarrow> \<bar>x\<bar> < 2 powi (k + 1) \<Longrightarrow> double x = double_at k x"
  by (simp add: double_def bexp_floor_log floor_log2_eq)

lemma round_even_of_int: "round_even (of_int n) = n"
  by (simp add: round_even_def)

lemma round_even_error: "\<bar>of_int (round_even q) - q\<bar> \<le> 1 / 2"
proof -
  have "of_int \<lfloor>q\<rfloor> \<le> q" "q < of_int \<lfloor>q\<rfloor> + 1" by linarith+
  then show ?thesis by (auto simp add: round_even_def Let_def)
qed

lemma pow2_less_iff: "((2::real) powi a < 2 powi b) = (a < b)"
proof -
  have "(2::real) powi a = 2 powr real_of_int a" "(2::real) powi b = 2 powr real_of_int b"
    by (simp_all add: powr_real_of_int')
  then show ?thesis by simp
qed

lemma double_representable:
  fixes m e :: int
  assumes x: "x = of_int m * 2 powi e" and m: "\<bar>m\<bar> < 2 ^ 53" and lo: "- 1074 \<le> e" and hi: "e \<le> 971"
  shows "double x = Num x"
proof (cases "x = 0")
  case True
  then show ?thesis by (simp add: double_def)
next
  case False
  define k where "k = bexp x"
  define E where "E = max (k - 52) (- 1074)"
  from floor_log2_bounds [OF False] have kx: "2 powi k \<le> \<bar>x\<bar>"
    by (simp add: k_def bexp_floor_log [OF False])
  have "\<bar>x\<bar> = of_int \<bar>m\<bar> * 2 powi e"
    by (simp add: x abs_mult)
  also have "\<dots> < 2 ^ 53 * 2 powi e"
  proof -
    from m have "(of_int \<bar>m\<bar> :: real) < of_int (2 ^ 53)" by (simp only: of_int_less_iff)
    then show ?thesis by simp
  qed
  also have "\<dots> = 2 powi (53 + e)"
    by (simp add: power_int_add)
  finally have up: "\<bar>x\<bar> < 2 powi (53 + e)" .
  with kx have "(2::real) powi k < 2 powi (53 + e)" by simp
  then have "k < 53 + e" by (simp only: pow2_less_iff)
  with lo have Ee: "E \<le> e" by (simp add: E_def)
  define j where "j = nat (e - E)"
  from Ee have e: "e = E + int j" by (simp add: j_def)
  have "x / 2 powi E = of_int m * 2 powi (int j)"
    by (simp add: x e power_int_add)
  also have "\<dots> = of_int (m * 2 ^ j)"
    by simp
  finally have "round_even (x / 2 powi E) = m * 2 ^ j"
    by (simp only: round_even_of_int)
  then have r: "of_int (round_even (x / 2 powi E)) * 2 powi E = x"
    by (simp add: x e power_int_add)
  from hi have "(2::real) powi (53 + e) \<le> 2 powi 1024"
    by (intro power_int_increasing) simp_all
  with up have "\<not> 2 powi 1024 \<le> \<bar>x\<bar>" by simp
  with r False show ?thesis
    by (simp add: double_def double_at_def Let_def k_def [symmetric] E_def [symmetric])
qed

lemma double_of_int: "\<bar>n\<bar> < 2 ^ 53 \<Longrightarrow> double (of_int n) = Num (of_int n)"
  by (rule double_representable [where m = n and e = 0]) simp_all

lemma double_error:
  assumes lo: "2 powi (- 1022) \<le> \<bar>x\<bar>" and hi: "\<bar>x\<bar> < 2 powi 1023"
  shows "\<exists>r. double x = Num r \<and> \<bar>r - x\<bar> \<le> \<bar>x\<bar> / 2 ^ 53"
proof -
  from lo have nz: "x \<noteq> 0" by auto
  define k where "k = bexp x"
  from floor_log2_bounds [OF nz] have kx: "2 powi k \<le> \<bar>x\<bar>" and xk: "\<bar>x\<bar> < 2 powi (k + 1)"
    by (simp_all add: k_def bexp_floor_log [OF nz])
  from lo xk have "(2::real) powi (- 1022) < 2 powi (k + 1)" by simp
  then have "- 1022 < k + 1" by (simp only: pow2_less_iff)
  then have klo: "- 1022 \<le> k" by simp
  from kx hi have "(2::real) powi k < 2 powi 1023" by simp
  then have "k < 1023" by (simp only: pow2_less_iff)
  then have khi: "k \<le> 1022" by simp
  define E where "E = k - 52"
  from klo have E: "max (k - 52) (- 1074) = E" by (simp add: E_def)
  define r :: real where "r = of_int (round_even (x / 2 powi E)) * 2 powi E"
  have pos: "(0::real) < 2 powi E" by simp
  have "\<bar>r - x\<bar> = \<bar>of_int (round_even (x / 2 powi E)) - x / 2 powi E\<bar> * 2 powi E"
  proof -
    have "r - x = (of_int (round_even (x / 2 powi E)) - x / 2 powi E) * 2 powi E"
      by (simp add: r_def algebra_simps)
    then show ?thesis by (simp add: abs_mult)
  qed
  also have "\<dots> \<le> 1 / 2 * 2 powi E"
    using round_even_error [of "x / 2 powi E"] pos by (intro mult_right_mono) simp_all
  also have "\<dots> = 2 powi k / 2 ^ 53"
    by (simp add: E_def power_int_diff)
  finally have err: "\<bar>r - x\<bar> \<le> 2 powi k / 2 ^ 53" .
  also from kx have "\<dots> \<le> \<bar>x\<bar> / 2 ^ 53"
    by (simp add: divide_right_mono)
  finally have bound: "\<bar>r - x\<bar> \<le> \<bar>x\<bar> / 2 ^ 53" .
  have "\<bar>r\<bar> \<le> \<bar>x\<bar> + \<bar>r - x\<bar>" by simp
  also from err have "\<dots> \<le> \<bar>x\<bar> + 2 powi k / 2 ^ 53" by simp
  also from xk have "\<dots> < 2 powi (k + 1) + 2 powi k / 2 ^ 53" by simp
  also have "\<dots> \<le> 2 powi (k + 2)"
  proof -
    have "(2::real) powi k / 2 ^ 53 \<le> 2 powi k" by (simp add: field_simps)
    moreover have "(2::real) powi (k + 1) = 2 * 2 powi k" "(2::real) powi (k + 2) = 4 * 2 powi k"
      by (simp_all add: power_int_add)
    ultimately show ?thesis by simp
  qed
  also from khi have "\<dots> \<le> 2 powi 1024"
    by (intro power_int_increasing) simp_all
  finally have "\<not> 2 powi 1024 \<le> \<bar>r\<bar>" by simp
  with nz E have "double x = Num r"
    by (simp add: double_def double_at_def Let_def k_def [symmetric] r_def)
  with bound show ?thesis by blast
qed

lemma double_0: "double 0 = Num 0"
  by (simp add: double_def)

lemma double_numeral:
  "numeral w < (9007199254740992::int) \<Longrightarrow> double (numeral w) = Num (numeral w)"
  using double_of_int [of "numeral w"] by simp

lemma double_1: "double 1 = Num 1"
  using double_of_int [of 1] by simp

lemma double_neg_numeral:
  "numeral w < (9007199254740992::int) \<Longrightarrow> double (- numeral w) = Num (- numeral w)"
  using double_of_int [of "- numeral w"] by simp

lemma double_halves:
  assumes "numeral w < (9007199254740992::int)"
  shows "double (numeral w / 2) = Num (numeral w / 2)"
    and "double (numeral w / 4) = Num (numeral w / 4)"
    and "double (numeral w / 8) = Num (numeral w / 8)"
proof -
  from assms have m: "\<bar>numeral w :: int\<bar> < 2 ^ 53" by simp
  show "double (numeral w / 2) = Num (numeral w / 2)"
    by (rule double_representable [where m = "numeral w" and e = "- 1", OF _ m]) simp_all
  show "double (numeral w / 4) = Num (numeral w / 4)"
    by (rule double_representable [where m = "numeral w" and e = "- 2", OF _ m]) simp_all
  show "double (numeral w / 8) = Num (numeral w / 8)"
    by (rule double_representable [where m = "numeral w" and e = "- 3", OF _ m]) simp_all
qed

lemma double_unit_fractions:
  "double (1 / 2) = Num (1 / 2)" "double (1 / 4) = Num (1 / 4)" "double (1 / 8) = Num (1 / 8)"
proof -
  show "double (1 / 2) = Num (1 / 2)"
    by (rule double_representable [where m = 1 and e = "- 1"]) simp_all
  show "double (1 / 4) = Num (1 / 4)"
    by (rule double_representable [where m = 1 and e = "- 2"]) simp_all
  show "double (1 / 8) = Num (1 / 8)"
    by (rule double_representable [where m = 1 and e = "- 3"]) simp_all
qed

lemma double_1e16: "double 10000000000000000 = Num 10000000000000000"
  by (rule double_representable [where m = 152587890625 and e = 16]) simp_all

lemma double_two_fifths: "double (2 / 5) = Num (3602879701896397 / 9007199254740992)"
  by (subst double_eq_at [where k = "- 2"]) (simp_all add: double_at_def round_even_def Let_def)

lemma double_forty: "double (90071992547409925 / 2251799813685248) = Num 40"
  by (subst double_eq_at [where k = 5]) (simp_all add: double_at_def round_even_def Let_def)

lemma double_hundredth: "double (1 / 100) = Num (5764607523034235 / 576460752303423488)"
  by (subst double_eq_at [where k = "- 7"]) (simp_all add: double_at_def round_even_def Let_def)

lemma double_ten: "double (720575940379279375 / 72057594037927936) = Num 10"
  by (subst double_eq_at [where k = 3]) (simp_all add: double_at_def round_even_def Let_def)

lemma double_third: "double (1 / 3) = Num (6004799503160661 / 18014398509481984)"
  by (subst double_eq_at [where k = "- 2"]) (simp_all add: double_at_def round_even_def Let_def)

lemma double_third_percent:
  "double (150119987579016525 / 4503599627370496) = Num (2345624805922133 / 70368744177664)"
  by (subst double_eq_at [where k = 5]) (simp_all add: double_at_def round_even_def Let_def)

lemmas eval_double = double_0 double_1 double_numeral double_neg_numeral double_halves
  double_unit_fractions double_1e16
  double_two_fifths double_forty double_hundredth double_ten double_third double_third_percent

lemma double_finite: "double x = Num r \<Longrightarrow> \<bar>r\<bar> < 2 powi 1024"
  by (auto simp add: double_def double_at_def Let_def split: if_splits)

lemma percent_of_quotient_error:
  assumes lo: "2 powi (- 1022) \<le> \<bar>q\<bar>" and hi: "\<bar>q\<bar> < 2 powi 1016"
  shows "\<exists>u. js_mul (double q) (Num 100) = Num u \<and> \<bar>u - q * 100\<bar> \<le> \<bar>q * 100\<bar> / 2 ^ 51"
proof -
  have "(2::real) powi 1016 \<le> 2 powi 1023"
    by (intro power_int_increasing) simp_all
  with hi have "\<bar>q\<bar> < 2 powi 1023" by simp
  from double_error [OF lo this] obtain r where r: "double q = Num r"
    and rq: "\<bar>r - q\<bar> \<le> \<bar>q\<bar> / 2 ^ 53"
    by blast
  have small: "\<bar>q\<bar> / 2 ^ 53 \<le> \<bar>q\<bar> / 4"
    by (intro divide_left_mono) simp_all
  from rq small have r_lo: "\<bar>q\<bar> / 2 \<le> \<bar>r\<bar>" and r_hi: "\<bar>r\<bar> \<le> 5 / 4 * \<bar>q\<bar>"
    by linarith+
  from lo r_lo have lo': "2 powi (- 1022) \<le> \<bar>r * 100\<bar>"
    by (simp add: abs_mult)
  from r_hi have r100: "\<bar>r * 100\<bar> \<le> 125 * \<bar>q\<bar>"
    by (simp add: abs_mult)
  then have "\<bar>r * 100\<bar> \<le> 128 * \<bar>q\<bar>" by simp
  also from hi have "\<dots> < 128 * 2 powi 1016" by simp
  also from power_int_add [of "2::real" 7 1016] have "\<dots> = 2 powi 1023" by simp
  finally have hi': "\<bar>r * 100\<bar> < 2 powi 1023" .
  from double_error [OF lo' hi'] obtain u where u: "double (r * 100) = Num u"
    and ur: "\<bar>u - r * 100\<bar> \<le> \<bar>r * 100\<bar> / 2 ^ 53"
    by blast
  from r100 have "\<bar>r * 100\<bar> / 2 ^ 53 \<le> 125 * \<bar>q\<bar> / 2 ^ 53"
    by (rule divide_right_mono) simp
  with ur have e1: "\<bar>u - r * 100\<bar> \<le> 125 * \<bar>q\<bar> / 2 ^ 53"
    by (rule order_trans)
  have "\<bar>r * 100 - q * 100\<bar> = \<bar>(r - q) * 100\<bar>" by (simp add: algebra_simps)
  also have "\<dots> = 100 * \<bar>r - q\<bar>" by (simp only: abs_mult)
  finally have "\<bar>r * 100 - q * 100\<bar> = 100 * \<bar>r - q\<bar>" .
  with rq have e2: "\<bar>r * 100 - q * 100\<bar> \<le> 100 * \<bar>q\<bar> / 2 ^ 53" by simp
  from e1 e2 have "\<bar>u - q * 100\<bar> \<le> 225 * \<bar>q\<bar> / 2 ^ 53"
    by linarith
  also have "\<dots> \<le> \<bar>q * 100\<bar> / 2 ^ 51"
    by (simp add: abs_mult)
  finally have "\<bar>u - q * 100\<bar> \<le> \<bar>q * 100\<bar> / 2 ^ 51" .
  with r u show ?thesis by simp
qed

lemma percent_change_error:
  assumes a: "a \<noteq> 0" and d_lo: "2 powi (- 1022) \<le> \<bar>b - a\<bar>" and d_hi: "\<bar>b - a\<bar> < 2 powi 1023"
    and q_lo: "2 powi (- 1021) \<le> \<bar>(b - a) / a\<bar>" and q_hi: "\<bar>(b - a) / a\<bar> < 2 powi 1015"
  shows "\<exists>u. js_mul (js_div (double (b - a)) (Num \<bar>a\<bar>)) (Num 100) = Num u
           \<and> \<bar>u - (b - a) / \<bar>a\<bar> * 100\<bar> \<le> \<bar>(b - a) / a * 100\<bar> / 2 ^ 49"
proof -
  from double_error [OF d_lo d_hi] obtain d where d: "double (b - a) = Num d"
    and dd: "\<bar>d - (b - a)\<bar> \<le> \<bar>b - a\<bar> / 2 ^ 53"
    by blast
  define q where "q = d / \<bar>a\<bar>"
  define t where "t = (b - a) / \<bar>a\<bar>"
  from a have pos: "0 < \<bar>a\<bar>" by simp
  have t_abs: "\<bar>(b - a) / a\<bar> = \<bar>t\<bar>" by (simp add: t_def)
  have "q - t = (d - (b - a)) / \<bar>a\<bar>" by (simp add: q_def t_def diff_divide_distrib)
  then have "\<bar>q - t\<bar> = \<bar>d - (b - a)\<bar> / \<bar>a\<bar>" by simp
  also from dd have "\<dots> \<le> \<bar>b - a\<bar> / 2 ^ 53 / \<bar>a\<bar>" by (rule divide_right_mono) simp
  also have "\<dots> = \<bar>t\<bar> / 2 ^ 53" by (simp add: t_def)
  finally have qt: "\<bar>q - t\<bar> \<le> \<bar>t\<bar> / 2 ^ 53" .
  have small: "\<bar>t\<bar> / 2 ^ 53 \<le> \<bar>t\<bar> / 2"
    by (intro divide_left_mono) simp_all
  from qt small have q_lo': "\<bar>t\<bar> / 2 \<le> \<bar>q\<bar>" and q_hi': "\<bar>q\<bar> \<le> 2 * \<bar>t\<bar>"
    by linarith+
  from power_int_add [of "2::real" 1 "- 1022"] have "(2::real) powi (- 1021) = 2 * 2 powi (- 1022)"
    by simp
  with q_lo t_abs q_lo' have lo: "2 powi (- 1022) \<le> \<bar>q\<bar>" by linarith
  from power_int_add [of "2::real" 1 1015] have "(2::real) powi 1016 = 2 * 2 powi 1015"
    by simp
  with q_hi t_abs q_hi' have hi: "\<bar>q\<bar> < 2 powi 1016" by linarith
  from percent_of_quotient_error [OF lo hi] obtain u where u: "js_mul (double q) (Num 100) = Num u"
    and uq: "\<bar>u - q * 100\<bar> \<le> \<bar>q * 100\<bar> / 2 ^ 51"
    by blast
  have "\<bar>q * 100\<bar> = 100 * \<bar>q\<bar>" by (simp only: abs_mult)
  with q_hi' have "\<bar>q * 100\<bar> \<le> 200 * \<bar>t\<bar>" by simp
  then have "\<bar>q * 100\<bar> / 2 ^ 51 \<le> 200 * \<bar>t\<bar> / 2 ^ 51"
    by (rule divide_right_mono) simp
  with uq have e1: "\<bar>u - q * 100\<bar> \<le> 200 * \<bar>t\<bar> / 2 ^ 51"
    by (rule order_trans)
  have "\<bar>q * 100 - t * 100\<bar> = \<bar>(q - t) * 100\<bar>" by (simp add: algebra_simps)
  also have "\<dots> = 100 * \<bar>q - t\<bar>" by (simp only: abs_mult)
  finally have "\<bar>q * 100 - t * 100\<bar> = 100 * \<bar>q - t\<bar>" .
  with qt have e2: "\<bar>q * 100 - t * 100\<bar> \<le> 100 * \<bar>t\<bar> / 2 ^ 53" by simp
  from e1 e2 have "\<bar>u - t * 100\<bar> \<le> 200 * \<bar>t\<bar> / 2 ^ 51 + 100 * \<bar>t\<bar> / 2 ^ 53"
    by linarith
  also have "\<dots> \<le> \<bar>t * 100\<bar> / 2 ^ 49"
    by (simp add: abs_mult)
  finally have bound: "\<bar>u - t * 100\<bar> \<le> \<bar>t * 100\<bar> / 2 ^ 49" .
  have "\<bar>(b - a) / a * 100\<bar> = \<bar>t * 100\<bar>"
    by (simp add: t_def abs_mult)
  with bound have "\<bar>u - (b - a) / \<bar>a\<bar> * 100\<bar> \<le> \<bar>(b - a) / a * 100\<bar> / 2 ^ 49"
    by (simp add: t_def)
  moreover from a d u have "js_mul (js_div (double (b - a)) (Num \<bar>a\<bar>)) (Num 100) = Num u"
    by (simp add: q_def)
  ultimately show ?thesis by blast
qed

subsection \<open>The transform\<close>

lemma tokenMetrics_live:
  "tokenMetrics (indexBaseAaveMetrics fmt now blockArg head raw) =
     map (metricsOfReserve (Num (10 ^ 16)) (marketReferenceCurrencyPriceInUsd raw)) (fmt now raw)"
  by (simp add: indexBaseAaveMetrics_def Let_def)

lemma tokenMetrics_hist:
  "fetchBaseMetricsAtBlock fmt blockNo block raw = Inr md \<Longrightarrow>
   \<exists>ts. block = Some ts \<and> tokenMetrics md =
     map (metricsOfReserve (Num (10 ^ 18)) (marketReferenceCurrencyPriceInUsd raw)) (fmt ts raw)"
  by (auto simp add: fetchBaseMetricsAtBlock_def Let_def split: option.splits)

lemma totals_live:
  "totalMarketSize (indexBaseAaveMetrics fmt now blockArg head raw) = calculateTotalMarketSize (fmt now raw)"
  "totalBorrows (indexBaseAaveMetrics fmt now blockArg head raw) = calculateTotalBorrows (fmt now raw)"
  by (simp_all add: indexBaseAaveMetrics_def Let_def)

lemma metricsOfReserve_utilization:
  "utilizationRate (metricsOfReserve d m r) =
     (if js_gt (r_totalLiquidity r) (Num 0)
      then js_mul (js_div (r_totalDebt r) (r_totalLiquidity r)) (Num 100) else Num 0)"
  and metricsOfReserve_totalSupplied: "totalSupplied (metricsOfReserve d m r) = r_totalLiquidity r"
  and metricsOfReserve_totalBorrowed: "totalBorrowed (metricsOfReserve d m r) = r_totalDebt r"
  by (simp_all add: metricsOfReserve_def Let_def)

lemma metricsOfReserve_caps:
  "supplyCap (metricsOfReserve d m r) = r_supplyCap r"
  "borrowCap (metricsOfReserve d m r) = r_borrowCap r"
  by (simp_all add: metricsOfReserve_def Let_def)

lemma price_of_reserve:
  "priceInUSD (metricsOfReserve d m r) = js_div (js_mul (r_priceInMarketReferenceCurrency r) m) d"
  by (simp add: metricsOfReserve_def Let_def)

lemma usd_of_price:
  "totalSuppliedUSD (metricsOfReserve d m r) = js_mul (r_totalLiquidity r) (priceInUSD (metricsOfReserve d m r))"
  "totalBorrowedUSD (metricsOfReserve d m r) = js_mul (r_totalDebt r) (priceInUSD (metricsOfReserve d m r))"
  "liquidityUSD (metricsOfReserve d m r) =
     js_mul (js_sub (r_totalLiquidity r) (r_totalDebt r)) (priceInUSD (metricsOfReserve d m r))"
  by (simp_all add: metricsOfReserve_def Let_def)

lemma utilization_of_metric:
  assumes "tm = metricsOfReserve d m r"
  shows "utilizationRate tm =
       (if js_gt (totalSupplied tm) (Num 0)
        then js_mul (js_div (totalBorrowed tm) (totalSupplied tm)) (Num 100) else Num 0)
     \<and> (totalSupplied tm = Num 0 \<longrightarrow> utilizationRate tm = Num 0)
     \<and> (if js_gt (totalSupplied tm) (Num 0)
         then map_option (\<lambda>q. js_mul q (Num 100)) (js_div_checked (totalBorrowed tm) (totalSupplied tm))
         else Some (Num 0)) = Some (utilizationRate tm)
     \<and> (\<forall>s b. totalSupplied tm = Num s \<and> totalBorrowed tm = Num b \<and> 0 < s \<longrightarrow>
           utilizationRate tm = js_mul (double (b / s)) (Num 100)
           \<and> (2 powi (- 1022) \<le> \<bar>b / s\<bar> \<and> \<bar>b / s\<bar> < 2 powi 1016 \<longrightarrow>
                (\<exists>u. utilizationRate tm = Num u \<and> \<bar>u - b / s * 100\<bar> \<le> \<bar>b / s * 100\<bar> / 2 ^ 51)))"
proof -
  let ?s = "totalSupplied tm" and ?b = "totalBorrowed tm"
  from assms have u: "utilizationRate tm =
       (if js_gt ?s (Num 0) then js_mul (js_div ?b ?s) (Num 100) else Num 0)"
    by (simp add: metricsOfReserve_utilization metricsOfReserve_totalSupplied
        metricsOfReserve_totalBorrowed)
  from u have zero: "?s = Num 0 \<longrightarrow> utilizationRate tm = Num 0"
    by simp
  have "js_gt ?s (Num 0) \<Longrightarrow> ?s \<noteq> Num 0"
    by auto
  with u have checked: "(if js_gt ?s (Num 0)
         then map_option (\<lambda>q. js_mul q (Num 100)) (js_div_checked ?b ?s)
         else Some (Num 0)) = Some (utilizationRate tm)"
    by (simp add: js_div_checked_def)
  have finite: "utilizationRate tm = js_mul (double (b / s)) (Num 100)
           \<and> (2 powi (- 1022) \<le> \<bar>b / s\<bar> \<and> \<bar>b / s\<bar> < 2 powi 1016 \<longrightarrow>
                (\<exists>u. utilizationRate tm = Num u \<and> \<bar>u - b / s * 100\<bar> \<le> \<bar>b / s * 100\<bar> / 2 ^ 51))"
    if "?s = Num s" and "?b = Num b" and "0 < s" for s b
  proof -
    from u that have e: "utilizationRate tm = js_mul (double (b / s)) (Num 100)"
      by simp
    with percent_of_quotient_error [of "b / s"] show ?thesis
      by simp
  qed
  from u zero checked finite show ?thesis by blast
qed

text \<open>
  Claim C10. For every asset of every snapshot produced by either path, the
  utilization rate is \<open>totalBorrowed / totalSupplied * 100\<close> when \<open>totalSupplied > 0\<close>
  and \<open>0\<close> otherwise, in particular when \<open>totalSupplied = 0\<close>. The division is made
  only under the guard, where the divisor is not zero: the same computation with a
  division that refuses a zero divisor gives the same rate, and never refuses. On finite
  numbers the rate is the quotient rounded to a double, times \<open>100\<close>, rounded again,
  which can be an infinity; when the quotient is of ordinary magnitude the rate is
  finite and differs from the real number \<open>b / s * 100\<close> by at most the fraction
  \<open>2^(-51)\<close> of it.
\<close>

theorem utilizationRate_guarded:
  assumes produced:
    "md = indexBaseAaveMetrics fmt now blockArg head raw
       \<or> fetchBaseMetricsAtBlock fmt blockNo block raw = Inr md"
    and member: "tm \<in> set (tokenMetrics md)"
  shows "utilizationRate tm =
       (if js_gt (totalSupplied tm) (Num 0)
        then js_mul (js_div (totalBorrowed tm) (totalSupplied tm)) (Num 100) else Num 0)
     \<and> (totalSupplied tm = Num 0 \<longrightarrow> utilizationRate tm = Num 0)
     \<and> (if js_gt (totalSupplied tm) (Num 0)
         then map_option (\<lambda>q. js_mul q (Num 100)) (js_div_checked (totalBorrowed tm) (totalSupplied tm))
         else Some (Num 0)) = Some (utilizationRate tm)
     \<and> (\<forall>s b. totalSupplied tm = Num s \<and> totalBorrowed tm = Num b \<and> 0 < s \<longrightarrow>
           utilizationRate tm = js_mul (double (b / s)) (Num 100)
           \<and> (2 powi (- 1022) \<le> \<bar>b / s\<bar> \<and> \<bar>b / s\<bar> < 2 powi 1016 \<longrightarrow>
                (\<exists>u. utilizationRate tm = Num u \<and> \<bar>u - b / s * 100\<bar> \<le> \<bar>b / s * 100\<bar> / 2 ^ 51)))"
proof -
  from produced have "\<exists>d rs. tokenMetrics md =
      map (metricsOfReserve d (marketReferenceCurrencyPriceInUsd raw)) rs"
  proof
    assume "md = indexBaseAaveMetrics fmt now blockArg head raw"
    then show ?thesis using tokenMetrics_live by blast
  next
    assume "fetchBaseMetricsAtBlock fmt blockNo block raw = Inr md"
    then show ?thesis using tokenMetrics_hist by blast
  qed
  with member obtain d r where
    "tm = metricsOfReserve d (marketReferenceCurrencyPriceInUsd raw) r"
    by auto
  then show ?thesis by (rule utilization_of_metric)
qed

text \<open>
  The theorem at a snapshot of four reserves on the live path, and at the same reserves
  on the historical path: the example (400 of 1000 borrowed, rate \<open>40\<close>), the example
  with nothing supplied (rate \<open>0\<close>), with 1 of 3 borrowed (the rate is the double
  \<open>33.33333333333333\<close>, not the real number \<open>100/3\<close>), and with \<open>2^1020\<close> borrowed of
  \<open>1\<close> supplied (the product is beyond the largest double, the rate is \<open>Infinity\<close>).
\<close>

theorem utilizationRate_guarded_witness:
  "map utilizationRate (tokenMetrics (indexBaseAaveMetrics (ex_formatter ex_reserves_rates)
        1700000000 None 100 ex_raw))
     = [Num 40, Num 0, Num (2345624805922133 / 70368744177664), Infinity]
   \<and> map_sum id (\<lambda>md. map utilizationRate (tokenMetrics md))
        (fetchBaseMetricsAtBlock (ex_formatter ex_reserves_rates) 100 (Some 1700000000) ex_raw)
     = Inr [Num 40, Num 0, Num (2345624805922133 / 70368744177664), Infinity]
   \<and> 2 powi (- 1022) \<le> \<bar>400 / 1000 :: real\<bar> \<and> \<bar>400 / 1000 :: real\<bar> < 2 powi 1016
   \<and> \<bar>40 - 400 / 1000 * 100 :: real\<bar> \<le> \<bar>400 / 1000 * 100\<bar> / 2 ^ 51"
proof -
  let ?live = "indexBaseAaveMetrics (ex_formatter ex_reserves_rates) 1700000000 None 100 ex_raw"
  let ?fetch = "fetchBaseMetricsAtBlock (ex_formatter ex_reserves_rates) 100 (Some 1700000000) ex_raw"
  let ?hist = "projr ?fetch"
  let ?l = "metricsOfReserve (Num (10 ^ 16)) (Num (10 ^ 8))"
  let ?h = "metricsOfReserve (Num (10 ^ 18)) (Num (10 ^ 8))"
  let ?idle = "ex_reserve\<lparr> r_totalLiquidity := Num 0 \<rparr>"
  let ?third = "ex_reserve\<lparr> r_totalLiquidity := Num 3, r_totalDebt := Num 1 \<rparr>"
  let ?huge = "ex_reserve\<lparr> r_totalLiquidity := Num 1, r_totalDebt := Num (2 ^ 1020) \<rparr>"
  have live: "tokenMetrics ?live = map ?l [ex_reserve, ?idle, ?third, ?huge]"
    by (simp add: tokenMetrics_live ex_raw_def ex_formatter_def ex_reserves_rates_def)
  have fetch: "?fetch = Inr ?hist"
    by (simp add: fetchBaseMetricsAtBlock_def Let_def)
  have hist: "tokenMetrics ?hist = map ?h [ex_reserve, ?idle, ?third, ?huge]"
    by (simp add: fetchBaseMetricsAtBlock_def Let_def ex_raw_def ex_formatter_def
        ex_reserves_rates_def)
  have amounts:
    "totalSupplied (metricsOfReserve d m ex_reserve) = Num 1000"
    "totalBorrowed (metricsOfReserve d m ex_reserve) = Num 400"
    "totalSupplied (metricsOfReserve d m ?idle) = Num 0"
    "totalSupplied (metricsOfReserve d m ?third) = Num 3"
    "totalBorrowed (metricsOfReserve d m ?third) = Num 1"
    "totalSupplied (metricsOfReserve d m ?huge) = Num 1"
    "totalBorrowed (metricsOfReserve d m ?huge) = Num (2 ^ 1020)"
    for d m
    by (simp_all add: metricsOfReserve_totalSupplied metricsOfReserve_totalBorrowed ex_reserve_def)
  have big: "double (2 ^ 1020) = Num (2 ^ 1020)"
    by (rule double_representable [where m = "2 ^ 49" and e = 971]) simp_all
  have over: "js_mul (Num (2 ^ 1020)) (Num 100) = Infinity"
    by (simp only: js_mul.simps, subst double_eq_at [where k = 1026])
      (simp_all add: double_at_def round_even_def Let_def)
  have range: "2 powi (- 1022) \<le> \<bar>400 / 1000 :: real\<bar>" "\<bar>400 / 1000 :: real\<bar> < 2 powi 1016"
    by simp_all
  have rate: "utilizationRate tm = Num 40
        \<and> \<bar>40 - 400 / 1000 * 100 :: real\<bar> \<le> \<bar>400 / 1000 * 100\<bar> / 2 ^ 51"
    if "tm = metricsOfReserve d m ex_reserve" and "tm \<in> set (tokenMetrics md)"
      and "md = ?live \<or> ?fetch = Inr md" for tm md d m
  proof -
    from utilizationRate_guarded [OF that(3) that(2)]
    have every: "\<forall>s b. totalSupplied tm = Num s \<and> totalBorrowed tm = Num b \<and> 0 < s \<longrightarrow>
           utilizationRate tm = js_mul (double (b / s)) (Num 100)
           \<and> (2 powi (- 1022) \<le> \<bar>b / s\<bar> \<and> \<bar>b / s\<bar> < 2 powi 1016 \<longrightarrow>
                (\<exists>u. utilizationRate tm = Num u \<and> \<bar>u - b / s * 100\<bar> \<le> \<bar>b / s * 100\<bar> / 2 ^ 51))"
      by blast
    from amounts(1,2) [of d m] that(1)
    have "totalSupplied tm = Num 1000 \<and> totalBorrowed tm = Num 400 \<and> (0::real) < 1000"
      by simp
    with every have both: "utilizationRate tm = js_mul (double (400 / 1000)) (Num 100)
           \<and> (2 powi (- 1022) \<le> \<bar>400 / 1000 :: real\<bar> \<and> \<bar>400 / 1000 :: real\<bar> < 2 powi 1016 \<longrightarrow>
                (\<exists>u. utilizationRate tm = Num u \<and> \<bar>u - 400 / 1000 * 100\<bar> \<le> \<bar>400 / 1000 * 100 :: real\<bar> / 2 ^ 51))"
      by blast
    then have e: "utilizationRate tm = js_mul (double (400 / 1000)) (Num 100)"
      by blast
    from both have b: "2 powi (- 1022) \<le> \<bar>400 / 1000 :: real\<bar> \<and> \<bar>400 / 1000 :: real\<bar> < 2 powi 1016 \<longrightarrow>
          (\<exists>u. utilizationRate tm = Num u \<and> \<bar>u - 400 / 1000 * 100\<bar> \<le> \<bar>400 / 1000 * 100 :: real\<bar> / 2 ^ 51)"
      by blast
    from e have v: "utilizationRate tm = Num 40"
      by (simp add: eval_double)
    with b range show ?thesis by auto
  qed
  have idle: "utilizationRate tm = Num 0"
    if "tm = metricsOfReserve d m ?idle" and "tm \<in> set (tokenMetrics md)"
      and "md = ?live \<or> ?fetch = Inr md" for tm md d m
    using utilizationRate_guarded [OF that(3) that(2)] amounts(3) [of d m] that(1) by simp
  have third: "utilizationRate tm = Num (2345624805922133 / 70368744177664)"
    if "tm = metricsOfReserve d m ?third" and "tm \<in> set (tokenMetrics md)"
      and "md = ?live \<or> ?fetch = Inr md" for tm md d m
    using utilizationRate_guarded [OF that(3) that(2)] amounts(4,5) [of d m] that(1)
    by (simp add: eval_double)
  have huge: "utilizationRate tm = Infinity"
    if "tm = metricsOfReserve d m ?huge" and "tm \<in> set (tokenMetrics md)"
      and "md = ?live \<or> ?fetch = Inr md" for tm md d m
  proof -
    from utilizationRate_guarded [OF that(3) that(2)]
    have "utilizationRate tm =
       (if js_gt (totalSupplied tm) (Num 0)
        then js_mul (js_div (totalBorrowed tm) (totalSupplied tm)) (Num 100) else Num 0)"
      by blast
    moreover have "js_gt (Num 1) (Num 0)" by simp
    ultimately have "utilizationRate tm = js_mul (js_div (Num (2 ^ 1020)) (Num 1)) (Num 100)"
      unfolding that(1) amounts(6,7) by (simp only: if_True)
    also have "js_div (Num (2 ^ 1020)) (Num 1) = Num (2 ^ 1020)"
      by (simp only: js_div.simps div_by_1 big) simp
    finally show ?thesis by (simp only: over)
  qed
  have l: "map utilizationRate (tokenMetrics ?live)
      = [Num 40, Num 0, Num (2345624805922133 / 70368744177664), Infinity]"
    using rate [OF refl _ disjI1 [OF refl], of "Num (10 ^ 16)" "Num (10 ^ 8)"]
      idle [OF refl _ disjI1 [OF refl], of "Num (10 ^ 16)" "Num (10 ^ 8)"]
      third [OF refl _ disjI1 [OF refl], of "Num (10 ^ 16)" "Num (10 ^ 8)"]
      huge [OF refl _ disjI1 [OF refl], of "Num (10 ^ 16)" "Num (10 ^ 8)"]
    by (simp add: live)
  have h: "map utilizationRate (tokenMetrics ?hist)
      = [Num 40, Num 0, Num (2345624805922133 / 70368744177664), Infinity]"
    using rate [OF refl _ disjI2 [OF fetch], of "Num (10 ^ 18)" "Num (10 ^ 8)"]
      idle [OF refl _ disjI2 [OF fetch], of "Num (10 ^ 18)" "Num (10 ^ 8)"]
      third [OF refl _ disjI2 [OF fetch], of "Num (10 ^ 18)" "Num (10 ^ 8)"]
      huge [OF refl _ disjI2 [OF fetch], of "Num (10 ^ 18)" "Num (10 ^ 8)"]
    by (simp add: hist)
  from fetch h have h': "map_sum id (\<lambda>md. map utilizationRate (tokenMetrics md)) ?fetch
      = Inr [Num 40, Num 0, Num (2345624805922133 / 70368744177664), Infinity]"
    by (metis map_sum.simps(2))
  from rate [OF refl _ disjI1 [OF refl], of "Num (10 ^ 16)" "Num (10 ^ 8)"] live
  have "\<bar>40 - 400 / 1000 * 100 :: real\<bar> \<le> \<bar>400 / 1000 * 100\<bar> / 2 ^ 51"
    by simp
  with l h' range show ?thesis by blast
qed

text \<open>
  Claim C3. The transform is required to give equal snapshots on equal input, the
  timestamp and the date included. The live path takes its timestamp from the clock
  (\<open>dayjs().unix()\<close>) and not from the block, as the historical path does: for the same
  block and the same data read at the clock values \<open>1700000000\<close> and \<open>1700000002\<close>
  the two snapshots carry these two timestamps, and differ in timestamp and date.
\<close>

theorem indexBaseAaveMetrics_reads_clock:
  "timestamp (indexBaseAaveMetrics (ex_formatter [ex_reserve]) 1700000000 (Some 100) 100 ex_raw)
      = 1700000000
   \<and> timestamp (indexBaseAaveMetrics (ex_formatter [ex_reserve]) 1700000002 (Some 100) 100 ex_raw)
      = 1700000002
   \<and> date (indexBaseAaveMetrics (ex_formatter [ex_reserve]) 1700000000 (Some 100) 100 ex_raw)
       \<noteq> date (indexBaseAaveMetrics (ex_formatter [ex_reserve]) 1700000002 (Some 100) 100 ex_raw)
   \<and> indexBaseAaveMetrics (ex_formatter [ex_reserve]) 1700000000 (Some 100) 100 ex_raw
       \<noteq> indexBaseAaveMetrics (ex_formatter [ex_reserve]) 1700000002 (Some 100) 100 ex_raw"
proof -
  let ?a = "indexBaseAaveMetrics (ex_formatter [ex_reserve]) 1700000000 (Some 100) 100 ex_raw"
  let ?b = "indexBaseAaveMetrics (ex_formatter [ex_reserve]) 1700000002 (Some 100) 100 ex_raw"
  have ta: "timestamp ?a = 1700000000" and tb: "timestamp ?b = 1700000002"
    by (simp_all add: indexBaseAaveMetrics_def Let_def)
  have d: "date ?a \<noteq> date ?b"
    by (simp add: indexBaseAaveMetrics_def Let_def)
  from ta tb have "?a \<noteq> ?b" by auto
  with ta tb d show ?thesis by blast
qed

text \<open>
  Claim C5, as stated, fails: a reserve whose supply cap reads as \<open>Infinity\<close> gives a
  token metric whose \<open>supplyCap\<close> is that very number, not a separate sentinel.
\<close>

theorem cap_is_raw_infinity_counterexample:
  "supplyCap (hd (tokenMetrics (indexBaseAaveMetrics
      (ex_formatter [ex_reserve\<lparr> r_supplyCap := Infinity \<rparr>]) 1700000000 None 100 ex_raw)))
     = Infinity"
  by (simp add: tokenMetrics_live ex_formatter_def metricsOfReserve_def Let_def)

text \<open>
  Claim C5, amended. In every snapshot of either path the supply and borrow cap of an
  asset are the numbers read from its reserve, unchanged, so that an unbounded cap is
  the number \<open>Infinity\<close>; in the parameters of the token \<open>INSERT\<close> a cap equal to
  \<open>Infinity\<close> is passed as \<open>NULL\<close> and every other cap as the number it is.
\<close>

theorem caps_raw_number_and_null:
  "map supplyCap (tokenMetrics (indexBaseAaveMetrics fmt now blockArg head raw))
      = map r_supplyCap (fmt now raw)
   \<and> map borrowCap (tokenMetrics (indexBaseAaveMetrics fmt now blockArg head raw))
      = map r_borrowCap (fmt now raw)
   \<and> map_sum id (\<lambda>md. map supplyCap (tokenMetrics md))
        (fetchBaseMetricsAtBlock fmt blockNo (Some ts) raw) = Inr (map r_supplyCap (fmt ts raw))
   \<and> map_sum id (\<lambda>md. map borrowCap (tokenMetrics md))
        (fetchBaseMetricsAtBlock fmt blockNo (Some ts) raw) = Inr (map r_borrowCap (fmt ts raw))
   \<and> t_supply_cap (token_params md tok)
      = (if supplyCap tok = Infinity then None else Some (supplyCap tok))
   \<and> t_borrow_cap (token_params md tok)
      = (if borrowCap tok = Infinity then None else Some (borrowCap tok))"
proof -
  have live: "map supplyCap (tokenMetrics (indexBaseAaveMetrics fmt now blockArg head raw))
      = map r_supplyCap (fmt now raw)"
    "map borrowCap (tokenMetrics (indexBaseAaveMetrics fmt now blockArg head raw))
      = map r_borrowCap (fmt now raw)"
    by (simp_all add: tokenMetrics_live metricsOfReserve_caps comp_def)
  have hist: "map_sum id (\<lambda>md. map supplyCap (tokenMetrics md))
        (fetchBaseMetricsAtBlock fmt blockNo (Some ts) raw) = Inr (map r_supplyCap (fmt ts raw))"
    "map_sum id (\<lambda>md. map borrowCap (tokenMetrics md))
        (fetchBaseMetricsAtBlock fmt blockNo (Some ts) raw) = Inr (map r_borrowCap (fmt ts raw))"
    by (simp_all add: fetchBaseMetricsAtBlock_def Let_def metricsOfReserve_caps comp_def)
  have params: "t_supply_cap (token_params md tok)
      = (if supplyCap tok = Infinity then None else Some (supplyCap tok))"
    "t_borrow_cap (token_params md tok)
      = (if borrowCap tok = Infinity then None else Some (borrowCap tok))"
    by (simp_all add: token_params_def js_seq_def)
  from live hist params show ?thesis by blast
qed

subsection \<open>The two divisors\<close>

lemma metrics_price_only:
  "metricsOfReserve d m r = (metricsOfReserve d' m r)
     \<lparr> priceInUSD := priceInUSD (metricsOfReserve d m r),
       liquidityUSD := js_mul (liquidity (metricsOfReserve d' m r)) (priceInUSD (metricsOfReserve d m r)),
       totalSuppliedUSD := js_mul (totalSupplied (metricsOfReserve d' m r)) (priceInUSD (metricsOfReserve d m r)),
       totalBorrowedUSD := js_mul (totalBorrowed (metricsOfReserve d' m r)) (priceInUSD (metricsOfReserve d m r)) \<rparr>"
  by (simp add: metricsOfReserve_def Let_def)

lemma js_mul_finite: "js_mul p m = Num a \<Longrightarrow> \<bar>a\<bar> < 2 powi 1024"
  by (cases p; cases m) (auto simp add: signed_infinity_def dest: double_finite split: if_splits)

lemma price_of_other_product:
  assumes "x = Num 0 \<or> (\<forall>a. x \<noteq> Num a)"
  shows "js_div x (Num (10 ^ 16)) = js_div x (Num (10 ^ 18))"
  using assms by (cases x) (auto simp add: signed_infinity_def double_0)

lemma price_pair:
  assumes lo: "2 powi (- 962) \<le> \<bar>a\<bar>" and hi: "\<bar>a\<bar> < 2 powi 1024"
  shows "\<exists>l h. js_div (Num a) (Num (10 ^ 16)) = Num l \<and> js_div (Num a) (Num (10 ^ 18)) = Num h
     \<and> \<bar>l - a / 10 ^ 16\<bar> \<le> \<bar>a / 10 ^ 16\<bar> / 2 ^ 53
     \<and> \<bar>h - a / 10 ^ 18\<bar> \<le> \<bar>a / 10 ^ 18\<bar> / 2 ^ 53
     \<and> \<bar>h - l / 100\<bar> \<le> \<bar>a / 10 ^ 18\<bar> / 2 ^ 52
     \<and> l \<noteq> h"
proof -
  define t where "t = \<bar>a\<bar> / 10 ^ 18"
  define z where "z = t / 2 ^ 53"
  have x18: "\<bar>a / 10 ^ 18\<bar> = t" and x16: "\<bar>a / 10 ^ 16\<bar> = 100 * t"
    by (simp_all add: t_def)
  have rel: "a / 10 ^ 18 = a / 10 ^ 16 / 100"
    by simp
  have "2 powi (- 1022) = (2::real) powi (- 962) / 2 ^ 60"
    using power_int_add [of "2::real" "- 1022" 60] by simp
  also from lo have "\<dots> \<le> \<bar>a\<bar> / 2 ^ 60"
    by (rule divide_right_mono) simp
  also have "\<dots> \<le> \<bar>a\<bar> / 10 ^ 18"
    by (intro divide_left_mono) simp_all
  finally have t_lo: "2 powi (- 1022) \<le> t"
    by (simp add: t_def)
  then have t_pos: "0 < t"
    by (rule less_le_trans [rotated]) simp
  have "100 * t = \<bar>a\<bar> / 10 ^ 16"
    by (simp add: t_def)
  also have "\<dots> \<le> \<bar>a\<bar> / 2"
    by (intro divide_left_mono) simp_all
  also from hi have "\<dots> < 2 powi 1024 / 2"
    by (rule divide_strict_right_mono) simp
  also have "\<dots> = 2 powi 1023"
    using power_int_add [of "2::real" 1023 1] by simp
  finally have t_hi: "100 * t < 2 powi 1023" .
  from t_lo t_pos have lo16: "2 powi (- 1022) \<le> \<bar>a / 10 ^ 16\<bar>"
    unfolding x16 by linarith
  from t_hi have hi16: "\<bar>a / 10 ^ 16\<bar> < 2 powi 1023"
    unfolding x16 .
  from t_lo have lo18: "2 powi (- 1022) \<le> \<bar>a / 10 ^ 18\<bar>"
    unfolding x18 .
  from t_hi t_pos have hi18: "\<bar>a / 10 ^ 18\<bar> < 2 powi 1023"
    unfolding x18 by linarith
  from double_error [OF lo16 hi16] obtain l where l: "double (a / 10 ^ 16) = Num l"
    and le: "\<bar>l - a / 10 ^ 16\<bar> \<le> \<bar>a / 10 ^ 16\<bar> / 2 ^ 53"
    by blast
  from double_error [OF lo18 hi18] obtain h where h: "double (a / 10 ^ 18) = Num h"
    and he: "\<bar>h - a / 10 ^ 18\<bar> \<le> \<bar>a / 10 ^ 18\<bar> / 2 ^ 53"
    by blast
  from le have le': "\<bar>l - a / 10 ^ 16\<bar> \<le> 100 * z"
    unfolding x16 by (simp add: z_def)
  from he have he': "\<bar>h - a / 10 ^ 18\<bar> \<le> z"
    unfolding x18 by (simp add: z_def)
  have "t / 2 ^ 53 \<le> t / 4"
    using t_pos by (intro divide_left_mono) simp_all
  then have z: "z \<le> t / 4"
    by (simp add: z_def)
  from le' x16 z have "75 * t \<le> \<bar>l\<bar>"
    by linarith
  moreover from he' x18 z have "\<bar>h\<bar> \<le> 5 / 4 * t"
    by linarith
  ultimately have ne: "l \<noteq> h"
    using t_pos by auto
  have "\<bar>h - l / 100\<bar> \<le> 2 * z"
  proof -
    define p q where "p = a / 10 ^ 16" and "q = a / 10 ^ 18"
    from rel have "q = p / 100" by (simp only: p_def q_def)
    moreover from le' he' have "\<bar>l - p\<bar> \<le> 100 * z" "\<bar>h - q\<bar> \<le> z"
      by (simp_all only: p_def q_def)
    ultimately show ?thesis by linarith
  qed
  also have "\<dots> = \<bar>a / 10 ^ 18\<bar> / 2 ^ 52"
    unfolding x18 by (simp add: z_def)
  finally have close: "\<bar>h - l / 100\<bar> \<le> \<bar>a / 10 ^ 18\<bar> / 2 ^ 52" .
  from l h have "js_div (Num a) (Num (10 ^ 16)) = Num l" "js_div (Num a) (Num (10 ^ 18)) = Num h"
    by simp_all
  with le he close ne show ?thesis by blast
qed

text \<open>
  The historical price is not the live price divided by \<open>100\<close> in the arithmetic of the
  source: with the price \<open>100012345\<close> in a reference currency of eight decimals the live
  path gives \<open>1.00012345\<close> and the historical path \<open>0.0100012345\<close>, while the live
  price over \<open>100\<close> is \<open>0.010001234500000001\<close>, one unit in the last place higher.
\<close>

lemma hundredth_of_live_price_rounds:
  "priceInUSD (metricsOfReserve (Num (10 ^ 16)) (Num (10 ^ 8))
       (ex_reserve\<lparr> r_priceInMarketReferenceCurrency := Num 100012345 \<rparr>))
     = Num (4504155596744495 / 2 ^ 52)
   \<and> priceInUSD (metricsOfReserve (Num (10 ^ 18)) (Num (10 ^ 8))
       (ex_reserve\<lparr> r_priceInMarketReferenceCurrency := Num 100012345 \<rparr>))
     = Num (5765319163832953 / 2 ^ 59)
   \<and> js_div (Num (4504155596744495 / 2 ^ 52)) (Num 100) = Num (5765319163832954 / 2 ^ 59)"
proof -
  have product: "js_mul (Num 100012345) (Num (10 ^ 8)) = Num 10001234500000000"
  proof -
    have "double 10001234500000000 = Num 10001234500000000"
      by (rule double_representable [where m = 39067322265625 and e = 8]) simp_all
    then show ?thesis by simp
  qed
  have live: "js_div (Num 10001234500000000) (Num (10 ^ 16)) = Num (4504155596744495 / 2 ^ 52)"
    by (simp, subst double_eq_at [where k = 0]) (simp_all add: double_at_def round_even_def Let_def)
  have hist: "js_div (Num 10001234500000000) (Num (10 ^ 18)) = Num (5765319163832953 / 2 ^ 59)"
    by (simp, subst double_eq_at [where k = "- 7"])
      (simp_all add: double_at_def round_even_def Let_def)
  have over: "js_div (Num (4504155596744495 / 2 ^ 52)) (Num 100) = Num (5765319163832954 / 2 ^ 59)"
    by (simp, subst double_eq_at [where k = "- 7"])
      (simp_all add: double_at_def round_even_def Let_def)
  have price: "r_priceInMarketReferenceCurrency
      (ex_reserve\<lparr> r_priceInMarketReferenceCurrency := Num 100012345 \<rparr>) = Num 100012345"
    by simp
  show ?thesis
    by (simp only: price_of_reserve price product live hist over simp_thms)
qed

text \<open>
  Claim C6, as stated, fails: for a reserve whose price is zero the two paths give the
  same snapshot, token metrics included (the block, its timestamp and the data being
  the same).
\<close>

theorem zero_price_paths_agree_counterexample:
  "fetchBaseMetricsAtBlock (ex_formatter [ex_reserve\<lparr> r_priceInMarketReferenceCurrency := Num 0 \<rparr>])
      100 (Some 1700000000) ex_raw
   = Inr (indexBaseAaveMetrics (ex_formatter [ex_reserve\<lparr> r_priceInMarketReferenceCurrency := Num 0 \<rparr>])
      1700000000 (Some 100) 100 ex_raw)"
  by (simp add: fetchBaseMetricsAtBlock_def indexBaseAaveMetrics_def Let_def ex_formatter_def
      metricsOfReserve_def ex_raw_def double_0)

text \<open>
  Claim C6, amended. The token metrics of the live path are computed with the divisor
  \<open>1e16\<close> and those of the historical path with \<open>1e18\<close>: for every reserve record
  and reference price, \<open>priceInUSD\<close> is the product of the reserve's price and the
  reference price over the divisor of the path, the three USD figures are the amounts
  times that price, and every other field is the same on both paths, so that the two
  token metrics are equal exactly when the two prices are. When the product is a number
  of magnitude \<open>2^(-962)\<close> or more, both prices are finite, each is the real quotient up
  to the fraction \<open>2^(-53)\<close> of it, the historical price is the hundredth of the live
  one up to the fraction \<open>2^(-52)\<close> of the real quotient, and the two token metrics
  differ. When the product is zero, an infinity or \<open>NaN\<close>, they are equal.
\<close>

theorem paths_divide_by_1e16_and_1e18:
  fixes fmt :: "('r, 'i) formatter" and raw :: "('r, 'i) raw_market_data"
    and now ts blockNo head :: int and blockArg :: "int option"
    and m :: jsnum and r :: formatted_reserve
  defines "live \<equiv> metricsOfReserve (Num (10 ^ 16)) m r"
    and "hist \<equiv> metricsOfReserve (Num (10 ^ 18)) m r"
  shows "tokenMetrics (indexBaseAaveMetrics fmt now blockArg head raw)
      = map (metricsOfReserve (Num (10 ^ 16)) (marketReferenceCurrencyPriceInUsd raw)) (fmt now raw)
    \<and> map_sum id tokenMetrics (fetchBaseMetricsAtBlock fmt blockNo (Some ts) raw)
      = Inr (map (metricsOfReserve (Num (10 ^ 18)) (marketReferenceCurrencyPriceInUsd raw)) (fmt ts raw))
    \<and> priceInUSD live = js_div (js_mul (r_priceInMarketReferenceCurrency r) m) (Num (10 ^ 16))
    \<and> priceInUSD hist = js_div (js_mul (r_priceInMarketReferenceCurrency r) m) (Num (10 ^ 18))
    \<and> liquidityUSD live = js_mul (liquidity live) (priceInUSD live)
    \<and> totalSuppliedUSD live = js_mul (totalSupplied live) (priceInUSD live)
    \<and> totalBorrowedUSD live = js_mul (totalBorrowed live) (priceInUSD live)
    \<and> hist = live \<lparr> priceInUSD := priceInUSD hist,
                     liquidityUSD := js_mul (liquidity live) (priceInUSD hist),
                     totalSuppliedUSD := js_mul (totalSupplied live) (priceInUSD hist),
                     totalBorrowedUSD := js_mul (totalBorrowed live) (priceInUSD hist) \<rparr>
    \<and> (live = hist) = (priceInUSD live = priceInUSD hist)
    \<and> (\<forall>a. js_mul (r_priceInMarketReferenceCurrency r) m = Num a \<and> 2 powi (- 962) \<le> \<bar>a\<bar> \<longrightarrow>
          (\<exists>l h. priceInUSD live = Num l \<and> priceInUSD hist = Num h
             \<and> \<bar>l - a / 10 ^ 16\<bar> \<le> \<bar>a / 10 ^ 16\<bar> / 2 ^ 53
             \<and> \<bar>h - a / 10 ^ 18\<bar> \<le> \<bar>a / 10 ^ 18\<bar> / 2 ^ 53
             \<and> \<bar>h - l / 100\<bar> \<le> \<bar>a / 10 ^ 18\<bar> / 2 ^ 52
             \<and> l \<noteq> h)
          \<and> live \<noteq> hist)
    \<and> (js_mul (r_priceInMarketReferenceCurrency r) m = Num 0
           \<or> (\<forall>a. js_mul (r_priceInMarketReferenceCurrency r) m \<noteq> Num a)
         \<longrightarrow> live = hist)"
proof -
  let ?x = "js_mul (r_priceInMarketReferenceCurrency r) m"
  have paths: "map_sum id tokenMetrics (fetchBaseMetricsAtBlock fmt blockNo (Some ts) raw)
      = Inr (map (metricsOfReserve (Num (10 ^ 18)) (marketReferenceCurrencyPriceInUsd raw)) (fmt ts raw))"
    by (simp add: fetchBaseMetricsAtBlock_def Let_def)
  have pl: "priceInUSD live = js_div ?x (Num (10 ^ 16))"
    and ph: "priceInUSD hist = js_div ?x (Num (10 ^ 18))"
    by (simp_all only: live_def hist_def price_of_reserve)
  have usd: "liquidityUSD live = js_mul (liquidity live) (priceInUSD live)"
    "totalSuppliedUSD live = js_mul (totalSupplied live) (priceInUSD live)"
    "totalBorrowedUSD live = js_mul (totalBorrowed live) (priceInUSD live)"
    by (simp_all add: live_def metricsOfReserve_def Let_def)
  have rest: "hist = live \<lparr> priceInUSD := priceInUSD hist,
                     liquidityUSD := js_mul (liquidity live) (priceInUSD hist),
                     totalSuppliedUSD := js_mul (totalSupplied live) (priceInUSD hist),
                     totalBorrowedUSD := js_mul (totalBorrowed live) (priceInUSD hist) \<rparr>"
    unfolding live_def hist_def by (rule metrics_price_only)
  have iff: "(live = hist) = (priceInUSD live = priceInUSD hist)"
  proof
    assume "live = hist"
    then show "priceInUSD live = priceInUSD hist" by simp
  next
    assume e: "priceInUSD live = priceInUSD hist"
    have "hist = live \<lparr> priceInUSD := priceInUSD live,
                     liquidityUSD := js_mul (liquidity live) (priceInUSD live),
                     totalSuppliedUSD := js_mul (totalSupplied live) (priceInUSD live),
                     totalBorrowedUSD := js_mul (totalBorrowed live) (priceInUSD live) \<rparr>"
      using rest unfolding e [symmetric] .
    also have "\<dots> = live"
      by (simp add: live_def metricsOfReserve_def Let_def)
    finally show "live = hist" by simp
  qed
  have far: "(\<exists>l h. priceInUSD live = Num l \<and> priceInUSD hist = Num h
             \<and> \<bar>l - a / 10 ^ 16\<bar> \<le> \<bar>a / 10 ^ 16\<bar> / 2 ^ 53
             \<and> \<bar>h - a / 10 ^ 18\<bar> \<le> \<bar>a / 10 ^ 18\<bar> / 2 ^ 53
             \<and> \<bar>h - l / 100\<bar> \<le> \<bar>a / 10 ^ 18\<bar> / 2 ^ 52
             \<and> l \<noteq> h)
          \<and> live \<noteq> hist"
    if x: "?x = Num a" and lo: "2 powi (- 962) \<le> \<bar>a\<bar>" for a
  proof -
    from price_pair [OF lo js_mul_finite [OF x]] obtain l h where
      lh: "js_div (Num a) (Num (10 ^ 16)) = Num l" "js_div (Num a) (Num (10 ^ 18)) = Num h"
      and e: "\<bar>l - a / 10 ^ 16\<bar> \<le> \<bar>a / 10 ^ 16\<bar> / 2 ^ 53"
        "\<bar>h - a / 10 ^ 18\<bar> \<le> \<bar>a / 10 ^ 18\<bar> / 2 ^ 53"
        "\<bar>h - l / 100\<bar> \<le> \<bar>a / 10 ^ 18\<bar> / 2 ^ 52"
      and ne: "l \<noteq> h"
      by blast
    from lh have p: "priceInUSD live = Num l" "priceInUSD hist = Num h"
      by (simp_all only: pl ph x)
    with ne iff have "live \<noteq> hist" by simp
    with p e ne show ?thesis by blast
  qed
  have near: "live = hist" if "?x = Num 0 \<or> (\<forall>a. ?x \<noteq> Num a)"
    using price_of_other_product [OF that] by (simp only: iff pl ph)
  from tokenMetrics_live [of fmt now blockArg head raw] paths pl ph usd rest iff far near
  show ?thesis by blast
qed

text \<open>
  The theorem at the example reserve, whose product of prices is \<open>1e16\<close>: the live
  price is \<open>1\<close>, the historical price the double \<open>0.01\<close>, and the token metrics differ;
  and at the same reserve with the price zero, where they are equal.
\<close>

theorem paths_divide_by_1e16_and_1e18_witness:
  "js_mul (r_priceInMarketReferenceCurrency ex_reserve) (Num (10 ^ 8)) = Num (10 ^ 16)
   \<and> 2 powi (- 962) \<le> \<bar>10 ^ 16 :: real\<bar>
   \<and> priceInUSD (metricsOfReserve (Num (10 ^ 16)) (Num (10 ^ 8)) ex_reserve) = Num 1
   \<and> priceInUSD (metricsOfReserve (Num (10 ^ 18)) (Num (10 ^ 8)) ex_reserve)
       = Num (5764607523034235 / 576460752303423488)
   \<and> metricsOfReserve (Num (10 ^ 16)) (Num (10 ^ 8)) ex_reserve
       \<noteq> metricsOfReserve (Num (10 ^ 18)) (Num (10 ^ 8)) ex_reserve
   \<and> js_mul (r_priceInMarketReferenceCurrency (ex_reserve\<lparr> r_priceInMarketReferenceCurrency := Num 0 \<rparr>))
        (Num (10 ^ 8)) = Num 0
   \<and> metricsOfReserve (Num (10 ^ 16)) (Num (10 ^ 8))
        (ex_reserve\<lparr> r_priceInMarketReferenceCurrency := Num 0 \<rparr>)
       = metricsOfReserve (Num (10 ^ 18)) (Num (10 ^ 8))
          (ex_reserve\<lparr> r_priceInMarketReferenceCurrency := Num 0 \<rparr>)"
proof -
  let ?free = "ex_reserve\<lparr> r_priceInMarketReferenceCurrency := Num 0 \<rparr>"
  have x: "js_mul (r_priceInMarketReferenceCurrency ex_reserve) (Num (10 ^ 8)) = Num (10 ^ 16)"
    by (simp add: ex_reserve_def eval_double)
  have lo: "2 powi (- 962) \<le> \<bar>10 ^ 16 :: real\<bar>"
    by simp
  have z: "js_mul (r_priceInMarketReferenceCurrency ?free) (Num (10 ^ 8)) = Num 0"
    by (simp add: eval_double)
  have prices: "priceInUSD (metricsOfReserve (Num (10 ^ 16)) (Num (10 ^ 8)) ex_reserve) = Num 1"
    "priceInUSD (metricsOfReserve (Num (10 ^ 18)) (Num (10 ^ 8)) ex_reserve)
       = Num (5764607523034235 / 576460752303423488)"
    by (simp_all add: price_of_reserve ex_reserve_def eval_double)
  from paths_divide_by_1e16_and_1e18 [where r = ex_reserve and m = "Num (10 ^ 8)"] x lo
  have ne: "metricsOfReserve (Num (10 ^ 16)) (Num (10 ^ 8)) ex_reserve
       \<noteq> metricsOfReserve (Num (10 ^ 18)) (Num (10 ^ 8)) ex_reserve"
    by blast
  from paths_divide_by_1e16_and_1e18 [where r = ?free and m = "Num (10 ^ 8)"] z
  have eq: "metricsOfReserve (Num (10 ^ 16)) (Num (10 ^ 8)) ?free
       = metricsOfReserve (Num (10 ^ 18)) (Num (10 ^ 8)) ?free"
    by blast
  from x lo prices ne z eq show ?thesis by blast
qed

subsection \<open>The aggregates\<close>

lemma foldl_js_add_cong:
  "\<forall>r \<in> set rs. f r = g r \<Longrightarrow>
   foldl (\<lambda>total r. js_add total (f r)) a rs = foldl js_add a (map g rs)"
  by (induction rs arbitrary: a) simp_all

text \<open>
  Claim C7, as stated, fails. On the live path a reserve whose reported
  \<open>totalLiquidityUSD\<close> is \<open>999\<close> while its 1000 tokens are priced at one dollar gives
  a market size of \<open>999\<close> and token figures that sum to \<open>1000\<close>; on the historical
  path the example reserve itself gives a market size of \<open>1000\<close> and token figures
  that sum to \<open>10\<close>.
\<close>

theorem aggregates_not_token_sums_counterexample:
  "totalMarketSize (indexBaseAaveMetrics (ex_formatter [ex_reserve\<lparr> r_totalLiquidityUSD := Num 999 \<rparr>])
        1700000000 None 100 ex_raw) = Num 999
   \<and> foldl js_add (Num 0) (map totalSuppliedUSD (tokenMetrics
       (indexBaseAaveMetrics (ex_formatter [ex_reserve\<lparr> r_totalLiquidityUSD := Num 999 \<rparr>])
        1700000000 None 100 ex_raw))) = Num 1000
   \<and> map_sum id (\<lambda>md. (totalMarketSize md, foldl js_add (Num 0) (map totalSuppliedUSD (tokenMetrics md))))
        (fetchBaseMetricsAtBlock (ex_formatter [ex_reserve]) 100 (Some 1700000000) ex_raw)
       = Inr (Num 1000, Num 10)"
  by (simp add: tokenMetrics_live totals_live calculateTotalMarketSize_def ex_formatter_def
      ex_raw_def ex_reserve_def metricsOfReserve_def Let_def fetchBaseMetricsAtBlock_def
      eval_double)

text \<open>
  Claim C7, amended. In every snapshot of either path \<open>totalMarketSize\<close> is the sum
  over the formatted reserves of the field \<open>totalLiquidityUSD\<close> that the library
  reports and \<open>totalBorrows\<close> the sum of its \<open>totalDebtUSD\<close>; each token's
  \<open>totalSuppliedUSD\<close> is \<open>totalSupplied * priceInUSD\<close> and its \<open>totalBorrowedUSD\<close>
  is \<open>totalBorrowed * priceInUSD\<close>; and the two aggregates are the sums of these token
  figures whenever, for every reserve, the reported USD figures are those products,
  with \<open>priceInUSD\<close> as the path computes it (\<open>d\<close> is the divisor of the path).
\<close>

theorem aggregates_sum_library_usd:
  assumes produced:
    "(d = Num (10 ^ 16) \<and> md = indexBaseAaveMetrics fmt now blockArg head raw \<and> rs = fmt now raw)
     \<or> (d = Num (10 ^ 18) \<and> fetchBaseMetricsAtBlock fmt blockNo (Some ts) raw = Inr md
          \<and> rs = fmt ts raw)"
  shows "totalMarketSize md = foldl js_add (Num 0) (map r_totalLiquidityUSD rs)
    \<and> totalBorrows md = foldl js_add (Num 0) (map r_totalDebtUSD rs)
    \<and> list_all (\<lambda>tm. totalSuppliedUSD tm = js_mul (totalSupplied tm) (priceInUSD tm)
                    \<and> totalBorrowedUSD tm = js_mul (totalBorrowed tm) (priceInUSD tm)) (tokenMetrics md)
    \<and> ((\<forall>r \<in> set rs.
           r_totalLiquidityUSD r = js_mul (r_totalLiquidity r)
              (js_div (js_mul (r_priceInMarketReferenceCurrency r) (marketReferenceCurrencyPriceInUsd raw)) d)
         \<and> r_totalDebtUSD r = js_mul (r_totalDebt r)
              (js_div (js_mul (r_priceInMarketReferenceCurrency r) (marketReferenceCurrencyPriceInUsd raw)) d))
        \<longrightarrow> totalMarketSize md = foldl js_add (Num 0) (map totalSuppliedUSD (tokenMetrics md))
          \<and> totalBorrows md = foldl js_add (Num 0) (map totalBorrowedUSD (tokenMetrics md)))"
proof -
  let ?m = "metricsOfReserve d (marketReferenceCurrencyPriceInUsd raw)"
  from produced have toks: "tokenMetrics md = map ?m rs"
    and sz: "totalMarketSize md = calculateTotalMarketSize rs"
    and bw: "totalBorrows md = calculateTotalBorrows rs"
    by (auto simp add: tokenMetrics_live totals_live fetchBaseMetricsAtBlock_def Let_def)
  have size: "totalMarketSize md = foldl js_add (Num 0) (map r_totalLiquidityUSD rs)"
    unfolding sz calculateTotalMarketSize_def
    by (rule foldl_js_add_cong) simp
  have borrows: "totalBorrows md = foldl js_add (Num 0) (map r_totalDebtUSD rs)"
    unfolding bw calculateTotalBorrows_def
    by (rule foldl_js_add_cong) simp
  have each: "list_all (\<lambda>tm. totalSuppliedUSD tm = js_mul (totalSupplied tm) (priceInUSD tm)
                    \<and> totalBorrowedUSD tm = js_mul (totalBorrowed tm) (priceInUSD tm)) (tokenMetrics md)"
    unfolding toks by (simp add: list_all_iff metricsOfReserve_def Let_def)
  have agree: "totalMarketSize md = foldl js_add (Num 0) (map totalSuppliedUSD (tokenMetrics md))
          \<and> totalBorrows md = foldl js_add (Num 0) (map totalBorrowedUSD (tokenMetrics md))"
    if h: "\<forall>r \<in> set rs.
           r_totalLiquidityUSD r = js_mul (r_totalLiquidity r)
              (js_div (js_mul (r_priceInMarketReferenceCurrency r) (marketReferenceCurrencyPriceInUsd raw)) d)
         \<and> r_totalDebtUSD r = js_mul (r_totalDebt r)
              (js_div (js_mul (r_priceInMarketReferenceCurrency r) (marketReferenceCurrencyPriceInUsd raw)) d)"
  proof -
    have s: "\<forall>r \<in> set rs. r_totalLiquidityUSD r = totalSuppliedUSD (?m r)"
      and b: "\<forall>r \<in> set rs. r_totalDebtUSD r = totalBorrowedUSD (?m r)"
      using h by (simp_all only: usd_of_price price_of_reserve) blast+
    have "totalMarketSize md = foldl js_add (Num 0) (map (\<lambda>r. totalSuppliedUSD (?m r)) rs)"
      unfolding sz calculateTotalMarketSize_def
      using s by (rule foldl_js_add_cong)
    moreover have "totalBorrows md = foldl js_add (Num 0) (map (\<lambda>r. totalBorrowedUSD (?m r)) rs)"
      unfolding bw calculateTotalBorrows_def
      using b by (rule foldl_js_add_cong)
    ultimately show ?thesis by (simp add: toks comp_def)
  qed
  from size borrows each agree show ?thesis by blast
qed

text \<open>
  The theorem at the example reserve on the live path, whose reported USD figures are
  the products: the market size is \<open>1000\<close> and is the sum of the token figures.
\<close>

theorem aggregates_sum_library_usd_witness:
  "totalMarketSize (indexBaseAaveMetrics (ex_formatter [ex_reserve]) 1700000000 None 100 ex_raw)
     = foldl js_add (Num 0) (map totalSuppliedUSD (tokenMetrics
         (indexBaseAaveMetrics (ex_formatter [ex_reserve]) 1700000000 None 100 ex_raw)))
   \<and> totalBorrows (indexBaseAaveMetrics (ex_formatter [ex_reserve]) 1700000000 None 100 ex_raw)
     = foldl js_add (Num 0) (map totalBorrowedUSD (tokenMetrics
         (indexBaseAaveMetrics (ex_formatter [ex_reserve]) 1700000000 None 100 ex_raw)))
   \<and> totalMarketSize (indexBaseAaveMetrics (ex_formatter [ex_reserve]) 1700000000 None 100 ex_raw)
     = Num 1000"
proof -
  let ?md = "indexBaseAaveMetrics (ex_formatter [ex_reserve]) 1700000000 None 100 ex_raw"
  let ?rs = "ex_formatter [ex_reserve] 1700000000 ex_raw"
  have h: "\<forall>r \<in> set ?rs.
           r_totalLiquidityUSD r = js_mul (r_totalLiquidity r)
              (js_div (js_mul (r_priceInMarketReferenceCurrency r) (marketReferenceCurrencyPriceInUsd ex_raw)) (Num (10 ^ 16)))
         \<and> r_totalDebtUSD r = js_mul (r_totalDebt r)
              (js_div (js_mul (r_priceInMarketReferenceCurrency r) (marketReferenceCurrencyPriceInUsd ex_raw)) (Num (10 ^ 16)))"
    by (simp add: ex_formatter_def ex_reserve_def ex_raw_def eval_double)
  have v: "totalMarketSize ?md = Num 1000"
    by (simp add: totals_live calculateTotalMarketSize_def ex_formatter_def ex_reserve_def
        eval_double)
  have p: "(Num (10 ^ 16) = Num (10 ^ 16) \<and> ?md = ?md \<and> ?rs = ?rs)
     \<or> (Num (10 ^ 16) = Num (10 ^ 18)
          \<and> fetchBaseMetricsAtBlock (ex_formatter [ex_reserve]) 0 (Some 0) ex_raw = Inr ?md
          \<and> ?rs = ex_formatter [ex_reserve] 0 ex_raw)"
    by (rule disjI1) (intro conjI refl)
  from aggregates_sum_library_usd [OF p] h v
  show ?thesis by blast
qed

subsection \<open>The store\<close>

subsubsection \<open>Tables of the catalogue\<close>

lemma map_of_modify_table:
  "map_of (modify_table n f ts) k = (if k = n then map_option f (map_of ts n) else map_of ts k)"
  by (induction ts) auto

lemma map_of_modify_table_None:
  "(map_of (modify_table n f ts) k = None) = (map_of ts k = None)"
  by (simp add: map_of_modify_table)

lemma modify_table_keys: "map fst (modify_table n f ts) = map fst ts"
  by (induction ts) auto

lemma tables_map_id: "tables_map (\<lambda>k rows. rows) ts = ts"
  by (induction ts) auto

lemma modify_table_as_map:
  "modify_table n f ts = tables_map (\<lambda>k. if k = n then f else (\<lambda>rows. rows)) ts"
proof (induction ts)
  case Nil
  then show ?case by simp
next
  case (Cons a ts)
  obtain k rows where a: "a = (k, rows)" by (cases a)
  show ?case
  proof (cases "k = n")
    case True
    have "(\<lambda>j. if j = n then (\<lambda>rows. rows) else if j = n then f else (\<lambda>rows. rows))
        = (\<lambda>j rows. rows)"
      by (auto simp add: fun_eq_iff)
    with True show ?thesis by (simp add: a tables_map_id)
  next
    case False
    then have "(\<lambda>j. if j = k then (\<lambda>rows. rows) else if j = n then f else (\<lambda>rows. rows))
        = (\<lambda>j. if j = n then f else (\<lambda>rows. rows))"
      by (auto simp add: fun_eq_iff)
    with False show ?thesis by (simp add: a Cons.IH)
  qed
qed

lemma tables_map_comp: "tables_map g (tables_map h ts) = tables_map (\<lambda>k rows. g k (h k rows)) ts"
proof (induction ts arbitrary: g h)
  case Nil
  then show ?case by simp
next
  case (Cons a ts)
  obtain k rows where a: "a = (k, rows)" by (cases a)
  let ?g = "\<lambda>j. if j = k then (\<lambda>rows. rows) else g j"
  let ?h = "\<lambda>j. if j = k then (\<lambda>rows. rows) else h j"
  have "(\<lambda>j rows. ?g j (?h j rows))
      = (\<lambda>j. if j = k then (\<lambda>rows. rows) else (\<lambda>rows. g j (h j rows)))"
    by (auto simp add: fun_eq_iff)
  with Cons.IH [of ?g ?h] show ?case by (simp only: a tables_map.simps)
qed

lemma map_of_tables_map: "map_of (tables_map g ts) k = map_option (g k) (map_of ts k)"
proof (induction ts arbitrary: g)
  case Nil
  then show ?case by simp
next
  case (Cons a ts)
  obtain j rows where a: "a = (j, rows)" by (cases a)
  show ?case by (simp add: a Cons.IH)
qed

lemma tables_map_keys: "map fst (tables_map g ts) = map fst ts"
proof (induction ts arbitrary: g)
  case Nil
  then show ?case by simp
next
  case (Cons a ts)
  obtain j rows where a: "a = (j, rows)" by (cases a)
  show ?case by (simp add: a Cons.IH)
qed

lemma tables_map_elsewhere:
  "(\<And>k rows. k \<notin> S \<Longrightarrow> g k rows = rows) \<Longrightarrow>
   filter (\<lambda>(k, rows). k \<notin> S) (tables_map g ts) = filter (\<lambda>(k, rows). k \<notin> S) ts"
proof (induction ts arbitrary: g)
  case Nil
  then show ?case by simp
next
  case (Cons a ts)
  obtain j rows where a: "a = (j, rows)" by (cases a)
  have "(if k = j then (\<lambda>rows. rows) else g k) rows = rows" if "k \<notin> S" for k rows
    using that Cons.prems by simp
  from Cons.IH [OF this] Cons.prems show ?case by (simp add: a)
qed

subsubsection \<open>Queries inside the transaction\<close>

lemma query_upsert_token_ok:
  assumes "txn c = InTransaction w" and "query cast faults (UpsertToken n row) c = (None, c')"
  shows "\<exists>w'. apply_statement cast (UpsertToken n row) w = Inr w' \<and> txn c' = InTransaction w'
              \<and> committed c' = committed c"
  using assms by (auto simp add: query_def Let_def split: if_splits sum.splits)

lemma query_upsert_token_fail:
  assumes "txn c = InTransaction w" and "query cast faults (UpsertToken n row) c = (Some e, c')"
  shows "committed c' = committed c"
  using assms by (auto simp add: query_def Let_def split: if_splits sum.splits)

lemma apply_upsert_token:
  "apply_statement cast (UpsertToken n row) w = Inr w' \<Longrightarrow>
     map_of (token_tables w) n \<noteq> None
     \<and> w' = w\<lparr> token_tables := modify_table n (upsert_token (token_columns cast row)) (token_tables w) \<rparr>"
  by (auto split: option.splits)

lemma store_tokens_ok:
  "txn c = InTransaction w \<Longrightarrow> store_tokens cast faults md toks c = (None, c') \<Longrightarrow>
   list_all (\<lambda>tok. map_of (token_tables w) (tableName (symbol tok)) \<noteq> None) toks
   \<and> txn c' = InTransaction (w\<lparr> token_tables := fold (upsert_step cast md) toks (token_tables w) \<rparr>)
   \<and> committed c' = committed c"
proof (induction toks arbitrary: c w)
  case Nil
  then show ?case by simp
next
  case (Cons tok toks)
  let ?q = "query cast faults (UpsertToken (tableName (symbol tok)) (token_params md tok)) c"
  from Cons.prems(2) obtain c1 where q: "?q = (None, c1)"
    and rest: "store_tokens cast faults md toks c1 = (None, c')"
    by (auto split: prod.splits option.splits)
  from query_upsert_token_ok [OF Cons.prems(1) q] obtain w1 where
    a: "apply_statement cast (UpsertToken (tableName (symbol tok)) (token_params md tok)) w = Inr w1"
    and t1: "txn c1 = InTransaction w1" and c1: "committed c1 = committed c"
    by blast
  from apply_upsert_token [OF a] have ex: "map_of (token_tables w) (tableName (symbol tok)) \<noteq> None"
    and w1: "w1 = w\<lparr> token_tables := upsert_step cast md tok (token_tables w) \<rparr>"
    by (simp_all add: upsert_step_def)
  from Cons.IH [OF t1 rest] have
    ih: "list_all (\<lambda>tok. map_of (token_tables w1) (tableName (symbol tok)) \<noteq> None) toks"
      "txn c' = InTransaction (w1\<lparr> token_tables := fold (upsert_step cast md) toks (token_tables w1) \<rparr>)"
      "committed c' = committed c1"
    by simp_all
  from ih(1) have "list_all (\<lambda>tok. map_of (token_tables w) (tableName (symbol tok)) \<noteq> None) toks"
    by (simp add: w1 upsert_step_def map_of_modify_table_None)
  with ex ih(2,3) c1 show ?case by (simp add: w1)
qed

lemma store_tokens_fail:
  "txn c = InTransaction w \<Longrightarrow> store_tokens cast faults md toks c = (Some e, c') \<Longrightarrow>
   committed c' = committed c"
proof (induction toks arbitrary: c w)
  case Nil
  then show ?case by simp
next
  case (Cons tok toks)
  let ?q = "query cast faults (UpsertToken (tableName (symbol tok)) (token_params md tok)) c"
  show ?case
  proof (cases ?q)
    case (Pair r c1)
    show ?thesis
    proof (cases r)
      case None
      with Pair Cons.prems(2) have rest: "store_tokens cast faults md toks c1 = (Some e, c')" by simp
      from query_upsert_token_ok [OF Cons.prems(1)] Pair None obtain w1 where
        "txn c1 = InTransaction w1" "committed c1 = committed c" by blast
      with Cons.IH rest show ?thesis by metis
    next
      case (Some e1)
      with Pair Cons.prems(2) have "c' = c1" by simp
      with query_upsert_token_fail [OF Cons.prems(1)] Pair Some show ?thesis by simp
    qed
  qed
qed


lemma store_tokens_no_fault:
  "txn c = InTransaction w \<Longrightarrow>
   list_all (\<lambda>tok. map_of (token_tables w) (tableName (symbol tok)) \<noteq> None) toks \<Longrightarrow>
   \<exists>c'. store_tokens cast (\<lambda>n. False) md toks c = (None, c')
        \<and> txn c' = InTransaction (w\<lparr> token_tables := fold (upsert_step cast md) toks (token_tables w) \<rparr>)
        \<and> committed c' = committed c"
proof (induction toks arbitrary: c w)
  case Nil
  then show ?case by simp
next
  case (Cons tok toks)
  let ?n = "tableName (symbol tok)"
  let ?w1 = "w\<lparr> token_tables := upsert_step cast md tok (token_tables w) \<rparr>"
  let ?c1 = "c\<lparr> issued := issued c + 1, txn := InTransaction ?w1 \<rparr>"
  from Cons.prems(2) obtain rows where rows: "map_of (token_tables w) ?n = Some rows"
    by auto
  with Cons.prems(1) have q: "query cast (\<lambda>n. False) (UpsertToken ?n (token_params md tok)) c = (None, ?c1)"
    by (simp add: query_def Let_def upsert_step_def)
  from Cons.prems(2) have "list_all (\<lambda>tok. map_of (token_tables ?w1) (tableName (symbol tok)) \<noteq> None) toks"
    by (simp add: upsert_step_def map_of_modify_table_None)
  from Cons.IH [OF _ this, of ?c1] obtain c' where
    "store_tokens cast (\<lambda>n. False) md toks ?c1 = (None, c')"
    "txn c' = InTransaction (?w1\<lparr> token_tables := fold (upsert_step cast md) toks (token_tables ?w1) \<rparr>)"
    "committed c' = committed ?c1"
    by auto
  with q show ?case by simp
qed

lemma query_rollback_committed: "committed (snd (query cast faults ROLLBACK c)) = committed c"
  by (simp add: query_def Let_def split: txn_state.splits)

lemma storeMetrics_try_ok:
  assumes "txn c0 = Idle" and "storeMetrics_try cast faults md c0 = (None, c)"
  shows "tables_exist md (committed c0) \<and> committed c = written cast md (committed c0)"
proof -
  let ?db = "committed c0"
  from assms(2) obtain c1 c2 c3 where
    b: "query cast faults BEGIN c0 = (None, c1)"
    and m: "query cast faults (UpsertMarket (market_params md)) c1 = (None, c2)"
    and t: "store_tokens cast faults md (tokenMetrics md) c2 = (None, c3)"
    and k: "query cast faults COMMIT c3 = (None, c)"
    by (auto simp add: storeMetrics_try_def split: prod.splits option.splits)
  from b assms(1) have t1: "txn c1 = InTransaction ?db"
    by (auto simp add: query_def Let_def split: if_splits)
  from m t1 obtain rows where rows: "market_table ?db = Some rows"
    and t2: "txn c2 = InTransaction (?db\<lparr> market_table := Some (upsert_market (market_columns cast (market_params md)) rows) \<rparr>)"
    by (auto simp add: query_def Let_def split: if_splits option.splits)
  from store_tokens_ok [OF t2 t] have
    ex: "list_all (\<lambda>tok. map_of (token_tables ?db) (tableName (symbol tok)) \<noteq> None) (tokenMetrics md)"
    and t3: "txn c3 = InTransaction (written cast md ?db)"
    by (simp_all add: written_def rows)
  from k t3 have "committed c = written cast md ?db"
    by (auto simp add: query_def Let_def split: if_splits)
  with ex rows show ?thesis by (simp add: tables_exist_def)
qed

lemma storeMetrics_try_fail:
  assumes "txn c0 = Idle" and "storeMetrics_try cast faults md c0 = (Some e, c)"
  shows "committed c = committed c0"
proof (cases "query cast faults BEGIN c0")
  case b: (Pair r1 c1)
  show ?thesis
  proof (cases r1)
    case (Some e1)
    with b assms show ?thesis
      by (auto simp add: storeMetrics_try_def query_def Let_def split: if_splits)
  next
    case None
    with b assms(1) have t1: "txn c1 = InTransaction (committed c0)" and k1: "committed c1 = committed c0"
      by (auto simp add: query_def Let_def split: if_splits)
    show ?thesis
    proof (cases "query cast faults (UpsertMarket (market_params md)) c1")
      case m: (Pair r2 c2)
      show ?thesis
      proof (cases r2)
        case (Some e2)
        with b None m assms(2) have "c = c2" by (simp add: storeMetrics_try_def)
        with m t1 k1 show ?thesis
          by (auto simp add: query_def Let_def split: if_splits option.splits)
      next
        case n2: None
        with m t1 k1 obtain w2 where t2: "txn c2 = InTransaction w2" and k2: "committed c2 = committed c0"
          by (auto simp add: query_def Let_def split: if_splits option.splits)
        show ?thesis
        proof (cases "store_tokens cast faults md (tokenMetrics md) c2")
          case s: (Pair r3 c3)
          show ?thesis
          proof (cases r3)
            case (Some e3)
            with b None m n2 s assms(2) have "c = c3" by (simp add: storeMetrics_try_def)
            with store_tokens_fail [OF t2] s Some k2 show ?thesis by simp
          next
            case n3: None
            from store_tokens_ok [OF t2] s n3 obtain w3 where
              t3: "txn c3 = InTransaction w3" and k3: "committed c3 = committed c2" by blast
            from b None m n2 s n3 assms(2) have "query cast faults COMMIT c3 = (Some e, c)"
              by (simp add: storeMetrics_try_def)
            with t3 k3 k2 show ?thesis
              by (auto simp add: query_def Let_def split: if_splits)
          qed
        qed
      qed
    qed
  qed
qed

lemma storeMetrics_try_no_fault:
  assumes "txn c0 = Idle" and "tables_exist md (committed c0)"
  shows "\<exists>c. storeMetrics_try cast (\<lambda>n. False) md c0 = (None, c) \<and> committed c = written cast md (committed c0)"
proof -
  let ?db = "committed c0"
  from assms(2) obtain rows where rows: "market_table ?db = Some rows"
    and ex: "list_all (\<lambda>tok. map_of (token_tables ?db) (tableName (symbol tok)) \<noteq> None) (tokenMetrics md)"
    by (auto simp add: tables_exist_def)
  let ?c1 = "c0\<lparr> issued := issued c0 + 1, txn := InTransaction ?db \<rparr>"
  let ?w2 = "?db\<lparr> market_table := Some (upsert_market (market_columns cast (market_params md)) rows) \<rparr>"
  let ?c2 = "?c1\<lparr> issued := issued ?c1 + 1, txn := InTransaction ?w2 \<rparr>"
  have b: "query cast (\<lambda>n. False) BEGIN c0 = (None, ?c1)"
    using assms(1) by (simp add: query_def Let_def)
  have m: "query cast (\<lambda>n. False) (UpsertMarket (market_params md)) ?c1 = (None, ?c2)"
    using rows by (simp add: query_def Let_def)
  have t2: "txn ?c2 = InTransaction ?w2" by simp
  from ex have "list_all (\<lambda>tok. map_of (token_tables ?w2) (tableName (symbol tok)) \<noteq> None) (tokenMetrics md)"
    by simp
  from store_tokens_no_fault [OF t2 this, of cast md] obtain c3 where
    s: "store_tokens cast (\<lambda>n. False) md (tokenMetrics md) ?c2 = (None, c3)"
    and t3: "txn c3 = InTransaction (?w2\<lparr> token_tables := fold (upsert_step cast md) (tokenMetrics md) (token_tables ?w2) \<rparr>)"
    by blast
  from t3 have t3': "txn c3 = InTransaction (written cast md ?db)"
    by (simp add: written_def rows)
  let ?c = "c3\<lparr> issued := issued c3 + 1, committed := written cast md ?db, txn := Idle \<rparr>"
  from t3' have k: "query cast (\<lambda>n. False) COMMIT c3 = (None, ?c)"
    by (simp add: query_def Let_def)
  from b m s k have "storeMetrics_try cast (\<lambda>n. False) md c0 = (None, ?c)"
    by (simp add: storeMetrics_try_def)
  then show ?thesis by simp
qed

lemma storeMetrics_ok:
  assumes "storeMetrics cast faults md db = (Inr u, db')"
  shows "tables_exist md db \<and> db' = written cast md db"
proof -
  let ?c0 = "\<lparr> committed = db, txn = Idle, issued = 0 \<rparr>"
  from assms obtain c where "storeMetrics_try cast faults md ?c0 = (None, c)" and "db' = committed c"
    by (auto simp add: storeMetrics_def Let_def split: prod.splits option.splits)
  with storeMetrics_try_ok [of ?c0 cast faults md c] show ?thesis by simp
qed

lemma storeMetrics_fail:
  assumes "storeMetrics cast faults md db = (Inl e, db')"
  shows "db' = db"
proof -
  let ?c0 = "\<lparr> committed = db, txn = Idle, issued = 0 \<rparr>"
  from assms obtain e0 c where t: "storeMetrics_try cast faults md ?c0 = (Some e0, c)"
    and d: "db' = committed (snd (query cast faults ROLLBACK c))"
    by (auto simp add: storeMetrics_def Let_def split: prod.splits option.splits)
  from storeMetrics_try_fail [OF _ t] have "committed c = db" by simp
  with d show ?thesis by (simp add: query_rollback_committed)
qed

lemma storeMetrics_no_fault_ok:
  assumes "tables_exist md db"
  shows "storeMetrics cast (\<lambda>n. False) md db = (Inr (), written cast md db)"
proof -
  let ?c0 = "\<lparr> committed = db, txn = Idle, issued = 0 \<rparr>"
  from storeMetrics_try_no_fault [of ?c0 md cast] assms obtain c where
    "storeMetrics_try cast (\<lambda>n. False) md ?c0 = (None, c)" "committed c = written cast md db"
    by auto
  then show ?thesis by (simp add: storeMetrics_def Let_def)
qed

lemma storeMetrics_cases:
  "(\<exists>e. storeMetrics cast faults md db = (Inl e, db))
   \<or> (storeMetrics cast faults md db = (Inr (), written cast md db) \<and> tables_exist md db)"
proof (cases "storeMetrics cast faults md db")
  case (Pair r db')
  show ?thesis
  proof (cases r)
    case (Inl e)
    with Pair storeMetrics_fail [of cast faults md db e db'] show ?thesis by simp
  next
    case (Inr u)
    with Pair storeMetrics_ok [of cast faults md db u db'] show ?thesis by simp
  qed
qed

subsubsection \<open>Rows of one table\<close>

lemma do_update_market_simps:
  "do_update_market p (do_update_market q r) = do_update_market p r"
  "do_update_market p p = p"
  "m_block_number (do_update_market p r) = m_block_number r"
  "m_network (do_update_market p r) = m_network r"
  by (simp_all add: do_update_market_def)

lemma do_update_token_simps:
  "do_update_token p (do_update_token q r) = do_update_token p r"
  "do_update_token p p = p"
  "t_block_number (do_update_token p r) = t_block_number r"
  "t_token_name (do_update_token p r) = t_token_name r"
  by (simp_all add: do_update_token_def)

lemma upsert_market_blocks:
  "set (map m_block_number (upsert_market new rows)) = insert (m_block_number new) (set (map m_block_number rows))"
  by (induction rows) (auto simp add: do_update_market_simps)

lemma upsert_token_blocks:
  "set (map t_block_number (upsert_token new rows)) = insert (t_block_number new) (set (map t_block_number rows))"
  by (induction rows) (auto simp add: do_update_token_simps)

lemma upsert_market_twice: "upsert_market new (upsert_market new rows) = upsert_market new rows"
  by (induction rows) (auto simp add: do_update_market_simps)

lemma upsert_token_twice: "upsert_token new (upsert_token new rows) = upsert_token new rows"
  by (induction rows) (auto simp add: do_update_token_simps)

text \<open>
  The row of the block after an upsert: the new row where the table had none for the
  block, and otherwise the first row of the block with the columns of the \<open>SET\<close> list
  replaced; the rows of other blocks stay as they are.
\<close>

lemma upsert_market_others:
  "m_block_number new = b \<Longrightarrow>
   filter (\<lambda>x. m_block_number x \<noteq> b) (upsert_market new rows) = filter (\<lambda>x. m_block_number x \<noteq> b) rows"
  by (induction rows) (auto simp add: do_update_market_simps)

lemma upsert_market_member:
  "m_block_number new = b \<Longrightarrow>
   (case find (\<lambda>x. m_block_number x = b) rows of
      None \<Rightarrow> new | Some r0 \<Rightarrow> do_update_market new r0) \<in> set (upsert_market new rows)"
  by (induction rows) auto

lemma upsert_market_only:
  "m_block_number new = b \<Longrightarrow> distinct (map m_block_number rows) \<Longrightarrow>
   filter (\<lambda>x. m_block_number x = b) (upsert_market new rows) =
     [case find (\<lambda>x. m_block_number x = b) rows of
        None \<Rightarrow> new | Some r0 \<Rightarrow> do_update_market new r0]"
proof (induction rows)
  case Nil
  then show ?case by simp
next
  case (Cons r rows)
  show ?case
  proof (cases "m_block_number r = b")
    case True
    with Cons.prems have "\<forall>x \<in> set rows. m_block_number x \<noteq> b"
      by (metis distinct.simps(2) imageI list.simps(9) list.set_map)
    then have "filter (\<lambda>x. m_block_number x = b) rows = []"
      by (simp add: filter_empty_conv)
    with True Cons.prems(1) show ?thesis by (simp add: do_update_market_simps)
  next
    case False
    with Cons show ?thesis by simp
  qed
qed

lemma upsert_token_others:
  "t_block_number new = b \<Longrightarrow>
   filter (\<lambda>x. t_block_number x \<noteq> b) (upsert_token new rows) = filter (\<lambda>x. t_block_number x \<noteq> b) rows"
  by (induction rows) (auto simp add: do_update_token_simps)

lemma upsert_token_member:
  "t_block_number new = b \<Longrightarrow>
   (case find (\<lambda>x. t_block_number x = b) rows of
      None \<Rightarrow> new | Some r0 \<Rightarrow> do_update_token new r0) \<in> set (upsert_token new rows)"
  by (induction rows) auto

lemma upsert_token_only:
  "t_block_number new = b \<Longrightarrow> distinct (map t_block_number rows) \<Longrightarrow>
   filter (\<lambda>x. t_block_number x = b) (upsert_token new rows) =
     [case find (\<lambda>x. t_block_number x = b) rows of
        None \<Rightarrow> new | Some r0 \<Rightarrow> do_update_token new r0]"
proof (induction rows)
  case Nil
  then show ?case by simp
next
  case (Cons r rows)
  show ?case
  proof (cases "t_block_number r = b")
    case True
    with Cons.prems have "\<forall>x \<in> set rows. t_block_number x \<noteq> b"
      by (metis distinct.simps(2) imageI list.simps(9) list.set_map)
    then have "filter (\<lambda>x. t_block_number x = b) rows = []"
      by (simp add: filter_empty_conv)
    with True Cons.prems(1) show ?thesis by (simp add: do_update_token_simps)
  next
    case False
    with Cons show ?thesis by simp
  qed
qed

text \<open>Several upserts of rows of the same block into one table.\<close>

lemma find_block_None:
  "(find (\<lambda>x. t_block_number x = b) rows = None) = (b \<notin> t_block_number ` set rows)"
  by (auto simp add: find_None_iff)

lemma upsert_token_absent:
  "t_block_number new \<notin> t_block_number ` set rows \<Longrightarrow> upsert_token new rows = rows @ [new]"
  by (induction rows) auto

lemma upsert_token_over:
  "t_block_number p = t_block_number q \<Longrightarrow> t_block_number q \<in> t_block_number ` set rows \<Longrightarrow>
   upsert_token p (upsert_token q rows) = upsert_token p rows"
  by (induction rows) (auto simp add: do_update_token_simps)

lemma upsert_token_appended:
  "t_block_number q \<notin> t_block_number ` set rows \<Longrightarrow> t_block_number p = t_block_number q \<Longrightarrow>
   upsert_token p (rows @ [q]) = rows @ [do_update_token p q]"
  by (induction rows) auto

lemma fold_upsert_token:
  assumes "ps \<noteq> []" and "\<forall>p \<in> set ps. t_block_number p = b"
  shows "fold upsert_token ps rows =
     (if b \<in> t_block_number ` set rows then upsert_token (last ps) rows
      else rows @ [do_update_token (last ps) (hd ps)])"
  using assms
proof (induction ps arbitrary: rows)
  case Nil
  then show ?case by simp
next
  case (Cons p ps)
  from Cons.prems have pb: "t_block_number p = b" by simp
  show ?case
  proof (cases "ps = []")
    case True
    with pb show ?thesis
      by (simp add: upsert_token_absent do_update_token_simps)
  next
    case False
    from Cons.prems have all: "\<forall>p \<in> set ps. t_block_number p = b" by simp
    then have lb: "t_block_number (last ps) = b" using False by simp
    have "b \<in> t_block_number ` set (upsert_token p rows)"
      using upsert_token_blocks [of p rows] pb by auto
    with Cons.IH [OF False all, of "upsert_token p rows"]
    have step: "fold upsert_token (p # ps) rows = upsert_token (last ps) (upsert_token p rows)"
      by simp
    show ?thesis
    proof (cases "b \<in> t_block_number ` set rows")
      case True
      with step False pb lb show ?thesis
        by (simp add: upsert_token_over)
    next
      case absent: False
      with pb have "upsert_token p rows = rows @ [p]"
        by (simp add: upsert_token_absent)
      with step absent False pb lb show ?thesis
        by (simp add: upsert_token_appended)
    qed
  qed
qed

lemma fold_upsert_token_twice:
  assumes "\<forall>p \<in> set ps. t_block_number p = b"
  shows "fold upsert_token ps (fold upsert_token ps rows) = fold upsert_token ps rows"
proof (cases "ps = []")
  case True
  then show ?thesis by simp
next
  case False
  from assms False have lb: "t_block_number (last ps) = b" and hb: "t_block_number (hd ps) = b"
    by simp_all
  let ?rows1 = "fold upsert_token ps rows"
  show ?thesis
  proof (cases "b \<in> t_block_number ` set rows")
    case True
    then have r1: "?rows1 = upsert_token (last ps) rows"
      by (simp add: fold_upsert_token [OF False assms])
    have "b \<in> t_block_number ` set ?rows1"
      unfolding r1 using upsert_token_blocks [of "last ps" rows] lb by auto
    then have "fold upsert_token ps ?rows1 = upsert_token (last ps) ?rows1"
      by (simp add: fold_upsert_token [OF False assms])
    then show ?thesis by (simp add: r1 upsert_token_twice)
  next
    case absent: False
    then have r1: "?rows1 = rows @ [do_update_token (last ps) (hd ps)]"
      by (simp add: fold_upsert_token [OF False assms])
    have "b \<in> t_block_number ` set ?rows1"
      unfolding r1 using hb by (simp add: do_update_token_simps)
    then have "fold upsert_token ps ?rows1 = upsert_token (last ps) ?rows1"
      by (simp add: fold_upsert_token [OF False assms])
    also have "\<dots> = rows @ [do_update_token (last ps) (do_update_token (last ps) (hd ps))]"
      unfolding r1 using absent lb hb
      by (intro upsert_token_appended) (simp_all add: do_update_token_simps)
    finally show ?thesis by (simp add: r1 do_update_token_simps)
  qed
qed

text \<open>
  The row of the block after the loop has upserted the rows \<open>ps\<close> into a table: the
  first row of the block, or the first of \<open>ps\<close> where there was none, with the columns of
  the \<open>SET\<close> list taken from the last of \<open>ps\<close>.
\<close>

lemma fold_upsert_token_row:
  fixes ps rows :: "token_row list" and b :: int
  assumes ne: "ps \<noteq> []" and blocks: "\<forall>p \<in> set ps. t_block_number p = b"
  defines "r \<equiv> do_update_token (last ps)
      (case find (\<lambda>x. t_block_number x = b) rows of None \<Rightarrow> hd ps | Some r0 \<Rightarrow> r0)"
  shows "r \<in> set (fold upsert_token ps rows)"
    and "filter (\<lambda>x. t_block_number x \<noteq> b) (fold upsert_token ps rows)
          = filter (\<lambda>x. t_block_number x \<noteq> b) rows"
    and "distinct (map t_block_number rows) \<Longrightarrow>
          filter (\<lambda>x. t_block_number x = b) (fold upsert_token ps rows) = [r]"
proof -
  from ne blocks have lb: "t_block_number (last ps) = b" and hb: "t_block_number (hd ps) = b"
    by simp_all
  let ?rows1 = "fold upsert_token ps rows"
  have all: "r \<in> set ?rows1
    \<and> filter (\<lambda>x. t_block_number x \<noteq> b) ?rows1 = filter (\<lambda>x. t_block_number x \<noteq> b) rows
    \<and> (distinct (map t_block_number rows) \<longrightarrow> filter (\<lambda>x. t_block_number x = b) ?rows1 = [r])"
  proof (cases "b \<in> t_block_number ` set rows")
    case True
    then have r1: "?rows1 = upsert_token (last ps) rows"
      by (simp add: fold_upsert_token [OF ne blocks])
    from True obtain r0 where f: "find (\<lambda>x. t_block_number x = b) rows = Some r0"
      using find_block_None [of b rows] by auto
    from upsert_token_member [OF lb, of rows] upsert_token_others [OF lb, of rows]
      upsert_token_only [OF lb, of rows]
    show ?thesis by (simp add: r1 r_def f)
  next
    case False
    then have r1: "?rows1 = rows @ [do_update_token (last ps) (hd ps)]"
      by (simp add: fold_upsert_token [OF ne blocks])
    from False have f: "find (\<lambda>x. t_block_number x = b) rows = None"
      by (simp add: find_block_None)
    from False have "\<forall>x \<in> set rows. t_block_number x \<noteq> b"
      by (metis imageI)
    then have "filter (\<lambda>x. t_block_number x = b) rows = []"
      "filter (\<lambda>x. t_block_number x \<noteq> b) rows = rows"
      by (simp_all add: filter_empty_conv filter_id_conv)
    with hb show ?thesis by (simp add: r1 r_def f do_update_token_simps)
  qed
  from all show "r \<in> set ?rows1" by blast
  from all show "filter (\<lambda>x. t_block_number x \<noteq> b) ?rows1 = filter (\<lambda>x. t_block_number x \<noteq> b) rows"
    by blast
  from all show "distinct (map t_block_number rows) \<Longrightarrow>
      filter (\<lambda>x. t_block_number x = b) ?rows1 = [r]"
    by blast
qed

subsubsection \<open>The loop over the tokens, on the tables\<close>

lemma fold_step_None:
  "(map_of (fold (upsert_step cast md) toks ts) k = None) = (map_of ts k = None)"
  by (induction toks arbitrary: ts) (simp_all add: upsert_step_def map_of_modify_table_None)

lemma fold_step_as_map:
  "fold (upsert_step cast md) toks ts =
     tables_map (\<lambda>k. fold upsert_token
        (map (\<lambda>tok. token_columns cast (token_params md tok))
          (filter (\<lambda>tok. tableName (symbol tok) = k) toks))) ts"
proof (induction toks arbitrary: ts)
  case Nil
  have "(\<lambda>k. fold upsert_token
        (map (\<lambda>tok. token_columns cast (token_params md tok))
          (filter (\<lambda>tok. tableName (symbol tok) = k) []))) = (\<lambda>k rows. rows)"
    by (simp add: fun_eq_iff)
  then show ?case by (simp only: tables_map_id fold_simps)
next
  case (Cons t toks)
  let ?row = "\<lambda>tok. token_columns cast (token_params md tok)"
  let ?G = "\<lambda>toks k. fold upsert_token (map ?row (filter (\<lambda>tok. tableName (symbol tok) = k) toks))"
  have "fold (upsert_step cast md) (t # toks) ts
      = tables_map (?G toks) (modify_table (tableName (symbol t)) (upsert_token (?row t)) ts)"
    by (simp add: Cons.IH upsert_step_def)
  also have "\<dots> = tables_map
      (\<lambda>k rows. ?G toks k ((if k = tableName (symbol t) then upsert_token (?row t) else (\<lambda>rows. rows)) rows))
      ts"
    by (simp only: modify_table_as_map tables_map_comp)
  also have "(\<lambda>k rows. ?G toks k ((if k = tableName (symbol t) then upsert_token (?row t) else (\<lambda>rows. rows)) rows))
      = ?G (t # toks)"
    by (auto simp add: fun_eq_iff)
  finally show ?case .
qed

lemma written_tables:
  "token_tables (written cast md db)
     = tables_map (\<lambda>k. fold upsert_token (table_rows cast md k)) (token_tables db)"
  "market_table (written cast md db)
     = map_option (upsert_market (market_columns cast (market_params md))) (market_table db)"
  by (simp_all add: written_def fold_step_as_map table_rows_def)

lemma written_table:
  "map_of (token_tables (written cast md db)) n
     = map_option (fold upsert_token (table_rows cast md n)) (map_of (token_tables db) n)"
  by (simp add: written_tables map_of_tables_map)

lemma table_rows_block: "\<forall>p \<in> set (table_rows cast md n). t_block_number p = blockNumber md"
  by (simp add: table_rows_def token_columns_def token_params_def)

lemma table_rows_empty:
  "n \<notin> (\<lambda>tok. tableName (symbol tok)) ` set (tokenMetrics md) \<Longrightarrow> table_rows cast md n = []"
  by (auto simp add: table_rows_def filter_empty_conv)

lemma table_rows_of_token:
  assumes "tok \<in> set (tokenMetrics md)"
  defines "same \<equiv> filter (\<lambda>t. tableName (symbol t) = tableName (symbol tok)) (tokenMetrics md)"
  shows "table_rows cast md (tableName (symbol tok)) \<noteq> []"
    and "hd (table_rows cast md (tableName (symbol tok))) = token_columns cast (token_params md (hd same))"
    and "last (table_rows cast md (tableName (symbol tok))) = token_columns cast (token_params md (last same))"
proof -
  from assms(1) have "tok \<in> set same" by (simp add: same_def)
  then have ne: "same \<noteq> []" by auto
  then show "table_rows cast md (tableName (symbol tok)) \<noteq> []"
    by (simp add: table_rows_def same_def)
  from ne show "hd (table_rows cast md (tableName (symbol tok))) = token_columns cast (token_params md (hd same))"
    by (simp add: table_rows_def same_def hd_map)
  from ne show "last (table_rows cast md (tableName (symbol tok))) = token_columns cast (token_params md (last same))"
    by (simp add: table_rows_def same_def last_map)
qed

lemma written_elsewhere:
  "filter (\<lambda>(k, rows). k \<notin> (\<lambda>tok. tableName (symbol tok)) ` set (tokenMetrics md))
      (token_tables (written cast md db))
   = filter (\<lambda>(k, rows). k \<notin> (\<lambda>tok. tableName (symbol tok)) ` set (tokenMetrics md))
      (token_tables db)"
  unfolding written_tables
  by (rule tables_map_elsewhere) (simp add: table_rows_empty)

lemma written_twice: "written cast md (written cast md db) = written cast md db"
proof -
  let ?G = "\<lambda>k. fold upsert_token (table_rows cast md k)"
  have "(\<lambda>k rows. ?G k (?G k rows)) = ?G"
    using fold_upsert_token_twice [OF table_rows_block] by (simp add: fun_eq_iff)
  then have t: "tables_map ?G (tables_map ?G (token_tables db)) = tables_map ?G (token_tables db)"
    by (simp only: tables_map_comp)
  have m: "map_option (upsert_market (market_columns cast (market_params md)))
        (map_option (upsert_market (market_columns cast (market_params md))) (market_table db))
      = map_option (upsert_market (market_columns cast (market_params md))) (market_table db)"
    by (cases "market_table db") (simp_all add: upsert_market_twice)
  have "written cast md (written cast md db)
      = (written cast md db)\<lparr> market_table := market_table (written cast md (written cast md db)),
            token_tables := token_tables (written cast md (written cast md db)) \<rparr>"
    by (simp add: written_def)
  also have "\<dots> = (written cast md db)\<lparr> market_table := market_table (written cast md db),
            token_tables := token_tables (written cast md db) \<rparr>"
    by (simp only: written_tables t m)
  finally show ?thesis by simp
qed

lemma tables_exist_written: "tables_exist md (written cast md db) = tables_exist md db"
  by (cases "market_table db") (simp_all add: tables_exist_def written_def fold_step_None)

lemma written_keys: "map fst (token_tables (written cast md db)) = map fst (token_tables db)"
  by (simp add: written_tables tables_map_keys)

subsubsection \<open>The primary keys\<close>

lemma upsert_market_keys:
  "map m_block_number (upsert_market new rows) =
     (if m_block_number new \<in> set (map m_block_number rows) then map m_block_number rows
      else map m_block_number rows @ [m_block_number new])"
  by (induction rows) (auto simp add: do_update_market_simps)

lemma upsert_token_keys:
  "map t_block_number (upsert_token new rows) =
     (if t_block_number new \<in> set (map t_block_number rows) then map t_block_number rows
      else map t_block_number rows @ [t_block_number new])"
  by (induction rows) (auto simp add: do_update_token_simps)

lemma upsert_token_distinct:
  "distinct (map t_block_number rows) \<Longrightarrow> distinct (map t_block_number (upsert_token new rows))"
  by (simp only: upsert_token_keys) simp

lemma upsert_market_distinct:
  "distinct (map m_block_number rows) \<Longrightarrow> distinct (map m_block_number (upsert_market new rows))"
  by (simp only: upsert_market_keys) simp

lemma modify_table_all:
  "list_all (\<lambda>(n, rows). P rows) ts \<Longrightarrow> (\<And>rows. P rows \<Longrightarrow> P (f rows)) \<Longrightarrow>
   list_all (\<lambda>(n, rows). P rows) (modify_table n f ts)"
  by (induction ts) auto

lemma fold_step_primary_key:
  "list_all (\<lambda>(n, rows). distinct (map t_block_number rows)) ts \<Longrightarrow>
   list_all (\<lambda>(n, rows). distinct (map t_block_number rows)) (fold (upsert_step cast md) toks ts)"
proof (induction toks arbitrary: ts)
  case Nil
  then show ?case by simp
next
  case (Cons tok toks)
  from Cons.prems have "list_all (\<lambda>(n, rows). distinct (map t_block_number rows)) (upsert_step cast md tok ts)"
    unfolding upsert_step_def by (rule modify_table_all) (rule upsert_token_distinct)
  from Cons.IH [OF this] show ?case by simp
qed

lemma primary_key_ok_written: "primary_key_ok db \<Longrightarrow> primary_key_ok (written cast md db)"
  by (cases "market_table db")
    (simp_all add: primary_key_ok_def written_def fold_step_primary_key upsert_market_distinct)

lemma primary_key_ok_storeMetrics:
  "primary_key_ok db \<Longrightarrow> primary_key_ok (snd (storeMetrics cast faults md db))"
  using storeMetrics_cases [of cast faults md db] by (auto simp add: primary_key_ok_written)

subsubsection \<open>Creating the tables\<close>

lemma create_token_table_no_fault:
  assumes "txn c = Idle"
  shows "\<exists>c'. query cast (\<lambda>n. False) (CreateTokenTable n) c = (None, c') \<and> txn c' = Idle
     \<and> market_table (committed c') = market_table (committed c)
     \<and> map_of (token_tables (committed c')) n \<noteq> None
     \<and> (\<forall>k. map_of (token_tables (committed c)) k \<noteq> None
            \<longrightarrow> map_of (token_tables (committed c')) k \<noteq> None)"
  using assms
  by (cases "map_of (token_tables (committed c)) n") (auto simp add: query_def Let_def map_add_def)

lemma create_token_tables_no_fault:
  "txn c = Idle \<Longrightarrow>
   \<exists>c'. create_token_tables cast (\<lambda>n. False) symbs c = (None, c') \<and> txn c' = Idle
     \<and> market_table (committed c') = market_table (committed c)
     \<and> (\<forall>s \<in> set symbs. map_of (token_tables (committed c')) (tableName s) \<noteq> None)
     \<and> (\<forall>k. map_of (token_tables (committed c)) k \<noteq> None
            \<longrightarrow> map_of (token_tables (committed c')) k \<noteq> None)"
proof (induction symbs arbitrary: c)
  case Nil
  then show ?case by simp
next
  case (Cons s symbs)
  from create_token_table_no_fault [OF Cons.prems, where n = "tableName s" and cast = cast] obtain c1 where
    q: "query cast (\<lambda>n. False) (CreateTokenTable (tableName s)) c = (None, c1)" and i: "txn c1 = Idle"
    and m: "market_table (committed c1) = market_table (committed c)"
    and n: "map_of (token_tables (committed c1)) (tableName s) \<noteq> None"
    and k: "\<forall>k. map_of (token_tables (committed c)) k \<noteq> None
            \<longrightarrow> map_of (token_tables (committed c1)) k \<noteq> None"
    by blast
  from Cons.IH [OF i] obtain c' where
    r: "create_token_tables cast (\<lambda>n. False) symbs c1 = (None, c')" and i': "txn c' = Idle"
    and m': "market_table (committed c') = market_table (committed c1)"
    and n': "\<forall>s \<in> set symbs. map_of (token_tables (committed c')) (tableName s) \<noteq> None"
    and k': "\<forall>k. map_of (token_tables (committed c1)) k \<noteq> None
            \<longrightarrow> map_of (token_tables (committed c')) k \<noteq> None"
    by blast
  from q r have "create_token_tables cast (\<lambda>n. False) (s # symbs) c = (None, c')" by simp
  with i' m m' n n' k k' show ?case by auto
qed

lemma initializeDatabase_no_fault:
  "\<exists>db'. initializeDatabase cast (\<lambda>n. False) (Some symbs) db = (Inr (), db')
     \<and> market_table db' \<noteq> None
     \<and> (\<forall>s \<in> set symbs. map_of (token_tables db') (tableName s) \<noteq> None)"
proof -
  let ?c0 = "\<lparr> committed = db, txn = Idle, issued = 0 \<rparr>"
  obtain c1 where q: "query cast (\<lambda>n. False) CreateMarketTable ?c0 = (None, c1)" and i: "txn c1 = Idle"
    and m: "market_table (committed c1) \<noteq> None"
    by (cases "market_table db") (auto simp add: query_def Let_def)
  from create_token_tables_no_fault [OF i, where symbs = symbs and cast = cast] obtain c' where
    "create_token_tables cast (\<lambda>n. False) symbs c1 = (None, c')"
    "market_table (committed c') = market_table (committed c1)"
    "\<forall>s \<in> set symbs. map_of (token_tables (committed c')) (tableName s) \<noteq> None"
    by blast
  with q m show ?thesis by (simp add: initializeDatabase_def Let_def)
qed

subsubsection \<open>The rows that a call writes\<close>

lemma written_market_row:
  assumes "market_table db = Some rows0"
  shows "\<exists>rows r. market_table (written cast md db) = Some rows
     \<and> filter (\<lambda>x. m_block_number x \<noteq> blockNumber md) rows
         = filter (\<lambda>x. m_block_number x \<noteq> blockNumber md) rows0
     \<and> r \<in> set rows
     \<and> (distinct (map m_block_number rows0) \<longrightarrow>
           filter (\<lambda>x. m_block_number x = blockNumber md) rows = [r])
     \<and> r = \<lparr> m_block_number = blockNumber md, m_timestamp = timestamp md,
           m_network = (case find (\<lambda>x. m_block_number x = blockNumber md) rows0 of
                          None \<Rightarrow> network md | Some r0 \<Rightarrow> m_network r0),
           m_total_market_size = cast 36 18 (totalMarketSize md),
           m_total_borrows = cast 36 18 (totalBorrows md),
           m_average_utilization = cast 10 4 (averageUtilization md),
           m_token_count = tokenCount md \<rparr>"
proof -
  let ?new = "market_columns cast (market_params md)"
  let ?r = "case find (\<lambda>x. m_block_number x = blockNumber md) rows0 of
              None \<Rightarrow> ?new | Some r0 \<Rightarrow> do_update_market ?new r0"
  have b: "m_block_number ?new = blockNumber md"
    by (simp add: market_columns_def market_params_def)
  have rows: "market_table (written cast md db) = Some (upsert_market ?new rows0)"
    by (simp add: written_tables assms)
  have explicit: "?r = \<lparr> m_block_number = blockNumber md, m_timestamp = timestamp md,
                  m_network = (case find (\<lambda>x. m_block_number x = blockNumber md) rows0 of
                                 None \<Rightarrow> network md | Some r0 \<Rightarrow> m_network r0),
                  m_total_market_size = cast 36 18 (totalMarketSize md),
                  m_total_borrows = cast 36 18 (totalBorrows md),
                  m_average_utilization = cast 10 4 (averageUtilization md),
                  m_token_count = tokenCount md \<rparr>"
  proof (cases "find (\<lambda>x. m_block_number x = blockNumber md) rows0")
    case None
    then show ?thesis by (simp add: market_columns_def market_params_def)
  next
    case (Some r0)
    then have "m_block_number r0 = blockNumber md"
      by (auto simp add: find_Some_iff)
    with Some show ?thesis
      by (cases r0) (simp add: do_update_market_def market_columns_def market_params_def)
  qed
  from upsert_market_member [OF b, of rows0] upsert_market_others [OF b, of rows0]
    upsert_market_only [OF b, of rows0] rows
  have "market_table (written cast md db) = Some (upsert_market ?new rows0)
     \<and> filter (\<lambda>x. m_block_number x \<noteq> blockNumber md) (upsert_market ?new rows0)
         = filter (\<lambda>x. m_block_number x \<noteq> blockNumber md) rows0
     \<and> ?r \<in> set (upsert_market ?new rows0)
     \<and> (distinct (map m_block_number rows0) \<longrightarrow>
           filter (\<lambda>x. m_block_number x = blockNumber md) (upsert_market ?new rows0) = [?r])"
    by blast
  with explicit show ?thesis by metis
qed

lemma written_token_row:
  assumes tok: "tok \<in> set (tokenMetrics md)"
    and rows0: "map_of (token_tables db) (tableName (symbol tok)) = Some rows0"
  shows "\<exists>rows r first_tok last_tok.
       map_of (token_tables (written cast md db)) (tableName (symbol tok)) = Some rows
     \<and> filter (\<lambda>x. t_block_number x \<noteq> blockNumber md) rows
         = filter (\<lambda>x. t_block_number x \<noteq> blockNumber md) rows0
     \<and> first_tok = hd (filter (\<lambda>t. tableName (symbol t) = tableName (symbol tok)) (tokenMetrics md))
     \<and> last_tok = last (filter (\<lambda>t. tableName (symbol t) = tableName (symbol tok)) (tokenMetrics md))
     \<and> r \<in> set rows
     \<and> (distinct (map t_block_number rows0) \<longrightarrow>
           filter (\<lambda>x. t_block_number x = blockNumber md) rows = [r])
     \<and> r = \<lparr> t_block_number = blockNumber md, t_timestamp = timestamp md,
           t_token_name = (case find (\<lambda>x. t_block_number x = blockNumber md) rows0 of
                             None \<Rightarrow> token first_tok | Some r0 \<Rightarrow> t_token_name r0),
           t_price_usd = cast 36 18 (priceInUSD last_tok),
           t_total_supplied = cast 36 18 (totalSupplied last_tok),
           t_total_supplied_usd = cast 36 18 (totalSuppliedUSD last_tok),
           t_total_borrowed = cast 36 18 (totalBorrowed last_tok),
           t_total_borrowed_usd = cast 36 18 (totalBorrowedUSD last_tok),
           t_utilization_rate = cast 10 4 (utilizationRate last_tok),
           t_supply_apy = cast 10 4 (supplyAPY last_tok),
           t_borrow_apy = cast 10 4 (variableBorrowAPY last_tok),
           t_reserve_factor = cast 10 4 (reserveFactor last_tok),
           t_liquidation_threshold = cast 10 4 (liquidationThreshold last_tok),
           t_borrow_enabled = borrowEnabled last_tok,
           t_supply_cap = (if supplyCap last_tok = Infinity then None else Some (cast 36 18 (supplyCap last_tok))),
           t_borrow_cap = (if borrowCap last_tok = Infinity then None else Some (cast 36 18 (borrowCap last_tok))) \<rparr>"
proof -
  let ?n = "tableName (symbol tok)"
  let ?ps = "table_rows cast md ?n"
  let ?same = "filter (\<lambda>t. tableName (symbol t) = tableName (symbol tok)) (tokenMetrics md)"
  let ?h = "hd ?same" and ?l = "last ?same"
  let ?r = "do_update_token (last ?ps)
      (case find (\<lambda>x. t_block_number x = blockNumber md) rows0 of None \<Rightarrow> hd ?ps | Some r0 \<Rightarrow> r0)"
  from table_rows_of_token [OF tok, of cast] have ne: "?ps \<noteq> []"
    and hd: "hd ?ps = token_columns cast (token_params md ?h)"
    and last: "last ?ps = token_columns cast (token_params md ?l)"
    by simp_all
  have rows: "map_of (token_tables (written cast md db)) ?n = Some (fold upsert_token ?ps rows0)"
    by (simp add: written_table rows0)
  have explicit: "?r = \<lparr> t_block_number = blockNumber md, t_timestamp = timestamp md,
                  t_token_name = (case find (\<lambda>x. t_block_number x = blockNumber md) rows0 of
                                    None \<Rightarrow> token ?h | Some r0 \<Rightarrow> t_token_name r0),
                  t_price_usd = cast 36 18 (priceInUSD ?l),
                  t_total_supplied = cast 36 18 (totalSupplied ?l),
                  t_total_supplied_usd = cast 36 18 (totalSuppliedUSD ?l),
                  t_total_borrowed = cast 36 18 (totalBorrowed ?l),
                  t_total_borrowed_usd = cast 36 18 (totalBorrowedUSD ?l),
                  t_utilization_rate = cast 10 4 (utilizationRate ?l),
                  t_supply_apy = cast 10 4 (supplyAPY ?l),
                  t_borrow_apy = cast 10 4 (variableBorrowAPY ?l),
                  t_reserve_factor = cast 10 4 (reserveFactor ?l),
                  t_liquidation_threshold = cast 10 4 (liquidationThreshold ?l),
                  t_borrow_enabled = borrowEnabled ?l,
                  t_supply_cap = (if supplyCap ?l = Infinity then None else Some (cast 36 18 (supplyCap ?l))),
                  t_borrow_cap = (if borrowCap ?l = Infinity then None else Some (cast 36 18 (borrowCap ?l))) \<rparr>"
  proof (cases "find (\<lambda>x. t_block_number x = blockNumber md) rows0")
    case None
    then show ?thesis
      unfolding hd last
      by (simp add: do_update_token_def token_columns_def token_params_def js_seq_def)
  next
    case (Some r0)
    then have "t_block_number r0 = blockNumber md"
      by (auto simp add: find_Some_iff)
    with Some show ?thesis
      unfolding last
      by (cases r0) (simp add: do_update_token_def token_columns_def token_params_def js_seq_def)
  qed
  from fold_upsert_token_row [OF ne table_rows_block, of rows0] rows
  have "map_of (token_tables (written cast md db)) ?n = Some (fold upsert_token ?ps rows0)
     \<and> filter (\<lambda>x. t_block_number x \<noteq> blockNumber md) (fold upsert_token ?ps rows0)
         = filter (\<lambda>x. t_block_number x \<noteq> blockNumber md) rows0
     \<and> ?r \<in> set (fold upsert_token ?ps rows0)
     \<and> (distinct (map t_block_number rows0) \<longrightarrow>
           filter (\<lambda>x. t_block_number x = blockNumber md) (fold upsert_token ?ps rows0) = [?r])"
    by blast
  with explicit show ?thesis by metis
qed

subsubsection \<open>Evaluation at the examples\<close>

lemmas eval_store = storeMetrics_def storeMetrics_try_def query_def Let_def market_params_def
  token_params_def market_columns_def token_columns_def do_update_market_def do_update_token_def
  to_numeric_def round_half_away_def tableName_def toLowerCase_def replaceNonAlnum_def js_seq_def
  indexBaseAaveMetrics_def metricsOfReserve_def ex_formatter_def ex_raw_def ex_reserve_def
  calculateTotalMarketSize_def calculateTotalBorrows_def calculateTotalAvailable_def
  calculateAverageUtilization_def js_sub_def BASE_CHAIN_ID_def eval_double

subsubsection \<open>Atomicity, repeated writes and missing tables\<close>

text \<open>
  Claim C1. \<open>storeMetrics\<close> is atomic for the block: whatever queries fail and
  whatever the conversion to \<open>NUMERIC\<close>, either the caller gets an error and the
  committed tables are exactly those from before the call, or the call returns and has
  written every row of the snapshot. In that case the market table holds the row of the
  block with the columns of the snapshot, converted to the types of the columns, and so
  does the table of every token, with the columns of that token (of the last token of
  the snapshot that the table is named after); \<open>network\<close> and \<open>token_name\<close> are those
  of the snapshot where the table had no row for the block, and those of that row
  otherwise. The rows of other blocks, the tables of other tokens and the names of the
  tables are as before.
\<close>

theorem storeMetrics_atomic:
  "(\<exists>e. storeMetrics cast faults md db = (Inl e, db))
   \<or> (\<exists>db'. storeMetrics cast faults md db = (Inr (), db')
         \<and> (\<exists>rows0 rows r. market_table db = Some rows0 \<and> market_table db' = Some rows
            \<and> filter (\<lambda>x. m_block_number x \<noteq> blockNumber md) rows
                = filter (\<lambda>x. m_block_number x \<noteq> blockNumber md) rows0
            \<and> r \<in> set rows
            \<and> r = \<lparr> m_block_number = blockNumber md, m_timestamp = timestamp md,
                  m_network = (case find (\<lambda>x. m_block_number x = blockNumber md) rows0 of
                                 None \<Rightarrow> network md | Some r0 \<Rightarrow> m_network r0),
                  m_total_market_size = cast 36 18 (totalMarketSize md),
                  m_total_borrows = cast 36 18 (totalBorrows md),
                  m_average_utilization = cast 10 4 (averageUtilization md),
                  m_token_count = tokenCount md \<rparr>)
         \<and> (\<forall>tok \<in> set (tokenMetrics md). \<exists>rows0 rows r first_tok last_tok.
              map_of (token_tables db) (tableName (symbol tok)) = Some rows0
            \<and> map_of (token_tables db') (tableName (symbol tok)) = Some rows
            \<and> filter (\<lambda>x. t_block_number x \<noteq> blockNumber md) rows
                = filter (\<lambda>x. t_block_number x \<noteq> blockNumber md) rows0
            \<and> first_tok = hd (filter (\<lambda>t. tableName (symbol t) = tableName (symbol tok)) (tokenMetrics md))
            \<and> last_tok = last (filter (\<lambda>t. tableName (symbol t) = tableName (symbol tok)) (tokenMetrics md))
            \<and> r \<in> set rows
            \<and> r = \<lparr> t_block_number = blockNumber md, t_timestamp = timestamp md,
                  t_token_name = (case find (\<lambda>x. t_block_number x = blockNumber md) rows0 of
                                    None \<Rightarrow> token first_tok | Some r0 \<Rightarrow> t_token_name r0),
                  t_price_usd = cast 36 18 (priceInUSD last_tok),
                  t_total_supplied = cast 36 18 (totalSupplied last_tok),
                  t_total_supplied_usd = cast 36 18 (totalSuppliedUSD last_tok),
                  t_total_borrowed = cast 36 18 (totalBorrowed last_tok),
                  t_total_borrowed_usd = cast 36 18 (totalBorrowedUSD last_tok),
                  t_utilization_rate = cast 10 4 (utilizationRate last_tok),
                  t_supply_apy = cast 10 4 (supplyAPY last_tok),
                  t_borrow_apy = cast 10 4 (variableBorrowAPY last_tok),
                  t_reserve_factor = cast 10 4 (reserveFactor last_tok),
                  t_liquidation_threshold = cast 10 4 (liquidationThreshold last_tok),
                  t_borrow_enabled = borrowEnabled last_tok,
                  t_supply_cap = (if supplyCap last_tok = Infinity then None else Some (cast 36 18 (supplyCap last_tok))),
                  t_borrow_cap = (if borrowCap last_tok = Infinity then None else Some (cast 36 18 (borrowCap last_tok))) \<rparr>)
         \<and> map fst (token_tables db') = map fst (token_tables db)
         \<and> filter (\<lambda>(k, rows). k \<notin> (\<lambda>tok. tableName (symbol tok)) ` set (tokenMetrics md)) (token_tables db')
             = filter (\<lambda>(k, rows). k \<notin> (\<lambda>tok. tableName (symbol tok)) ` set (tokenMetrics md)) (token_tables db))"
proof -
  from storeMetrics_cases [of cast faults md db] show ?thesis
  proof
    assume "\<exists>e. storeMetrics cast faults md db = (Inl e, db)"
    then show ?thesis by (rule disjI1)
  next
    let ?db' = "written cast md db"
    assume ok: "storeMetrics cast faults md db = (Inr (), ?db') \<and> tables_exist md db"
    then obtain rows0 where rows0: "market_table db = Some rows0"
      by (auto simp add: tables_exist_def)
    from written_market_row [OF rows0, of cast md] rows0
    have market: "(\<exists>rows0 rows r. market_table db = Some rows0 \<and> market_table ?db' = Some rows
               \<and> filter (\<lambda>x. m_block_number x \<noteq> blockNumber md) rows
                   = filter (\<lambda>x. m_block_number x \<noteq> blockNumber md) rows0
               \<and> r \<in> set rows
               \<and> r = \<lparr> m_block_number = blockNumber md, m_timestamp = timestamp md,
                     m_network = (case find (\<lambda>x. m_block_number x = blockNumber md) rows0 of
                                    None \<Rightarrow> network md | Some r0 \<Rightarrow> m_network r0),
                     m_total_market_size = cast 36 18 (totalMarketSize md),
                     m_total_borrows = cast 36 18 (totalBorrows md),
                     m_average_utilization = cast 10 4 (averageUtilization md),
                     m_token_count = tokenCount md \<rparr>)"
      by blast
    have tokens: "\<exists>rows0 rows r first_tok last_tok.
             map_of (token_tables db) (tableName (symbol tok)) = Some rows0
           \<and> map_of (token_tables ?db') (tableName (symbol tok)) = Some rows
           \<and> filter (\<lambda>x. t_block_number x \<noteq> blockNumber md) rows
               = filter (\<lambda>x. t_block_number x \<noteq> blockNumber md) rows0
           \<and> first_tok = hd (filter (\<lambda>t. tableName (symbol t) = tableName (symbol tok)) (tokenMetrics md))
           \<and> last_tok = last (filter (\<lambda>t. tableName (symbol t) = tableName (symbol tok)) (tokenMetrics md))
           \<and> r \<in> set rows
           \<and> r = \<lparr> t_block_number = blockNumber md, t_timestamp = timestamp md,
                 t_token_name = (case find (\<lambda>x. t_block_number x = blockNumber md) rows0 of
                                   None \<Rightarrow> token first_tok | Some r0 \<Rightarrow> t_token_name r0),
                 t_price_usd = cast 36 18 (priceInUSD last_tok),
                 t_total_supplied = cast 36 18 (totalSupplied last_tok),
                 t_total_supplied_usd = cast 36 18 (totalSuppliedUSD last_tok),
                 t_total_borrowed = cast 36 18 (totalBorrowed last_tok),
                 t_total_borrowed_usd = cast 36 18 (totalBorrowedUSD last_tok),
                 t_utilization_rate = cast 10 4 (utilizationRate last_tok),
                 t_supply_apy = cast 10 4 (supplyAPY last_tok),
                 t_borrow_apy = cast 10 4 (variableBorrowAPY last_tok),
                 t_reserve_factor = cast 10 4 (reserveFactor last_tok),
                 t_liquidation_threshold = cast 10 4 (liquidationThreshold last_tok),
                 t_borrow_enabled = borrowEnabled last_tok,
                 t_supply_cap = (if supplyCap last_tok = Infinity then None else Some (cast 36 18 (supplyCap last_tok))),
                 t_borrow_cap = (if borrowCap last_tok = Infinity then None else Some (cast 36 18 (borrowCap last_tok))) \<rparr>"
      if "tok \<in> set (tokenMetrics md)" for tok
    proof -
      from ok that obtain rows1 where rows1: "map_of (token_tables db) (tableName (symbol tok)) = Some rows1"
        by (auto simp add: tables_exist_def list_all_iff)
      from written_token_row [OF that rows1, of cast] rows1 show ?thesis
        by blast
    qed
    have rest: "map fst (token_tables ?db') = map fst (token_tables db)
            \<and> filter (\<lambda>(k, rows). k \<notin> (\<lambda>tok. tableName (symbol tok)) ` set (tokenMetrics md)) (token_tables ?db')
                = filter (\<lambda>(k, rows). k \<notin> (\<lambda>tok. tableName (symbol tok)) ` set (tokenMetrics md)) (token_tables db)"
      by (simp only: written_keys written_elsewhere simp_thms)
    from ok market tokens rest show ?thesis by blast
  qed
qed

text \<open>
  The theorem at the example snapshot of two tokens, on tables that hold rows of earlier
  calls. When the fourth query, the \<open>INSERT\<close> of the second token, fails, the caller
  gets that error and the tables are as before. When no query fails, the rows of block
  100 hold the columns of the snapshot and the \<open>network\<close> and \<open>token_name\<close> that
  were there, the new row of \<open>WETH\<close> has the name of the snapshot, and the market row
  of block 99 is as before.
\<close>

theorem storeMetrics_atomic_witness:
  "storeMetrics to_numeric (\<lambda>n. n = 3) ex_md ex_db_stale = (Inl (QueryFailed 3), ex_db_stale)
   \<and> storeMetrics to_numeric (\<lambda>n. False) ex_md ex_db_stale =
       (Inr (),
        \<lparr> market_table = Some
            [\<lparr> m_block_number = 99, m_timestamp = 1699999998, m_network = ''Base'',
               m_total_market_size = Num 1900, m_total_borrows = Num 700,
               m_average_utilization = Num 35, m_token_count = 2 \<rparr>,
             \<lparr> m_block_number = 100, m_timestamp = 1700000000, m_network = ''Stale'',
               m_total_market_size = Num 2000, m_total_borrows = Num 800,
               m_average_utilization = Num 40, m_token_count = 2 \<rparr>],
          token_tables =
            [(''aave_token_usdc'',
              [\<lparr> t_block_number = 100, t_timestamp = 1700000000, t_token_name = ''Stale Coin'',
                 t_price_usd = Num 1, t_total_supplied = Num 1000, t_total_supplied_usd = Num 1000,
                 t_total_borrowed = Num 400, t_total_borrowed_usd = Num 400,
                 t_utilization_rate = Num 40, t_supply_apy = Num (25 / 8), t_borrow_apy = Num (25 / 4),
                 t_reserve_factor = Num (25 / 2), t_liquidation_threshold = Num (3 / 4),
                 t_borrow_enabled = True,
                 t_supply_cap = Some (Num 2000000), t_borrow_cap = Some (Num 1000000) \<rparr>]),
             (''aave_token_weth'',
              [\<lparr> t_block_number = 100, t_timestamp = 1700000000, t_token_name = ''Wrapped Ether'',
                 t_price_usd = Num 1, t_total_supplied = Num 1000, t_total_supplied_usd = Num 1000,
                 t_total_borrowed = Num 400, t_total_borrowed_usd = Num 400,
                 t_utilization_rate = Num 40, t_supply_apy = Num (25 / 8), t_borrow_apy = Num (25 / 4),
                 t_reserve_factor = Num (25 / 2), t_liquidation_threshold = Num (3 / 4),
                 t_borrow_enabled = True,
                 t_supply_cap = Some (Num 2000000), t_borrow_cap = Some (Num 1000000) \<rparr>])] \<rparr>)"
proof -
  have f: "fst (storeMetrics to_numeric (\<lambda>n. n = 3) ex_md ex_db_stale) = Inl (QueryFailed 3)"
    by (simp add: eval_store ex_md_def ex_db_stale_def ex_reserve_weth_def)
  from storeMetrics_atomic [of to_numeric "\<lambda>n. n = 3" ex_md ex_db_stale] f
  have failed: "storeMetrics to_numeric (\<lambda>n. n = 3) ex_md ex_db_stale
      = (Inl (QueryFailed 3), ex_db_stale)"
    by auto
  have ok: "storeMetrics to_numeric (\<lambda>n. False) ex_md ex_db_stale =
       (Inr (),
        \<lparr> market_table = Some
            [\<lparr> m_block_number = 99, m_timestamp = 1699999998, m_network = ''Base'',
               m_total_market_size = Num 1900, m_total_borrows = Num 700,
               m_average_utilization = Num 35, m_token_count = 2 \<rparr>,
             \<lparr> m_block_number = 100, m_timestamp = 1700000000, m_network = ''Stale'',
               m_total_market_size = Num 2000, m_total_borrows = Num 800,
               m_average_utilization = Num 40, m_token_count = 2 \<rparr>],
          token_tables =
            [(''aave_token_usdc'',
              [\<lparr> t_block_number = 100, t_timestamp = 1700000000, t_token_name = ''Stale Coin'',
                 t_price_usd = Num 1, t_total_supplied = Num 1000, t_total_supplied_usd = Num 1000,
                 t_total_borrowed = Num 400, t_total_borrowed_usd = Num 400,
                 t_utilization_rate = Num 40, t_supply_apy = Num (25 / 8), t_borrow_apy = Num (25 / 4),
                 t_reserve_factor = Num (25 / 2), t_liquidation_threshold = Num (3 / 4),
                 t_borrow_enabled = True,
                 t_supply_cap = Some (Num 2000000), t_borrow_cap = Some (Num 1000000) \<rparr>]),
             (''aave_token_weth'',
              [\<lparr> t_block_number = 100, t_timestamp = 1700000000, t_token_name = ''Wrapped Ether'',
                 t_price_usd = Num 1, t_total_supplied = Num 1000, t_total_supplied_usd = Num 1000,
                 t_total_borrowed = Num 400, t_total_borrowed_usd = Num 400,
                 t_utilization_rate = Num 40, t_supply_apy = Num (25 / 8), t_borrow_apy = Num (25 / 4),
                 t_reserve_factor = Num (25 / 2), t_liquidation_threshold = Num (3 / 4),
                 t_borrow_enabled = True,
                 t_supply_cap = Some (Num 2000000), t_borrow_cap = Some (Num 1000000) \<rparr>])] \<rparr>)"
    by (simp add: eval_store ex_md_def ex_db_stale_def ex_reserve_weth_def)
  from failed ok show ?thesis by blast
qed

lemma primary_key_token:
  assumes "primary_key_ok db" and "map_of (token_tables db) n = Some rows"
  shows "distinct (map t_block_number rows)"
proof -
  from assms(2) have "(n, rows) \<in> set (token_tables db)" by (rule map_of_SomeD)
  with assms(1) show ?thesis by (auto simp add: primary_key_ok_def list_all_iff)
qed

text \<open>
  Claim C2, amended. Let the tables satisfy their primary keys. If \<open>storeMetrics\<close>
  returns, a second call with the same snapshot returns as well when no query fails,
  and whether it returns or fails the tables stay as the first call left them and
  satisfy their primary keys. Each table then holds exactly one row for the block number
  of the snapshot. In that row \<open>block_number\<close>, \<open>timestamp\<close>, \<open>token_count\<close> and
  \<open>borrow_enabled\<close> are those of the snapshot, every \<open>NUMERIC\<close> column is the value of
  the snapshot converted to the type of the column, which rounds it, and a cap that is
  \<open>Infinity\<close> is \<open>NULL\<close>. \<open>network\<close> and \<open>token_name\<close> are those of the snapshot
  if the table had no row for the block before the first call, and otherwise stay what
  they were. Where several tokens of the snapshot give the same table name, the row
  holds the columns of the last of them and, if it is new, the name of the first.
\<close>

theorem storeMetrics_twice:
  assumes pk: "primary_key_ok db"
    and put1: "storeMetrics cast faults md db = (Inr (), db1)"
  shows "storeMetrics cast (\<lambda>n. False) md db1 = (Inr (), db1)
    \<and> snd (storeMetrics cast faults' md db1) = db1
    \<and> primary_key_ok db1
    \<and> (\<exists>rows0 rows r. market_table db = Some rows0 \<and> market_table db1 = Some rows
       \<and> filter (\<lambda>x. m_block_number x \<noteq> blockNumber md) rows
           = filter (\<lambda>x. m_block_number x \<noteq> blockNumber md) rows0
       \<and> filter (\<lambda>x. m_block_number x = blockNumber md) rows = [r]
       \<and> r = \<lparr> m_block_number = blockNumber md, m_timestamp = timestamp md,
             m_network = (case find (\<lambda>x. m_block_number x = blockNumber md) rows0 of
                            None \<Rightarrow> network md | Some r0 \<Rightarrow> m_network r0),
             m_total_market_size = cast 36 18 (totalMarketSize md),
             m_total_borrows = cast 36 18 (totalBorrows md),
             m_average_utilization = cast 10 4 (averageUtilization md),
             m_token_count = tokenCount md \<rparr>)
    \<and> (\<forall>tok \<in> set (tokenMetrics md). \<exists>rows0 rows r first_tok last_tok.
         map_of (token_tables db) (tableName (symbol tok)) = Some rows0
       \<and> map_of (token_tables db1) (tableName (symbol tok)) = Some rows
       \<and> filter (\<lambda>x. t_block_number x \<noteq> blockNumber md) rows
           = filter (\<lambda>x. t_block_number x \<noteq> blockNumber md) rows0
       \<and> first_tok = hd (filter (\<lambda>t. tableName (symbol t) = tableName (symbol tok)) (tokenMetrics md))
       \<and> last_tok = last (filter (\<lambda>t. tableName (symbol t) = tableName (symbol tok)) (tokenMetrics md))
       \<and> filter (\<lambda>x. t_block_number x = blockNumber md) rows = [r]
       \<and> r = \<lparr> t_block_number = blockNumber md, t_timestamp = timestamp md,
             t_token_name = (case find (\<lambda>x. t_block_number x = blockNumber md) rows0 of
                               None \<Rightarrow> token first_tok | Some r0 \<Rightarrow> t_token_name r0),
             t_price_usd = cast 36 18 (priceInUSD last_tok),
             t_total_supplied = cast 36 18 (totalSupplied last_tok),
             t_total_supplied_usd = cast 36 18 (totalSuppliedUSD last_tok),
             t_total_borrowed = cast 36 18 (totalBorrowed last_tok),
             t_total_borrowed_usd = cast 36 18 (totalBorrowedUSD last_tok),
             t_utilization_rate = cast 10 4 (utilizationRate last_tok),
             t_supply_apy = cast 10 4 (supplyAPY last_tok),
             t_borrow_apy = cast 10 4 (variableBorrowAPY last_tok),
             t_reserve_factor = cast 10 4 (reserveFactor last_tok),
             t_liquidation_threshold = cast 10 4 (liquidationThreshold last_tok),
             t_borrow_enabled = borrowEnabled last_tok,
             t_supply_cap = (if supplyCap last_tok = Infinity then None else Some (cast 36 18 (supplyCap last_tok))),
             t_borrow_cap = (if borrowCap last_tok = Infinity then None else Some (cast 36 18 (borrowCap last_tok))) \<rparr>)"
proof -
  from storeMetrics_ok [OF put1] have ex: "tables_exist md db" and db1: "db1 = written cast md db"
    by simp_all
  have ex1: "tables_exist md db1" by (simp add: db1 tables_exist_written ex)
  have fixp: "written cast md db1 = db1" by (simp add: db1 written_twice)
  from storeMetrics_no_fault_ok [OF ex1, of cast] fixp
  have again: "storeMetrics cast (\<lambda>n. False) md db1 = (Inr (), db1)" by simp
  from storeMetrics_cases [of cast faults' md db1] fixp
  have any: "snd (storeMetrics cast faults' md db1) = db1" by auto
  from ex obtain rows0 where rows0: "market_table db = Some rows0"
    by (auto simp add: tables_exist_def)
  with pk have "distinct (map m_block_number rows0)" by (simp add: primary_key_ok_def)
  with written_market_row [OF rows0, of cast md] rows0
  have market: "(\<exists>rows0 rows r. market_table db = Some rows0 \<and> market_table db1 = Some rows
             \<and> filter (\<lambda>x. m_block_number x \<noteq> blockNumber md) rows
                 = filter (\<lambda>x. m_block_number x \<noteq> blockNumber md) rows0
             \<and> filter (\<lambda>x. m_block_number x = blockNumber md) rows = [r]
             \<and> r = \<lparr> m_block_number = blockNumber md, m_timestamp = timestamp md,
                   m_network = (case find (\<lambda>x. m_block_number x = blockNumber md) rows0 of
                                  None \<Rightarrow> network md | Some r0 \<Rightarrow> m_network r0),
                   m_total_market_size = cast 36 18 (totalMarketSize md),
                   m_total_borrows = cast 36 18 (totalBorrows md),
                   m_average_utilization = cast 10 4 (averageUtilization md),
                   m_token_count = tokenCount md \<rparr>)"
    unfolding db1 by blast
  have tokens: "\<exists>rows0 rows r first_tok last_tok.
             map_of (token_tables db) (tableName (symbol tok)) = Some rows0
           \<and> map_of (token_tables db1) (tableName (symbol tok)) = Some rows
           \<and> filter (\<lambda>x. t_block_number x \<noteq> blockNumber md) rows
               = filter (\<lambda>x. t_block_number x \<noteq> blockNumber md) rows0
           \<and> first_tok = hd (filter (\<lambda>t. tableName (symbol t) = tableName (symbol tok)) (tokenMetrics md))
           \<and> last_tok = last (filter (\<lambda>t. tableName (symbol t) = tableName (symbol tok)) (tokenMetrics md))
           \<and> filter (\<lambda>x. t_block_number x = blockNumber md) rows = [r]
           \<and> r = \<lparr> t_block_number = blockNumber md, t_timestamp = timestamp md,
                 t_token_name = (case find (\<lambda>x. t_block_number x = blockNumber md) rows0 of
                                   None \<Rightarrow> token first_tok | Some r0 \<Rightarrow> t_token_name r0),
                 t_price_usd = cast 36 18 (priceInUSD last_tok),
                 t_total_supplied = cast 36 18 (totalSupplied last_tok),
                 t_total_supplied_usd = cast 36 18 (totalSuppliedUSD last_tok),
                 t_total_borrowed = cast 36 18 (totalBorrowed last_tok),
                 t_total_borrowed_usd = cast 36 18 (totalBorrowedUSD last_tok),
                 t_utilization_rate = cast 10 4 (utilizationRate last_tok),
                 t_supply_apy = cast 10 4 (supplyAPY last_tok),
                 t_borrow_apy = cast 10 4 (variableBorrowAPY last_tok),
                 t_reserve_factor = cast 10 4 (reserveFactor last_tok),
                 t_liquidation_threshold = cast 10 4 (liquidationThreshold last_tok),
                 t_borrow_enabled = borrowEnabled last_tok,
                 t_supply_cap = (if supplyCap last_tok = Infinity then None else Some (cast 36 18 (supplyCap last_tok))),
                 t_borrow_cap = (if borrowCap last_tok = Infinity then None else Some (cast 36 18 (borrowCap last_tok))) \<rparr>"
    if mem: "tok \<in> set (tokenMetrics md)" for tok
  proof -
    from ex mem obtain rows1 where rows1: "map_of (token_tables db) (tableName (symbol tok)) = Some rows1"
      by (auto simp add: tables_exist_def list_all_iff)
    from primary_key_token [OF pk rows1] have "distinct (map t_block_number rows1)" .
    with written_token_row [OF mem rows1, of cast] rows1 show ?thesis
      unfolding db1 by blast
  qed
  from primary_key_ok_storeMetrics [OF pk, of cast faults md] put1 have keys: "primary_key_ok db1"
    by simp
  from again any keys market tokens show ?thesis by blast
qed

text \<open>
  The theorem at the example snapshot on the tables with rows of earlier calls, and at
  the snapshot of two assets that share a table on empty tables: the second call returns
  and changes nothing, and the table of \<open>USDC\<close> holds one row of block 100, with the
  name that was there in the first case, and with the name of the first asset and the
  columns of the second in the other.
\<close>

theorem storeMetrics_twice_witness:
  "primary_key_ok ex_db_stale
   \<and> fst (storeMetrics to_numeric (\<lambda>n. False) ex_md ex_db_stale) = Inr ()
   \<and> storeMetrics to_numeric (\<lambda>n. False) ex_md (snd (storeMetrics to_numeric (\<lambda>n. False) ex_md ex_db_stale))
       = (Inr (), snd (storeMetrics to_numeric (\<lambda>n. False) ex_md ex_db_stale))
   \<and> map_option (map (\<lambda>r. (t_block_number r, t_token_name r, t_total_supplied r, t_utilization_rate r)))
        (map_of (token_tables (snd (storeMetrics to_numeric (\<lambda>n. False) ex_md
           (snd (storeMetrics to_numeric (\<lambda>n. False) ex_md ex_db_stale))))) ''aave_token_usdc'')
       = Some [(100, ''Stale Coin'', Num 1000, Num 40)]
   \<and> primary_key_ok ex_db
   \<and> fst (storeMetrics to_numeric (\<lambda>n. False) ex_md_twins ex_db) = Inr ()
   \<and> storeMetrics to_numeric (\<lambda>n. False) ex_md_twins (snd (storeMetrics to_numeric (\<lambda>n. False) ex_md_twins ex_db))
       = (Inr (), snd (storeMetrics to_numeric (\<lambda>n. False) ex_md_twins ex_db))
   \<and> map_option (map (\<lambda>r. (t_block_number r, t_token_name r, t_total_supplied r, t_utilization_rate r)))
        (map_of (token_tables (snd (storeMetrics to_numeric (\<lambda>n. False) ex_md_twins
           (snd (storeMetrics to_numeric (\<lambda>n. False) ex_md_twins ex_db))))) ''aave_token_usdc'')
       = Some [(100, ''USD Coin'', Num 5, Num 8000)]"
proof -
  let ?db1 = "snd (storeMetrics to_numeric (\<lambda>n. False) ex_md ex_db_stale)"
  let ?db2 = "snd (storeMetrics to_numeric (\<lambda>n. False) ex_md_twins ex_db)"
  have pk: "primary_key_ok ex_db_stale" "primary_key_ok ex_db"
    by (simp_all add: primary_key_ok_def ex_db_stale_def ex_db_def)
  have ok: "fst (storeMetrics to_numeric (\<lambda>n. False) ex_md ex_db_stale) = Inr ()"
    "fst (storeMetrics to_numeric (\<lambda>n. False) ex_md_twins ex_db) = Inr ()"
    by (simp_all add: eval_store ex_md_def ex_md_twins_def ex_db_stale_def ex_db_def
        ex_reserve_weth_def)
  then have first: "storeMetrics to_numeric (\<lambda>n. False) ex_md ex_db_stale = (Inr (), ?db1)"
    "storeMetrics to_numeric (\<lambda>n. False) ex_md_twins ex_db = (Inr (), ?db2)"
    by (metis prod.collapse)+
  from storeMetrics_twice [OF pk(1) first(1)]
  have again1: "storeMetrics to_numeric (\<lambda>n. False) ex_md ?db1 = (Inr (), ?db1)"
    by blast
  from storeMetrics_twice [OF pk(2) first(2)]
  have again2: "storeMetrics to_numeric (\<lambda>n. False) ex_md_twins ?db2 = (Inr (), ?db2)"
    by blast
  have rows1: "map_option (map (\<lambda>r. (t_block_number r, t_token_name r, t_total_supplied r, t_utilization_rate r)))
        (map_of (token_tables ?db1) ''aave_token_usdc'')
       = Some [(100, ''Stale Coin'', Num 1000, Num 40)]"
    by (simp add: eval_store ex_md_def ex_db_stale_def ex_reserve_weth_def)
  have rows2: "map_option (map (\<lambda>r. (t_block_number r, t_token_name r, t_total_supplied r, t_utilization_rate r)))
        (map_of (token_tables ?db2) ''aave_token_usdc'')
       = Some [(100, ''USD Coin'', Num 5, Num 8000)]"
    by (simp add: eval_store ex_md_twins_def ex_db_def)
  from pk ok again1 again2 rows1 rows2 show ?thesis by simp
qed

text \<open>
  Claim C2, as stated, fails. When block 100 was stored before with the token name
  \<open>USD Coin\<close>, storing twice a snapshot of block 100 whose token is named \<open>USDC\<close>
  leaves the name \<open>USD Coin\<close> in the row. A snapshot with the two assets
  \<open>USDC\<close> and \<open>usdc\<close>, which share the table \<open>aave_token_usdc\<close>, leaves after
  two calls on empty tables one row with the name of the first asset and the supply of
  the second. And a snapshot whose utilization rate is the double \<open>33.33333333333333\<close>
  leaves \<open>33.3333\<close> in the column \<open>utilization_rate\<close>, a \<open>NUMERIC(10,4)\<close>.
\<close>

theorem upsert_keeps_name_counterexample:
  "map token (tokenMetrics ex_md_renamed) = [''USDC'']
   \<and> map_option (map t_token_name)
       (map_of (token_tables
          (snd (storeMetrics to_numeric (\<lambda>n. False) ex_md_renamed
            (snd (storeMetrics to_numeric (\<lambda>n. False) ex_md_renamed
              (snd (storeMetrics to_numeric (\<lambda>n. False) ex_md ex_db))))))) ''aave_token_usdc'')
       = Some [''USD Coin'']
   \<and> map (\<lambda>tok. (token tok, symbol tok, totalSupplied tok)) (tokenMetrics ex_md_twins)
       = [(''USD Coin'', ''USDC'', Num 1000), (''Other Coin'', ''usdc'', Num 5)]
   \<and> map_option (map (\<lambda>r. (t_token_name r, t_total_supplied r)))
       (map_of (token_tables
          (snd (storeMetrics to_numeric (\<lambda>n. False) ex_md_twins
            (snd (storeMetrics to_numeric (\<lambda>n. False) ex_md_twins ex_db))))) ''aave_token_usdc'')
       = Some [(''USD Coin'', Num 5)]
   \<and> map utilizationRate (tokenMetrics ex_md_third) = [Num (2345624805922133 / 70368744177664)]
   \<and> map_option (map t_utilization_rate)
       (map_of (token_tables
          (snd (storeMetrics to_numeric (\<lambda>n. False) ex_md_third
            (snd (storeMetrics to_numeric (\<lambda>n. False) ex_md_third ex_db))))) ''aave_token_usdc'')
       = Some [Num (333333 / 10000)]"
  by (simp add: eval_store ex_md_def ex_md_renamed_def ex_md_twins_def ex_md_third_def ex_db_def
      ex_reserve_weth_def)

text \<open>
  Claim C9, amended. \<open>storeMetrics\<close> creates no table. When the table of a token
  of the snapshot does not exist, the call fails and leaves the tables as they were;
  whatever happens, the token tables after the call are the token tables from before;
  with no failing query the call returns exactly when the market table and the table of
  every token of the snapshot exist. Tables come from \<open>initializeDatabase\<close>: once it
  has run on a latest metrics file that holds the symbols of the snapshot, the call
  returns.
\<close>

theorem storeMetrics_creates_no_table:
  "((\<exists>tok \<in> set (tokenMetrics md). map_of (token_tables db) (tableName (symbol tok)) = None)
      \<longrightarrow> (\<exists>e. storeMetrics cast faults md db = (Inl e, db)))
   \<and> map fst (token_tables (snd (storeMetrics cast faults md db))) = map fst (token_tables db)
   \<and> (fst (storeMetrics cast (\<lambda>n. False) md db) = Inr ())
       = (market_table db \<noteq> None
          \<and> (\<forall>tok \<in> set (tokenMetrics md). map_of (token_tables db) (tableName (symbol tok)) \<noteq> None))
   \<and> (\<exists>db'. initializeDatabase cast (\<lambda>n. False) (Some (map symbol (tokenMetrics md))) db = (Inr (), db')
          \<and> fst (storeMetrics cast (\<lambda>n. False) md db') = Inr ())"
proof -
  have missing: "\<exists>e. storeMetrics cast faults md db = (Inl e, db)"
    if "\<exists>tok \<in> set (tokenMetrics md). map_of (token_tables db) (tableName (symbol tok)) = None"
  proof -
    from that have "\<not> tables_exist md db"
      by (auto simp add: tables_exist_def list_all_iff)
    with storeMetrics_cases [of cast faults md db] show ?thesis by blast
  qed
  have keys: "map fst (token_tables (snd (storeMetrics cast faults md db))) = map fst (token_tables db)"
    using storeMetrics_cases [of cast faults md db] by (auto simp add: written_keys)
  have iff: "(fst (storeMetrics cast (\<lambda>n. False) md db) = Inr ())
       = (market_table db \<noteq> None
          \<and> (\<forall>tok \<in> set (tokenMetrics md). map_of (token_tables db) (tableName (symbol tok)) \<noteq> None))"
  proof (cases "tables_exist md db")
    case True
    from storeMetrics_no_fault_ok [OF this, of cast] True show ?thesis
      by (simp add: tables_exist_def list_all_iff)
  next
    case False
    with storeMetrics_cases [of cast "\<lambda>n. False" md db]
    have "\<exists>e. storeMetrics cast (\<lambda>n. False) md db = (Inl e, db)" by blast
    with False show ?thesis by (auto simp add: tables_exist_def list_all_iff)
  qed
  from initializeDatabase_no_fault [of cast "map symbol (tokenMetrics md)" db] obtain db' where
    init: "initializeDatabase cast (\<lambda>n. False) (Some (map symbol (tokenMetrics md))) db = (Inr (), db')"
    and m: "market_table db' \<noteq> None"
    and t: "\<forall>s \<in> set (map symbol (tokenMetrics md)). map_of (token_tables db') (tableName s) \<noteq> None"
    by blast
  from m t have "tables_exist md db'"
    by (simp add: tables_exist_def list_all_iff)
  from storeMetrics_no_fault_ok [OF this, of cast] init
  have after: "\<exists>db'. initializeDatabase cast (\<lambda>n. False) (Some (map symbol (tokenMetrics md))) db = (Inr (), db')
          \<and> fst (storeMetrics cast (\<lambda>n. False) md db') = Inr ()"
    by auto
  from missing keys iff after show ?thesis by blast
qed

text \<open>
  The theorem at a snapshot with the asset \<open>NEW\<close> and the tables of the default
  token list: the call fails and changes nothing, and returns after
  \<open>initializeDatabase\<close> has seen the symbols \<open>USDC\<close> and \<open>NEW\<close>.
\<close>

theorem storeMetrics_creates_no_table_witness:
  "(\<exists>e. storeMetrics to_numeric (\<lambda>n. False) ex_md_new default_db = (Inl e, default_db))
   \<and> fst (storeMetrics to_numeric (\<lambda>n. False) ex_md_new
        (snd (initializeDatabase to_numeric (\<lambda>n. False) (Some [''USDC'', ''NEW'']) default_db))) = Inr ()"
proof -
  have syms: "map symbol (tokenMetrics ex_md_new) = [''USDC'', ''NEW'']"
    by (simp add: eval_store ex_md_new_def)
  have "\<exists>tok \<in> set (tokenMetrics ex_md_new).
      map_of (token_tables default_db) (tableName (symbol tok)) = None"
    by (simp add: eval_store ex_md_new_def default_db_def)
  with storeMetrics_creates_no_table [of ex_md_new default_db to_numeric "\<lambda>n. False"] syms
  show ?thesis by auto
qed

text \<open>
  Claim C9, as stated, fails. \<open>initializeDatabase\<close> without a latest metrics file
  creates the tables of the default token list; a snapshot that holds the asset
  \<open>NEW\<close> next to \<open>USDC\<close> is then refused with \<open>UndefinedTable\<close>, no table being
  created and no row written.
\<close>

theorem put_of_new_asset_fails_counterexample:
  "initializeDatabase to_numeric (\<lambda>n. False) None empty_db = (Inr (), default_db)
   \<and> map symbol (tokenMetrics ex_md_new) = [''USDC'', ''NEW'']
   \<and> storeMetrics to_numeric (\<lambda>n. False) ex_md_new default_db
       = (Inl (UndefinedTable ''aave_token_new''), default_db)"
  by (simp add: initializeDatabase_def defaultTokenSymbols_def eval_store ex_md_new_def
      default_db_def empty_db_def)

subsection \<open>The poller\<close>

lemma failed_tick_keeps_cursor:
  "lastProcessedBlock (tick_step (HeadObserved i (Inl e)) p) = lastProcessedBlock p"
  "lastProcessedBlock (tick_step (IndexingDone i (Inl e)) p) = lastProcessedBlock p"
  "polling (tick_step ev p) = polling p"
proof -
  show "lastProcessedBlock (tick_step (HeadObserved i (Inl e)) p) = lastProcessedBlock p"
    by simp
  show "lastProcessedBlock (tick_step (IndexingDone i (Inl e)) p) = lastProcessedBlock p"
    by (simp add: Let_def split: option.splits)
  show "polling (tick_step ev p) = polling p"
  proof (cases ev)
    case (HeadObserved i r)
    then show ?thesis by (cases r) simp_all
  next
    case (IndexingDone i r)
    then show ?thesis by (cases r) (simp_all add: Let_def split: option.splits)
  qed
qed

lemma lone_tick_monotone:
  assumes "suspended p = []"
  shows "lastProcessedBlock p
      \<le> lastProcessedBlock (run_events [HeadObserved i h, IndexingDone i r] p)"
proof (cases h)
  case (Inl e)
  with assms show ?thesis by (simp add: run_events_def)
next
  case (Inr b)
  with assms show ?thesis
    by (cases r; cases "b \<le> lastProcessedBlock p") (simp_all add: run_events_def Let_def)
qed

text \<open>
  Claim C8. The cursor \<open>lastProcessedBlock\<close> is required never to decrease. The
  callback compares the head with the cursor before its \<open>await\<close>s and assigns the
  cursor after them, and the timer starts the next callback while the last one is
  still waiting. Starting from block 100: a first callback observes head 103, a second
  one observes head 104 before the first has finished, the second finishes (cursor 104)
  and then the first (cursor 103).
\<close>

theorem cursor_decreases_when_ticks_overlap:
  "lastProcessedBlock (run_events
      [HeadObserved 1 (Inr 103), HeadObserved 2 (Inr 104), IndexingDone 2 (Inr ())]
      (startContinuousIndexing 100)) = 104
   \<and> lastProcessedBlock (run_events
      [HeadObserved 1 (Inr 103), HeadObserved 2 (Inr 104), IndexingDone 2 (Inr ()),
       IndexingDone 1 (Inr ())]
      (startContinuousIndexing 100)) = 103"
  by (simp add: run_events_def startContinuousIndexing_def Let_def)

subsection \<open>The comparison report\<close>

text \<open>
  Claim C4. For all inputs \<open>x\<close> and \<open>y\<close>: the percent change is \<open>0\<close> when both are
  zero, \<open>100\<close> when \<open>x\<close> is zero and \<open>y\<close> is not, and \<open>(y - x) / |x| * 100\<close>
  otherwise, each operation being that of JavaScript. On finite numbers with \<open>x\<close> not zero
  that is: the difference rounded to a double, over \<open>|x|\<close>, rounded, times \<open>100\<close>,
  rounded. When the difference and the quotient are of ordinary magnitude the result is
  finite and differs from the real number \<open>(y - x) / |x| * 100\<close> by at most the fraction
  \<open>2^(-49)\<close> of it. In particular \<open>percentChange(0, 0) = 0\<close>,
  \<open>percentChange(0, 50) = 100\<close> and \<open>percentChange(100, 150) = 50\<close>; and
  \<open>percentChange(3, 4)\<close> is the double \<open>33.33333333333333\<close>, while
  \<open>percentChange(2^1023, -2^1023)\<close> is \<open>-Infinity\<close>, the difference being beyond the
  largest double.
\<close>

theorem calculatePercentChange_spec:
  "calculatePercentChange x y =
     (if x = Num 0 \<and> y = Num 0 then Num 0
      else if x = Num 0 then Num 100
      else js_mul (js_div (js_sub y x) (js_abs x)) (Num 100))
   \<and> calculatePercentChange (Num a) (Num b) =
     (if a = 0 then (if b = 0 then Num 0 else Num 100)
      else js_mul (js_div (double (b - a)) (Num \<bar>a\<bar>)) (Num 100))
   \<and> (a \<noteq> 0 \<and> 2 powi (- 1022) \<le> \<bar>b - a\<bar> \<and> \<bar>b - a\<bar> < 2 powi 1023
        \<and> 2 powi (- 1021) \<le> \<bar>(b - a) / a\<bar> \<and> \<bar>(b - a) / a\<bar> < 2 powi 1015 \<longrightarrow>
      (\<exists>u. calculatePercentChange (Num a) (Num b) = Num u
         \<and> \<bar>u - (b - a) / \<bar>a\<bar> * 100\<bar> \<le> \<bar>(b - a) / a * 100\<bar> / 2 ^ 49))
   \<and> calculatePercentChange (Num 0) (Num 0) = Num 0
   \<and> calculatePercentChange (Num 0) (Num 50) = Num 100
   \<and> calculatePercentChange (Num 100) (Num 150) = Num 50
   \<and> calculatePercentChange (Num 3) (Num 4) = Num (2345624805922133 / 70368744177664)
   \<and> calculatePercentChange (Num (2 ^ 1023)) (Num (- (2 ^ 1023))) = NegInfinity"
proof -
  have cases: "calculatePercentChange x y =
     (if x = Num 0 \<and> y = Num 0 then Num 0
      else if x = Num 0 then Num 100
      else js_mul (js_div (js_sub y x) (js_abs x)) (Num 100))"
    by (simp add: calculatePercentChange_def js_seq_def)
  have finite: "calculatePercentChange (Num a) (Num b) =
     (if a = 0 then (if b = 0 then Num 0 else Num 100)
      else js_mul (js_div (double (b - a)) (Num \<bar>a\<bar>)) (Num 100))"
    by (simp add: calculatePercentChange_def js_seq_def js_sub_def)
  have close: "\<exists>u. calculatePercentChange (Num a) (Num b) = Num u
         \<and> \<bar>u - (b - a) / \<bar>a\<bar> * 100\<bar> \<le> \<bar>(b - a) / a * 100\<bar> / 2 ^ 49"
    if "a \<noteq> 0 \<and> 2 powi (- 1022) \<le> \<bar>b - a\<bar> \<and> \<bar>b - a\<bar> < 2 powi 1023
        \<and> 2 powi (- 1021) \<le> \<bar>(b - a) / a\<bar> \<and> \<bar>(b - a) / a\<bar> < 2 powi 1015"
  proof -
    from that have a: "a \<noteq> 0" by blast
    from that percent_change_error [of a b] have
      "\<exists>u. js_mul (js_div (double (b - a)) (Num \<bar>a\<bar>)) (Num 100) = Num u
           \<and> \<bar>u - (b - a) / \<bar>a\<bar> * 100\<bar> \<le> \<bar>(b - a) / a * 100\<bar> / 2 ^ 49"
      by blast
    with a show ?thesis by (simp only: finite if_False)
  qed
  have examples: "calculatePercentChange (Num 0) (Num 0) = Num 0"
    "calculatePercentChange (Num 0) (Num 50) = Num 100"
    "calculatePercentChange (Num 100) (Num 150) = Num 50"
    "calculatePercentChange (Num 3) (Num 4) = Num (2345624805922133 / 70368744177664)"
    by (simp_all add: calculatePercentChange_def js_seq_def js_sub_def eval_double)
  have "js_sub (Num (- (2 ^ 1023))) (Num (2 ^ 1023)) = NegInfinity"
    by (simp only: js_sub_def js_neg.simps js_add.simps, subst double_eq_at [where k = 1024])
      (simp_all add: double_at_def round_even_def Let_def)
  then have over: "calculatePercentChange (Num (2 ^ 1023)) (Num (- (2 ^ 1023))) = NegInfinity"
    by (simp add: calculatePercentChange_def js_seq_def signed_infinity_def)
  from cases finite close examples over show ?thesis by blast
qed

text \<open>
  The theorem at \<open>percentChange(100, 150)\<close>, whose difference \<open>50\<close> and quotient
  \<open>1/2\<close> are of ordinary magnitude: the result is \<open>50\<close>, the real number.
\<close>

theorem calculatePercentChange_spec_witness:
  "(100::real) \<noteq> 0 \<and> 2 powi (- 1022) \<le> \<bar>150 - 100 :: real\<bar> \<and> \<bar>150 - 100 :: real\<bar> < 2 powi 1023
   \<and> 2 powi (- 1021) \<le> \<bar>(150 - 100) / 100 :: real\<bar> \<and> \<bar>(150 - 100) / 100 :: real\<bar> < 2 powi 1015
   \<and> calculatePercentChange (Num 100) (Num 150) = Num 50
   \<and> \<bar>50 - (150 - 100) / \<bar>100\<bar> * 100 :: real\<bar> \<le> \<bar>(150 - 100) / 100 * 100\<bar> / 2 ^ 49"
proof -
  have range: "(100::real) \<noteq> 0 \<and> 2 powi (- 1022) \<le> \<bar>150 - 100 :: real\<bar>
      \<and> \<bar>150 - 100 :: real\<bar> < 2 powi 1023
      \<and> 2 powi (- 1021) \<le> \<bar>(150 - 100) / 100 :: real\<bar> \<and> \<bar>(150 - 100) / 100 :: real\<bar> < 2 powi 1015"
    by simp
  from calculatePercentChange_spec [of "Num 100" "Num 150" 100 150]
  have v: "calculatePercentChange (Num 100) (Num 150) = Num 50"
    by blast
  from calculatePercentChange_spec [of "Num 100" "Num 150" 100 150] range
  have "\<exists>u. calculatePercentChange (Num 100) (Num 150) = Num u
         \<and> \<bar>u - (150 - 100) / \<bar>100\<bar> * 100\<bar> \<le> \<bar>(150 - 100) / 100 * 100 :: real\<bar> / 2 ^ 49"
    by blast
  with v have "\<bar>50 - (150 - 100) / \<bar>100\<bar> * 100 :: real\<bar> \<le> \<bar>(150 - 100) / 100 * 100\<bar> / 2 ^ 49"
    by auto
  with range v show ?thesis by blast
qed

end
